(* ===== verification/Prelude.thy ===== *)
theory Prelude
  imports Main "HOL-Library.Char_ord" "HOL-Library.List_Lexorder" "HOL-Library.Word"
begin

text \<open>
  Shared foundations: the parts of the Go language and standard library that the packages
  under \<^verbatim>\<open>internal/\<close> use, and the generic lemmas about them.

  \<^item> Go strings are byte sequences, modelled as \<^typ>\<open>string\<close> (a list of 8-bit characters), so
    \<^const>\<open>length\<close> is Go's \<^verbatim>\<open>len\<close>, and the ordering of \<^verbatim>\<open>sort.Strings\<close> is the lexicographic
    order of \<^verbatim>\<open>List_Lexorder\<close> over bytes.
  \<^item> Go errors are values of \<open>gerror\<close>: the sentinel errors the packages declare, and the
    errors \<^verbatim>\<open>fmt.Errorf\<close> builds from literal text, quoted values (\<^verbatim>\<open>%q\<close>) and wrapped errors
    (\<^verbatim>\<open>%w\<close>). \<open>errors_Is\<close> is \<^verbatim>\<open>errors.Is\<close>, \<open>Error_text\<close> is the \<^verbatim>\<open>Error()\<close> method; the text of
    \<^verbatim>\<open>%q\<close> (\<^verbatim>\<open>strconv.Quote\<close>, which consults Unicode's printability tables) is its argument.
  \<^item> A Go \<^verbatim>\<open>map[string]T\<close> whose keys are ranged over is an association list in one iteration
    order; \<open>wf_gomap\<close> says that the keys are distinct.
\<close>

named_theorems audit_frame \<open>what an operation leaves of the world unchanged\<close>
named_theorems gate_simps \<open>evaluation of the gates a tool call passes\<close>
named_theorems wf_intros \<open>well-formedness of the values the operations build\<close>

subsection \<open>Errors\<close>

datatype sentinel =
    ErrRequestNotFound | ErrReferenceRequired | ErrDuplicateReference
  | ErrCaseIDRequired | ErrReasonRequired | ErrRequesterRequired
  | ErrApprovedByRequired | ErrAlreadyDecided | ErrAlreadyConsumed
  | ErrUnknownTemplate | ErrTemplateUnsupported
  | ErrNotImplemented | ErrFlowNotFound | ErrHuntNotFound | ErrClientNotFound
  | ErrArtifactNotFound | ErrUploadNotFound | ErrUnknownResultSource
  | ErrHuntScopeClientIDsUnsupported

datatype gerror = Sentinel sentinel | Errorf "fmt_part list"
  and fmt_part = Lit string | Quo string | Wrap gerror

fun sentinel_text :: "sentinel \<Rightarrow> string" where
  "sentinel_text ErrRequestNotFound = ''approval: request not found''"
| "sentinel_text ErrReferenceRequired = ''approval: reference (request id) is required''"
| "sentinel_text ErrDuplicateReference = ''approval: reference already exists''"
| "sentinel_text ErrCaseIDRequired = ''approval: case_id is required''"
| "sentinel_text ErrReasonRequired = ''approval: reason is required''"
| "sentinel_text ErrRequesterRequired = ''approval: requester is required''"
| "sentinel_text ErrApprovedByRequired = ''approval: approved_by is required''"
| "sentinel_text ErrAlreadyDecided = ''approval: request has already been decided''"
| "sentinel_text ErrAlreadyConsumed = ''approval: approval has already been consumed''"
| "sentinel_text ErrUnknownTemplate = ''vql: unknown template''"
| "sentinel_text ErrTemplateUnsupported =
     ''vql: unsupported until curated IOC artifacts are installed''"
| "sentinel_text ErrNotImplemented = ''velociraptor: not implemented in this build''"
| "sentinel_text ErrFlowNotFound = ''velociraptor: flow not found''"
| "sentinel_text ErrHuntNotFound = ''velociraptor: hunt not found''"
| "sentinel_text ErrClientNotFound = ''velociraptor: client not found''"
| "sentinel_text ErrArtifactNotFound = ''velociraptor: artifact not found''"
| "sentinel_text ErrUploadNotFound = ''velociraptor: upload not found''"
| "sentinel_text ErrUnknownResultSource =
     ''velociraptor: unknown result source for this artifact''"
| "sentinel_text ErrHuntScopeClientIDsUnsupported =
     ''velociraptor: explicit client_ids hunt scope has no typed Velociraptor RPC support in real mode (hunts can only be scoped by label or all-clients); use label or all instead''"

primrec Error_text :: "(string \<Rightarrow> string) \<Rightarrow> gerror \<Rightarrow> string"
  and part_text :: "(string \<Rightarrow> string) \<Rightarrow> fmt_part \<Rightarrow> string" where
  "Error_text quote (Sentinel s) = sentinel_text s"
| "Error_text quote (Errorf ps) = concat (map (part_text quote) ps)"
| "part_text quote (Lit s) = s"
| "part_text quote (Quo s) = quote s"
| "part_text quote (Wrap e) = Error_text quote e"

primrec errors_Is :: "sentinel \<Rightarrow> gerror \<Rightarrow> bool"
  and part_Is :: "sentinel \<Rightarrow> fmt_part \<Rightarrow> bool" where
  "errors_Is t (Sentinel s) = (s = t)"
| "errors_Is t (Errorf ps) = list_ex id (map (part_Is t) ps)"
| "part_Is t (Lit s) = False"
| "part_Is t (Quo s) = False"
| "part_Is t (Wrap e) = errors_Is t e"

abbreviation errorf :: "string \<Rightarrow> gerror" where
  "errorf s \<equiv> Errorf [Lit s]"

subsection \<open>Integers at Go's width\<close>

text \<open>\<^verbatim>\<open>int\<close>, \<^verbatim>\<open>int64\<close> and \<^verbatim>\<open>time.Duration\<close> are 64-bit two's complement.\<close>

definition maxInt64 :: int where "maxInt64 = 2 ^ 63 - 1"
definition minInt64 :: int where "minInt64 = - (2 ^ 63)"

definition wrap64 :: "int \<Rightarrow> int" where
  "wrap64 x = (x + 2 ^ 63) mod 2 ^ 64 - 2 ^ 63"

lemma wrap64_range: "minInt64 \<le> wrap64 x \<and> wrap64 x \<le> maxInt64"
proof -
  have "0 \<le> (x + 2 ^ 63) mod (2 ^ 64 :: int)" and "(x + 2 ^ 63) mod (2 ^ 64 :: int) < 2 ^ 64"
    by simp_all
  then show ?thesis unfolding wrap64_def minInt64_def maxInt64_def by simp
qed

lemma wrap64_id: "minInt64 \<le> x \<Longrightarrow> x \<le> maxInt64 \<Longrightarrow> wrap64 x = x"
  unfolding wrap64_def minInt64_def maxInt64_def by simp

lemma wrap64_sint: "wrap64 x = sint (word_of_int x :: 64 word)"
  unfolding wrap64_def by (simp add: int_word_sint)

subsection \<open>Decimal numerals\<close>

definition digit_char :: "nat \<Rightarrow> char" where
  "digit_char d = char_of (48 + d)"

fun Itoa :: "nat \<Rightarrow> string" where
  "Itoa n = (if n < 10 then [digit_char n] else Itoa (n div 10) @ [digit_char (n mod 10)])"

declare Itoa.simps [simp del]

definition FormatInt :: "int \<Rightarrow> string" where
  "FormatInt i = (if i < 0 then CHR ''-'' # Itoa (nat (- i)) else Itoa (nat i))"

definition is_digit :: "char \<Rightarrow> bool" where
  "is_digit c \<longleftrightarrow> 48 \<le> (of_char c :: nat) \<and> (of_char c :: nat) \<le> 57"

lemma of_char_digit_char: "d < 10 \<Longrightarrow> (of_char (digit_char d) :: nat) = 48 + d"
  by (simp add: digit_char_def)

lemma is_digit_digit_char [simp]: "d < 10 \<Longrightarrow> is_digit (digit_char d)"
  by (simp add: is_digit_def of_char_digit_char)

lemma digit_char_inj: "d < 10 \<Longrightarrow> e < 10 \<Longrightarrow> digit_char d = digit_char e \<Longrightarrow> d = e"
  by (metis add_left_cancel of_char_digit_char)

lemma Itoa_ne [simp]: "Itoa n \<noteq> []"
  by (subst Itoa.simps) simp

lemma Itoa_neE: "[] = Itoa n \<Longrightarrow> P"
  by (metis Itoa_ne)

lemma Itoa_digits: "c \<in> set (Itoa n) \<Longrightarrow> is_digit c"
proof (induction n rule: Itoa.induct)
  case (1 n)
  then show ?case by (cases "n < 10") (auto simp: Itoa.simps [of n])
qed

lemma Itoa_inj: "Itoa m = Itoa n \<Longrightarrow> m = n"
proof (induction m arbitrary: n rule: Itoa.induct)
  case (1 m)
  show ?case
  proof (cases "m < 10")
    case True
    with 1(2) show ?thesis
      by (cases "n < 10")
        (auto simp: Itoa.simps [of m] Itoa.simps [of n] dest: digit_char_inj elim: Itoa_neE)
  next
    case False
    with 1(2) have "\<not> n < 10" by (auto simp: Itoa.simps [of m] Itoa.simps [of n])
    with False 1(2) have "Itoa (m div 10) = Itoa (n div 10)"
      and "digit_char (m mod 10) = digit_char (n mod 10)"
      by (simp_all add: Itoa.simps [of m] Itoa.simps [of n])
    with 1(1) [OF False] have "m div 10 = n div 10" and "m mod 10 = n mod 10"
      by blast (rule digit_char_inj, simp_all add: \<open>digit_char (m mod 10) = _\<close>)
    then show ?thesis by (metis div_mult_mod_eq)
  qed
qed

lemma Itoa_eq_iff [simp]: "Itoa m = Itoa n \<longleftrightarrow> m = n"
  by (auto dest: Itoa_inj)

subsection \<open>Lists\<close>

lemma length_filter_all: "length (filter P xs) = length xs \<longleftrightarrow> (\<forall>x \<in> set xs. P x)"
proof (induction xs)
  case (Cons x xs)
  have "length (filter P xs) \<noteq> Suc (length xs)" using length_filter_le [of P xs] by linarith
  then show ?case using Cons by auto
qed simp

lemma length_filter_one:
  assumes "distinct xs" "x \<in> set xs" "P x"
  shows "length (filter P xs) = 1 \<longleftrightarrow> (\<forall>y \<in> set xs. y \<noteq> x \<longrightarrow> \<not> P y)"
proof -
  have "length (filter P xs) = card ({y. P y} \<inter> set xs)" by (rule distinct_length_filter [OF assms(1)])
  moreover have "card ({y. P y} \<inter> set xs) = 1 \<longleftrightarrow> {y. P y} \<inter> set xs = {x}"
  proof
    assume "card ({y. P y} \<inter> set xs) = 1"
    then obtain z where z: "{y. P y} \<inter> set xs = {z}" by (auto simp: card_1_singleton_iff)
    moreover have "x \<in> {y. P y} \<inter> set xs" using assms(2,3) by simp
    ultimately show "{y. P y} \<inter> set xs = {x}" by simp
  qed simp
  moreover have "{y. P y} \<inter> set xs = {x} \<longleftrightarrow> (\<forall>y \<in> set xs. y \<noteq> x \<longrightarrow> \<not> P y)" using assms(2,3) by auto
  ultimately show ?thesis by simp
qed

lemma find_in: "find P xs = Some x \<Longrightarrow> x \<in> set xs \<and> P x"
  by (induction xs) (auto split: if_splits)

subsection \<open>Strings\<close>

definition HasPrefix :: "string \<Rightarrow> string \<Rightarrow> bool" where
  "HasPrefix s p \<longleftrightarrow> take (length p) s = p"

text \<open>\<open>Index s sub\<close> is \<^verbatim>\<open>strings.Index\<close>, with \<^const>\<open>None\<close> for \<^verbatim>\<open>-1\<close>.\<close>

fun Index :: "string \<Rightarrow> string \<Rightarrow> nat option" where
  "Index [] sub = (if sub = [] then Some 0 else None)"
| "Index (c # cs) sub =
     (if HasPrefix (c # cs) sub then Some 0 else map_option Suc (Index cs sub))"

definition Contains :: "string \<Rightarrow> string \<Rightarrow> bool" where
  "Contains s sub \<longleftrightarrow> Index s sub \<noteq> None"

definition TrimSuffix :: "string \<Rightarrow> string \<Rightarrow> string" where
  "TrimSuffix s suf =
     (if drop (length s - length suf) s = suf then take (length s - length suf) s else s)"

fun strings_Join :: "string list \<Rightarrow> string \<Rightarrow> string" where
  "strings_Join [] sep = []"
| "strings_Join [x] sep = x"
| "strings_Join (x # xs) sep = x @ sep @ strings_Join xs sep"

definition lower_char :: "char \<Rightarrow> char" where
  "lower_char c = (if 65 \<le> (of_char c :: nat) \<and> (of_char c :: nat) \<le> 90
                   then char_of ((of_char c :: nat) + 32) else c)"

lemma TrimSuffix_cases: "TrimSuffix s p = s \<or> s = TrimSuffix s p @ p"
proof (cases "drop (length s - length p) s = p")
  case True
  have "take (length s - length p) s @ drop (length s - length p) s = s"
    by (rule append_take_drop_id)
  with True show ?thesis by (simp add: TrimSuffix_def)
qed (simp add: TrimSuffix_def)

lemma list_all_TrimSuffix:
  assumes "list_all P (TrimSuffix s p)" and "list_all P p" shows "list_all P s"
  using TrimSuffix_cases [of s p]
proof
  assume "s = TrimSuffix s p @ p"
  moreover have "list_all P (TrimSuffix s p @ p)" using assms by simp
  ultimately show ?thesis by (rule ssubst)
next
  assume "TrimSuffix s p = s"
  with assms(1) show ?thesis by simp
qed

lemma HasPrefix_iff: "HasPrefix s p \<longleftrightarrow> (\<exists>t. s = p @ t)"
  by (auto simp: HasPrefix_def) (metis append_take_drop_id)

lemma HasPrefix_Nil [simp]: "HasPrefix s []"
  by (simp add: HasPrefix_def)

lemma Index_Some_iff_HasPrefix:
  "Index s sub = Some i \<Longrightarrow> i \<le> length s \<and> HasPrefix (drop i s) sub"
proof (induction s sub arbitrary: i rule: Index.induct)
  case (1 sub)
  then show ?case by (auto split: if_splits)
next
  case (2 c cs sub)
  then show ?case by (auto split: if_splits)
qed

lemma Index_None_iff: "Index s sub = None \<longleftrightarrow> (\<forall>i \<le> length s. \<not> HasPrefix (drop i s) sub)"
proof (induction s sub rule: Index.induct)
  case (1 sub)
  then show ?case by (auto simp: HasPrefix_def)
next
  case (2 c cs sub)
  have split: "(\<forall>i \<le> Suc n. P i) \<longleftrightarrow> P 0 \<and> (\<forall>i \<le> n. P (Suc i))" for n and P :: "nat \<Rightarrow> bool"
    by (metis Suc_le_mono le0 not0_implies_Suc)
  show ?case using 2 by (simp add: split)
qed

text \<open>The first occurrence: no earlier position matches.\<close>

lemma Index_least: "Index s sub = Some i \<Longrightarrow> j < i \<Longrightarrow> \<not> HasPrefix (drop j s) sub"
proof (induction s sub arbitrary: i j rule: Index.induct)
  case (1 sub)
  then show ?case by (auto split: if_splits)
next
  case (2 c cs sub)
  then show ?case by (cases j) (auto split: if_splits)
qed

lemma Contains_iff: "Contains s sub \<longleftrightarrow> (\<exists>pre post. s = pre @ sub @ post)"
proof
  assume "Contains s sub"
  then obtain i where "i \<le> length s" "HasPrefix (drop i s) sub"
    by (auto simp: Contains_def dest: Index_Some_iff_HasPrefix)
  then obtain t where "drop i s = sub @ t" by (auto simp: HasPrefix_iff)
  then show "\<exists>pre post. s = pre @ sub @ post" by (metis append_take_drop_id)
next
  assume "\<exists>pre post. s = pre @ sub @ post"
  then obtain pre post where s: "s = pre @ sub @ post" by blast
  then have "length pre \<le> length s \<and> HasPrefix (drop (length pre) s) sub"
    by (auto simp: HasPrefix_iff)
  then show "Contains s sub" unfolding Contains_def using Index_None_iff by blast
qed

subsection \<open>File paths (\<^verbatim>\<open>path/filepath\<close> on Unix)\<close>

fun split_slash :: "string \<Rightarrow> string list" where
  "split_slash [] = [[]]"
| "split_slash (c # cs) =
     (if c = CHR ''/'' then [] # split_slash cs
      else case split_slash cs of [] \<Rightarrow> [[c]] | x # xs \<Rightarrow> (c # x) # xs)"

fun join_slash :: "string list \<Rightarrow> string" where
  "join_slash [] = []"
| "join_slash [x] = x"
| "join_slash (x # xs) = x @ ''/'' @ join_slash xs"

text \<open>One component against the (reversed) components kept so far.\<close>

definition clean_step :: "bool \<Rightarrow> string \<Rightarrow> string list \<Rightarrow> string list" where
  "clean_step rooted x acc =
     (if x = [] \<or> x = ''.'' then acc
      else if x = ''..'' then
        (case acc of
           [] \<Rightarrow> if rooted then [] else [''..'']
         | y # ys \<Rightarrow> if y = ''..'' then ''..'' # acc else ys)
      else x # acc)"

definition Clean :: "string \<Rightarrow> string" where
  "Clean path =
     (let rooted = HasPrefix path ''/'';
          comps = rev (fold (clean_step rooted) (split_slash path) []) in
      if rooted then ''/'' @ join_slash comps
      else if comps = [] then ''.'' else join_slash comps)"

definition Join :: "string \<Rightarrow> string \<Rightarrow> string" where
  "Join dir name =
     (if dir = [] \<and> name = [] then []
      else if dir = [] then Clean name
      else if name = [] then Clean dir
      else Clean (dir @ ''/'' @ name))"

definition Ext :: "string \<Rightarrow> string" where
  "Ext path =
     (let t = takeWhile (\<lambda>c. c \<noteq> CHR ''.'' \<and> c \<noteq> CHR ''/'') (rev path) in
      case drop (length t) (rev path) of
        c # _ \<Rightarrow> if c = CHR ''.'' then c # rev t else []
      | [] \<Rightarrow> [])"

lemma split_slash_ne [simp]: "split_slash s \<noteq> []"
  by (induction s) (auto split: list.splits)

lemma split_slash_no_slash: "CHR ''/'' \<notin> set s \<Longrightarrow> split_slash s = [s]"
  by (induction s) (auto split: list.splits)

lemma split_slash_append:
  "split_slash (s @ ''/'' @ t) = split_slash s @ split_slash t"
  by (induction s) (auto split: list.splits)

lemma join_slash_snoc: "xs \<noteq> [] \<Longrightarrow> join_slash (xs @ [x]) = join_slash xs @ ''/'' @ x"
  by (induction xs rule: join_slash.induct) auto

definition comp_ok :: "string \<Rightarrow> bool" where
  "comp_ok x \<longleftrightarrow> x \<noteq> [] \<and> x \<noteq> ''.'' \<and> CHR ''/'' \<notin> set x"

lemma split_slash_comps: "x \<in> set (split_slash s) \<Longrightarrow> CHR ''/'' \<notin> set x"
  by (induction s arbitrary: x) (auto split: list.splits if_splits)

lemma clean_fold_ok:
  "list_all comp_ok acc \<Longrightarrow> \<forall>x \<in> set xs. CHR ''/'' \<notin> set x \<Longrightarrow>
   list_all comp_ok (fold (clean_step r) xs acc)"
  by (induction xs arbitrary: acc) (auto simp: clean_step_def comp_ok_def split: list.splits)

lemma join_slash_ok: "cs \<noteq> [] \<Longrightarrow> list_all comp_ok cs \<Longrightarrow> join_slash cs \<notin> {[], ''.'', ''/''}"
  by (cases cs rule: join_slash.cases) (auto simp: comp_ok_def append_eq_Cons_conv)

definition plain_name :: "string \<Rightarrow> bool" where
  "plain_name n \<longleftrightarrow> n \<noteq> [] \<and> n \<noteq> ''.'' \<and> n \<noteq> ''..'' \<and> CHR ''/'' \<notin> set n"

text \<open>
  Joining a plain file name onto a directory gives an entry of exactly that directory: the
  cleaned directory, one separator and the unchanged name.
\<close>

lemma Join_plain:
  assumes "plain_name n" and "d \<noteq> []"
  shows "Join d n = (if Clean d = ''/'' then ''/'' @ n
                     else if Clean d = ''.'' then n else Clean d @ ''/'' @ n)"
proof -
  have root: "HasPrefix (d @ ''/'' @ n) ''/'' = HasPrefix d ''/''"
    using assms(2) by (cases d) (auto simp: HasPrefix_def)
  define cs where "cs = rev (fold (clean_step (HasPrefix d ''/'')) (split_slash d) [])"
  have "Join d n = Clean (d @ ''/'' @ n)"
    using assms by (simp add: Join_def plain_name_def)
  also have "\<dots> = (if HasPrefix d ''/'' then ''/'' @ join_slash (cs @ [n]) else join_slash (cs @ [n]))"
    using assms(1) split_slash_no_slash [of n]
    by (simp add: Clean_def Let_def root [simplified] split_slash_append [simplified] cs_def plain_name_def
        clean_step_def)
  finally have J: "Join d n = \<dots>" .
  have C: "Clean d = (if HasPrefix d ''/'' then ''/'' @ join_slash cs
             else if cs = [] then ''.'' else join_slash cs)"
    by (simp add: Clean_def Let_def cs_def)
  show ?thesis
  proof (cases "cs = []")
    case False
    moreover have "list_all comp_ok cs"
      using clean_fold_ok [of "[]" "split_slash d" "HasPrefix d ''/''"] split_slash_comps [of _ d]
      by (simp add: cs_def list_all_iff)
    ultimately have "join_slash cs \<notin> {[], ''.'', ''/''}" by (rule join_slash_ok)
    then show ?thesis using False J C by (auto simp: join_slash_snoc)
  qed (use J C in auto)
qed

subsection \<open>Maps that are ranged over\<close>

type_synonym 'v gomap = "(string \<times> 'v) list"

definition wf_gomap :: "'v gomap \<Rightarrow> bool" where
  "wf_gomap m \<longleftrightarrow> distinct (map fst m)"

lemma wf_gomap_Nil [wf_intros, simp]: "wf_gomap []"
  by (simp add: wf_gomap_def)

text \<open>Assignment to a Go map held as an association list.\<close>

fun gomap_put :: "string \<Rightarrow> 'v \<Rightarrow> 'v gomap \<Rightarrow> 'v gomap" where
  "gomap_put k v [] = [(k, v)]"
| "gomap_put k v ((k', v') # m) = (if k = k' then (k, v) # m else (k', v') # gomap_put k v m)"

lemma map_of_gomap_put: "map_of (gomap_put k v m) = (map_of m)(k \<mapsto> v)"
  by (induction k v m rule: gomap_put.induct) auto

lemma gomap_put_keys: "set (map fst (gomap_put k v m)) = insert k (set (map fst m))"
  by (induction k v m rule: gomap_put.induct) auto

lemma gomap_put_new: "k \<notin> fst ` set m \<Longrightarrow> gomap_put k v m = m @ [(k, v)]"
  by (induction k v m rule: gomap_put.induct) auto

lemma gomap_put_wf [wf_intros]: "wf_gomap m \<Longrightarrow> wf_gomap (gomap_put k v m)"
proof (induction k v m rule: gomap_put.induct)
  case (2 k v k' v' m)
  then show ?case using gomap_put_keys [of k v m] by (auto simp: wf_gomap_def)
qed (simp add: wf_gomap_def)

text \<open>Two association lists for the same map hold the same keys.\<close>

lemma map_of_eq_imp_set_keys: "map_of m = map_of m' \<Longrightarrow> set (map fst m) = set (map fst m')"
  by (metis dom_map_of_conv_image_fst image_set)

lemma sort_keys_eq:
  assumes "wf_gomap m" and "wf_gomap m'" and "map_of m = map_of m'"
  shows "sort (map fst m) = sort (map fst m')"
proof (rule sorted_distinct_set_unique)
  show "set (sort (map fst m)) = set (sort (map fst m'))"
    using map_of_eq_imp_set_keys [OF assms(3)] by simp
qed (use assms(1,2) in \<open>simp_all add: wf_gomap_def\<close>)

lemma list_all_mem: "list_all P xs \<Longrightarrow> x \<in> set xs \<Longrightarrow> P x"
  by (simp add: list_all_iff)

end
