(* ===== verification/Sha256.thy ===== *)
theory Sha256
  imports Prelude
begin

text \<open>
  \<^verbatim>\<open>crypto/sha256\<close> and \<^verbatim>\<open>encoding/hex\<close>, as \<^verbatim>\<open>RequestFingerprint\<close> and the download handler use
  them: the digest of a byte string (FIPS 180-4) over 32-bit words, printed in lower-case
  hexadecimal. Nothing is assumed about the hash: the fingerprint theorems are about the bytes
  that are hashed, and produce a concrete pair of colliding inputs where they need to speak
  about equal digests.
\<close>

type_synonym w32 = "32 word"

text \<open>The constants of FIPS 180-4, in decimal: the first 32 bits of the fractional parts of the square
  roots of the first eight primes, and of the cube roots of the first 64 primes.\<close>

definition sha_H :: "w32 list" where
  "sha_H =
    [1779033703, 3144134277, 1013904242, 2773480762, 1359893119, 2600822924, 528734635, 1541459225]"

definition sha_K :: "w32 list" where
  "sha_K =
    [1116352408, 1899447441, 3049323471, 3921009573, 961987163, 1508970993, 2453635748, 2870763221,
     3624381080, 310598401, 607225278, 1426881987, 1925078388, 2162078206, 2614888103, 3248222580,
     3835390401, 4022224774, 264347078, 604807628, 770255983, 1249150122, 1555081692, 1996064986,
     2554220882, 2821834349, 2952996808, 3210313671, 3336571891, 3584528711, 113926993, 338241895,
     666307205, 773529912, 1294757372, 1396182291, 1695183700, 1986661051, 2177026350, 2456956037,
     2730485921, 2820302411, 3259730800, 3345764771, 3516065817, 3600352804, 4094571909, 275423344,
     430227734, 506948616, 659060556, 883997877, 958139571, 1322822218, 1537002063, 1747873779,
     1955562222, 2024104815, 2227730452, 2361852424, 2428436474, 2756734187, 3204031479, 3329325298]"

definition sig0 :: "w32 \<Rightarrow> w32" where
  "sig0 x = xor (xor (word_rotr 7 x) (word_rotr 18 x)) (drop_bit 3 x)"

definition sig1 :: "w32 \<Rightarrow> w32" where
  "sig1 x = xor (xor (word_rotr 17 x) (word_rotr 19 x)) (drop_bit 10 x)"

definition Sig0 :: "w32 \<Rightarrow> w32" where
  "Sig0 x = xor (xor (word_rotr 2 x) (word_rotr 13 x)) (word_rotr 22 x)"

definition Sig1 :: "w32 \<Rightarrow> w32" where
  "Sig1 x = xor (xor (word_rotr 6 x) (word_rotr 11 x)) (word_rotr 25 x)"

definition Ch :: "w32 \<Rightarrow> w32 \<Rightarrow> w32 \<Rightarrow> w32" where
  "Ch x y z = xor (and x y) (and (not x) z)"

definition Maj :: "w32 \<Rightarrow> w32 \<Rightarrow> w32 \<Rightarrow> w32" where
  "Maj x y z = xor (xor (and x y) (and x z)) (and y z)"

text \<open>The message schedule, newest word first.\<close>

fun schedule :: "nat \<Rightarrow> w32 list \<Rightarrow> w32 list" where
  "schedule 0 ws = ws"
| "schedule (Suc n) ws = schedule n ((sig1 (ws ! 1) + ws ! 6 + sig0 (ws ! 14) + ws ! 15) # ws)"

fun sha_rounds :: "(w32 \<times> w32) list \<Rightarrow> w32 list \<Rightarrow> w32 list" where
  "sha_rounds [] st = st"
| "sha_rounds ((k, w) # kws) [a, b, c, d, e, f, g, h] =
     (let t1 = h + Sig1 e + Ch e f g + k + w; t2 = Sig0 a + Maj a b c in
      sha_rounds kws [t1 + t2, a, b, c, d + t1, e, f, g])"
| "sha_rounds kws st = st"

definition sha_block :: "w32 list \<Rightarrow> w32 list \<Rightarrow> w32 list" where
  "sha_block st ws = map2 (+) st (sha_rounds (zip sha_K (rev (schedule 48 (rev ws)))) st)"

text \<open>Bytes are integers from 0 to 255.\<close>

fun be_words :: "int list \<Rightarrow> w32 list" where
  "be_words (a # b # c # d # bs) = word_of_int (((a * 256 + b) * 256 + c) * 256 + d) # be_words bs"
| "be_words _ = []"

fun be_bytes :: "nat \<Rightarrow> int \<Rightarrow> int list" where
  "be_bytes 0 x = []"
| "be_bytes (Suc n) x = be_bytes n (x div 256) @ [x mod 256]"

definition sha_pad :: "int list \<Rightarrow> int list" where
  "sha_pad m = m @ [0x80] @ replicate ((119 - length m mod 64) mod 64) 0 @ be_bytes 8 (8 * int (length m) mod 2 ^ 64)"

fun sha_blocks :: "nat \<Rightarrow> w32 list \<Rightarrow> w32 list \<Rightarrow> w32 list" where
  "sha_blocks 0 st ws = st"
| "sha_blocks (Suc n) st ws = sha_blocks n (sha_block st (take 16 ws)) (drop 16 ws)"

definition Sum256 :: "string \<Rightarrow> int list" where
  "Sum256 s =
     (let ws = be_words (sha_pad (map of_char s)) in
      concat (map (\<lambda>w. be_bytes 4 (uint w)) (sha_blocks (length ws div 16) sha_H ws)))"

definition hex_digit :: "int \<Rightarrow> char" where
  "hex_digit n = (if n < 10 then char_of (48 + nat n) else char_of (87 + nat n))"

definition EncodeToString :: "int list \<Rightarrow> string" where
  "EncodeToString bs = concat (map (\<lambda>b. [hex_digit (b div 16), hex_digit (b mod 16)]) bs)"

subsection \<open>Shape of the digest\<close>

lemma length_sha_rounds: "length (sha_rounds kws st) = length st"
  by (induction kws st rule: sha_rounds.induct) (auto simp: Let_def)

lemma length_schedule: "length (schedule n ws) = n + length ws"
  by (induction n ws rule: schedule.induct) auto

lemma length_sha_blocks: "length (sha_blocks n st ws) = length st"
  by (induction n st ws rule: sha_blocks.induct) (simp_all add: sha_block_def length_sha_rounds)

lemma length_be_bytes [simp]: "length (be_bytes n x) = n"
  by (induction n arbitrary: x) auto

lemma be_bytes_range: "b \<in> set (be_bytes n x) \<Longrightarrow> 0 \<le> b \<and> b < 256"
  by (induction n arbitrary: x) auto

lemma Sum256_range: "b \<in> set (Sum256 s) \<Longrightarrow> 0 \<le> b \<and> b < 256"
  by (auto simp: Sum256_def Let_def dest: be_bytes_range)

lemma length_concat_const: "(\<And>x. length (f x) = k) \<Longrightarrow> length (concat (map f xs)) = k * length xs"
  by (induction xs) auto

lemma length_Sum256: "length (Sum256 s) = 32"
  by (simp add: Sum256_def Let_def length_concat_const [where k = 4] length_sha_blocks sha_H_def)

definition byte :: "int \<Rightarrow> bool" where "byte b \<longleftrightarrow> 0 \<le> b \<and> b < 256"

lemma of_char_hex_digit:
  "0 \<le> k \<Longrightarrow> k < 16 \<Longrightarrow> (of_char (hex_digit k) :: nat) = (if k < 10 then 48 + nat k else 87 + nat k)"
  by (simp add: hex_digit_def)

lemma hex_digit_inj:
  assumes "0 \<le> m" "m < 16" "0 \<le> n" "n < 16" "hex_digit m = hex_digit n"
  shows "m = n"
proof -
  have "(of_char (hex_digit m) :: nat) = of_char (hex_digit n)" by (simp only: assms(5))
  then have "(if m < 10 then 48 + nat m else 87 + nat m) = (if n < 10 then 48 + nat n else 87 + nat n)"
    unfolding of_char_hex_digit [OF assms(1,2)] of_char_hex_digit [OF assms(3,4)] .
  then show ?thesis using assms(1-4) by (auto split: if_splits)
qed

lemma EncodeToString_inj:
  "list_all byte xs \<Longrightarrow> list_all byte ys \<Longrightarrow> EncodeToString xs = EncodeToString ys \<Longrightarrow> xs = ys"
proof (induction xs arbitrary: ys)
  case Nil
  then show ?case by (cases ys) (auto simp: EncodeToString_def)
next
  case (Cons x xs)
  then obtain y ys' where ys: "ys = y # ys'" by (cases ys) (auto simp: EncodeToString_def)
  have eq: "hex_digit (x div 16) = hex_digit (y div 16)" "hex_digit (x mod 16) = hex_digit (y mod 16)"
    "EncodeToString xs = EncodeToString ys'"
    using Cons.prems(3) by (simp_all add: ys EncodeToString_def)
  have "x div 16 = y div 16" "x mod 16 = y mod 16"
    using Cons.prems(1,2) eq(1,2) by (auto simp: ys byte_def intro!: hex_digit_inj)
  then have "x = y" by (metis div_mult_mod_eq)
  with Cons.IH [of ys'] Cons.prems eq(3) ys show ?case by simp
qed

lemma Sum256_hex_inj: "EncodeToString (Sum256 s) = EncodeToString (Sum256 t) \<Longrightarrow> Sum256 s = Sum256 t"
  by (rule EncodeToString_inj) (auto simp: list_all_iff byte_def dest: Sum256_range)

lemma length_EncodeToString: "length (EncodeToString bs) = 2 * length bs"
  by (simp add: EncodeToString_def length_concat_const [where k = 2])

end
