(* ===== verification/Approval_Hash.thy ===== *)
theory Approval_Hash
  imports Sha256 "HOL-Library.Multiset"
begin

text \<open>
  \<^verbatim>\<open>internal/approval\<close>, first half (approval.go, hash.go): requests and decisions, and the
  fingerprint that ties an approval to one concrete operation. \<open>fingerprint_preimage\<close> is the
  byte string the handler hashes; \<open>preimage_eq_iff\<close> proves the length-prefixed encoding
  injective: two requests have the same preimage exactly when every target field agrees,
  parameters as maps and client ids up to order.

  Times are integers: nanoseconds since the Unix epoch.
\<close>

subsection \<open>Requests and decisions (approval.go)\<close>

type_synonym Operation = string

definition OperationCollectArtifact :: Operation where
  "OperationCollectArtifact = ''collect_artifact''"
definition OperationCollectDFIRProfile :: Operation where
  "OperationCollectDFIRProfile = ''collect_dfir_profile''"
definition OperationStartHunt :: Operation where
  "OperationStartHunt = ''start_hunt''"
definition OperationStartDFIRHunt :: Operation where
  "OperationStartDFIRHunt = ''start_dfir_hunt''"
definition OperationCancelFlow :: Operation where
  "OperationCancelFlow = ''cancel_flow''"
definition OperationCancelHunt :: Operation where
  "OperationCancelHunt = ''cancel_hunt''"
definition OperationDownloadFlowUpload :: Operation where
  "OperationDownloadFlowUpload = ''download_flow_upload''"
definition OperationHuntIOC :: Operation where
  "OperationHuntIOC = ''hunt_ioc''"

lemmas operation_defs = OperationCollectArtifact_def OperationCollectDFIRProfile_def
  OperationStartHunt_def OperationStartDFIRHunt_def OperationCancelFlow_def
  OperationCancelHunt_def OperationDownloadFlowUpload_def OperationHuntIOC_def

type_synonym time = int

text \<open>The zero \<^verbatim>\<open>time.Time\<close>, January 1 of year 1.\<close>

definition zero_time :: time where
  "zero_time = - 62135596800 * 10 ^ 9"

record Request =
  rq_ID :: string
  rq_Operation :: Operation
  rq_CaseID :: string
  rq_Reason :: string
  rq_Requester :: string
  rq_ClientID :: string
  rq_Artifact :: string
  rq_Parameters :: "string gomap"
  rq_Profile :: string
  rq_HuntID :: string
  rq_FlowID :: string
  rq_UploadName :: string
  rq_ClientIDs :: "string list"
  rq_Label :: string
  rq_TargetAll :: bool
  rq_CreatedAt :: time

definition zeroRequest :: Request where
  "zeroRequest = \<lparr>rq_ID = [], rq_Operation = [], rq_CaseID = [], rq_Reason = [], rq_Requester = [],
     rq_ClientID = [], rq_Artifact = [], rq_Parameters = [], rq_Profile = [], rq_HuntID = [],
     rq_FlowID = [], rq_UploadName = [], rq_ClientIDs = [], rq_Label = [], rq_TargetAll = False,
     rq_CreatedAt = zero_time\<rparr>"

record Decision =
  dc_RequestID :: string
  dc_Approved :: bool
  dc_ApprovedBy :: string
  dc_DecidedAt :: time
  dc_Note :: string

subsection \<open>Fingerprint (hash.go)\<close>

definition writeField :: "string \<Rightarrow> string \<Rightarrow> string" where
  "writeField name value = name @ '':'' @ Itoa (length value) @ '':'' @ value @ '';''"

definition FormatBool :: "bool \<Rightarrow> string" where
  "FormatBool b = (if b then ''true'' else ''false'')"

text \<open>Indexing a Go map: the zero value when the key is absent.\<close>

definition gomap_get :: "string gomap \<Rightarrow> string \<Rightarrow> string" where
  "gomap_get m k = (case map_of m k of Some v \<Rightarrow> v | None \<Rightarrow> [])"

definition enc_params :: "string list \<Rightarrow> string gomap \<Rightarrow> string" where
  "enc_params keys m =
     concat (map (\<lambda>k. writeField ''paramkey'' k @ writeField ''paramvalue'' (gomap_get m k)) keys)"

definition enc_clients :: "string list \<Rightarrow> string" where
  "enc_clients ids = concat (map (writeField ''clientid'') ids)"

text \<open>Everything \<^verbatim>\<open>RequestFingerprint\<close> writes into the hash, in order.\<close>

definition fingerprint_preimage :: "Request \<Rightarrow> string" where
  "fingerprint_preimage req =
     (let keys = sort (map fst (rq_Parameters req)); clientIDs = sort (rq_ClientIDs req) in
      writeField ''op'' (rq_Operation req)
      @ writeField ''case'' (rq_CaseID req)
      @ writeField ''client'' (rq_ClientID req)
      @ writeField ''artifact'' (rq_Artifact req)
      @ writeField ''profile'' (rq_Profile req)
      @ writeField ''hunt'' (rq_HuntID req)
      @ writeField ''flow'' (rq_FlowID req)
      @ writeField ''upload'' (rq_UploadName req)
      @ writeField ''label'' (rq_Label req)
      @ writeField ''all'' (FormatBool (rq_TargetAll req))
      @ writeField ''paramcount'' (Itoa (length keys))
      @ enc_params keys (rq_Parameters req)
      @ writeField ''clientidcount'' (Itoa (length clientIDs))
      @ enc_clients clientIDs)"

definition RequestFingerprint :: "Request \<Rightarrow> string" where
  "RequestFingerprint req = EncodeToString (Sum256 (fingerprint_preimage req))"

subsection \<open>The encoding is injective\<close>

lemma digits_prefix_eq:
  assumes "list_all is_digit xs" "list_all is_digit ys" "\<not> is_digit c"
    and "xs @ c # r = ys @ c # r'"
  shows "xs = ys \<and> r = r'"
proof -
  have tw: "takeWhile is_digit (zs @ c # q) = zs" if "list_all is_digit zs" for zs q
    using that assms(3) by (simp add: list_all_iff takeWhile_append2)
  have "xs = ys" using tw [OF assms(1), of r] tw [OF assms(2), of r'] assms(4) by simp
  with assms(4) show ?thesis by simp
qed

text \<open>The length prefix decides where the value ends, whatever bytes it holds.\<close>

lemma writeField_cancel:
  assumes "writeField n v @ r = writeField n v' @ r'"
  shows "v = v' \<and> r = r'"
proof -
  have nd: "\<not> is_digit (CHR '':'')" by (simp add: is_digit_def)
  have eq: "Itoa (length v) @ CHR '':'' # v @ CHR '';'' # r = Itoa (length v') @ CHR '':'' # v' @ CHR '';'' # r'"
    using assms by (simp add: writeField_def)
  from digits_prefix_eq [OF _ _ nd eq] Itoa_digits
  have "Itoa (length v) = Itoa (length v')" and rest: "v @ CHR '';'' # r = v' @ CHR '';'' # r'"
    by (auto simp: list_all_iff)
  then show ?thesis by simp
qed

lemma writeField_eq_iff [simp]:
  "writeField n v @ r = writeField n v' @ r' \<longleftrightarrow> v = v' \<and> r = r'"
  using writeField_cancel by blast

lemma enc_params_simps:
  "enc_params [] m = []"
  "enc_params (k # ks) m =
     writeField ''paramkey'' k @ writeField ''paramvalue'' (gomap_get m k) @ enc_params ks m"
  by (simp_all add: enc_params_def)

lemma enc_clients_simps:
  "enc_clients [] = []" "enc_clients (i # is) = writeField ''clientid'' i @ enc_clients is"
  by (simp_all add: enc_clients_def)

lemma enc_params_cancel:
  "length ks = length ks' \<Longrightarrow> enc_params ks m @ r = enc_params ks' m' @ r' \<Longrightarrow>
   ks = ks' \<and> (\<forall>k \<in> set ks. gomap_get m k = gomap_get m' k) \<and> r = r'"
proof (induction ks ks' rule: list_induct2)
  case (Cons k ks k' ks')
  note eq = Cons.prems [unfolded enc_params_simps append_assoc writeField_eq_iff]
  have "ks = ks' \<and> (\<forall>k \<in> set ks. gomap_get m k = gomap_get m' k) \<and> r = r'"
    by (rule Cons.IH) (use eq in blast)
  with eq show ?case by auto
qed (simp add: enc_params_simps)

lemma enc_clients_cancel:
  "length is = length js \<Longrightarrow> enc_clients is = enc_clients js \<Longrightarrow> is = js"
  by (induction "is" js rule: list_induct2) (simp_all add: enc_clients_simps)

lemma FormatBool_eq_iff [simp]: "FormatBool a = FormatBool b \<longleftrightarrow> a = b"
  by (simp add: FormatBool_def)

text \<open>Two requests that describe the same operation on the same targets.\<close>

definition same_target :: "Request \<Rightarrow> Request \<Rightarrow> bool" where
  "same_target a b \<longleftrightarrow>
     rq_Operation a = rq_Operation b \<and> rq_CaseID a = rq_CaseID b \<and> rq_ClientID a = rq_ClientID b
     \<and> rq_Artifact a = rq_Artifact b \<and> rq_Profile a = rq_Profile b \<and> rq_HuntID a = rq_HuntID b
     \<and> rq_FlowID a = rq_FlowID b \<and> rq_UploadName a = rq_UploadName b \<and> rq_Label a = rq_Label b
     \<and> rq_TargetAll a = rq_TargetAll b \<and> map_of (rq_Parameters a) = map_of (rq_Parameters b)
     \<and> mset (rq_ClientIDs a) = mset (rq_ClientIDs b)"

lemma gomap_get_inject:
  assumes "sort (map fst m) = sort (map fst m')"
    and "\<forall>k \<in> set (map fst m). gomap_get m k = gomap_get m' k"
  shows "map_of m = map_of m'"
proof
  fix k
  have keys: "set (map fst m) = set (map fst m')" using assms(1) by (metis set_sort)
  show "map_of m k = map_of m' k"
  proof (cases "k \<in> set (map fst m)")
    case True
    then obtain v v' where "map_of m k = Some v" "map_of m' k = Some v'"
      using keys by (metis image_set map_of_eq_None_iff option.exhaust)
    with assms(2) True show ?thesis by (auto simp: gomap_get_def)
  next
    case False
    then show ?thesis using keys by (metis image_set map_of_eq_None_iff)
  qed
qed

lemma preimage_eq_imp:
  assumes "fingerprint_preimage a = fingerprint_preimage b" shows "same_target a b"
proof -
  let ?ka = "sort (map fst (rq_Parameters a))" and ?kb = "sort (map fst (rq_Parameters b))"
  let ?ca = "sort (rq_ClientIDs a)" and ?cb = "sort (rq_ClientIDs b)"
  note eq = assms [unfolded fingerprint_preimage_def Let_def writeField_eq_iff Itoa_eq_iff FormatBool_eq_iff]
  have len: "length ?ka = length ?kb" using eq by blast
  have par: "?ka = ?kb \<and> (\<forall>k \<in> set ?ka. gomap_get (rq_Parameters a) k = gomap_get (rq_Parameters b) k)
    \<and> writeField ''clientidcount'' (Itoa (length ?ca)) @ enc_clients ?ca
      = writeField ''clientidcount'' (Itoa (length ?cb)) @ enc_clients ?cb"
    by (rule enc_params_cancel [OF len]) (use eq in blast)
  have "?ca = ?cb" using par enc_clients_cancel [of ?ca ?cb] by simp
  then have "mset (rq_ClientIDs a) = mset (rq_ClientIDs b)" by (metis mset_sort)
  moreover have "map_of (rq_Parameters a) = map_of (rq_Parameters b)"
    using par by (intro gomap_get_inject) auto
  ultimately show ?thesis using eq unfolding same_target_def by blast
qed

lemma same_target_imp:
  assumes "wf_gomap (rq_Parameters a)" "wf_gomap (rq_Parameters b)" "same_target a b"
  shows "fingerprint_preimage a = fingerprint_preimage b"
proof -
  have "sort (map fst (rq_Parameters a)) = sort (map fst (rq_Parameters b))"
    using assms(3) by (intro sort_keys_eq assms(1,2)) (simp add: same_target_def)
  moreover have "sort (rq_ClientIDs a) = sort (rq_ClientIDs b)"
    using assms(3) by (simp add: same_target_def properties_for_sort)
  moreover have "gomap_get (rq_Parameters a) = gomap_get (rq_Parameters b)"
    using assms(3) by (simp add: same_target_def gomap_get_def fun_eq_iff)
  ultimately show ?thesis
    using assms(3) by (simp add: fingerprint_preimage_def same_target_def enc_params_def)
qed

lemma preimage_eq_iff:
  "wf_gomap (rq_Parameters a) \<Longrightarrow> wf_gomap (rq_Parameters b) \<Longrightarrow>
   fingerprint_preimage a = fingerprint_preimage b \<longleftrightarrow> same_target a b"
  using preimage_eq_imp same_target_imp by blast

lemma same_target_refl [simp]: "same_target a a"
  by (simp add: same_target_def)

lemma same_target_sym: "same_target a b \<Longrightarrow> same_target b a"
  by (simp add: same_target_def)

lemma same_target_trans: "same_target a b \<Longrightarrow> same_target b c \<Longrightarrow> same_target a c"
  by (simp add: same_target_def)

text \<open>
  \<open>collision s t\<close> is a SHA-256 collision: two different byte strings with one digest.
\<close>

definition collision :: "string \<Rightarrow> string \<Rightarrow> bool" where
  "collision s t \<longleftrightarrow> s \<noteq> t \<and> Sum256 s = Sum256 t"

lemma fingerprint_eq_cases:
  assumes "RequestFingerprint a = RequestFingerprint b"
  shows "same_target a b \<or> collision (fingerprint_preimage a) (fingerprint_preimage b)"
  using assms Sum256_hex_inj preimage_eq_imp unfolding RequestFingerprint_def collision_def by blast

text \<open>
  Property C4 (equivalence). An approval fingerprint matches a request exactly when the two
  requests agree on operation, case and every target field, parameters compared as maps and
  hunt client ids up to order, or when their encodings form an explicit SHA-256 collision.
  No choice of field contents (separators, digits, newlines) can make two different targets
  encode alike.
\<close>

theorem fingerprint_binds_target:
  assumes "wf_gomap (rq_Parameters a)" and "wf_gomap (rq_Parameters b)"
  shows "RequestFingerprint a = RequestFingerprint b \<longleftrightarrow>
     same_target a b \<or> collision (fingerprint_preimage a) (fingerprint_preimage b)"
  using fingerprint_eq_cases same_target_imp [OF assms]
  unfolding RequestFingerprint_def collision_def by metis

theorem fingerprint_binds_target_witness:
  "RequestFingerprint (zeroRequest\<lparr>rq_ClientIDs := [''C.2'', ''C.1''], rq_Parameters := [(''k'', ''v'')]\<rparr>)
   = RequestFingerprint (zeroRequest\<lparr>rq_ClientIDs := [''C.1'', ''C.2''], rq_Parameters := [(''k'', ''v'')]\<rparr>)"
  by (subst fingerprint_binds_target)
     (simp_all add: wf_gomap_def same_target_def zeroRequest_def)

end
