(* ===== verification/Approval_Store.thy ===== *)
theory Approval_Store
  imports Approval_Hash
begin

text \<open>
  \<^verbatim>\<open>internal/approval\<close>, second half (store.go, filestore.go): the file-backed store of
  approvals. The store file is a value (\<open>store_file\<close>: its permission bits and its decoded
  contents; JSON text is not modelled). Every operating-system call an operation makes takes
  the next tick of the state, and \<open>se_fail\<close> of the environment says whether it fails, so a
  theorem for every environment covers every pattern of failures of locking, stat, read,
  write, chmod, sync, close and rename.

  Each exported operation is one critical section under the mutex and the file lock, hence one
  atomic transition of the file; \<open>approval_store\<close> states what the \<^verbatim>\<open>Store\<close> interface promises of
  these transitions and derives its consequences for any sequence of operations, and the
  interpretation \<open>fstore\<close> proves that \<^verbatim>\<open>FileStore\<close> keeps the promise.
\<close>

subsection \<open>Data (store.go, filestore.go)\<close>

record approval_record =
  rc_Request :: Request
  rc_Decision :: "Decision option"
  rc_Consumed :: bool

record ApprovalStatus =
  st_Request :: Request
  st_Decision :: "Decision option"
  st_Consumed :: bool
  st_Expired :: bool

type_synonym records = "string \<rightharpoonup> approval_record"

datatype store_content = EmptyFile | BadJSON gerror | Recs records

record store_file =
  sf_perm :: nat
  sf_content :: store_content

record store_state =
  ss_tick :: nat
  ss_file :: "store_file option"

record store_env =
  se_windows :: bool
  se_fail :: "nat \<Rightarrow> gerror option"
  se_now :: "nat \<Rightarrow> time"

record FileStore =
  fst_path :: string
  fst_ttl :: int

subsection \<open>Operating-system calls\<close>

definition io_step :: "store_env \<Rightarrow> store_state \<Rightarrow> store_state \<times> gerror option" where
  "io_step env s = (s\<lparr>ss_tick := Suc (ss_tick s)\<rparr>, se_fail env (ss_tick s))"

text \<open>A sequence of fallible calls, each with the context its error is wrapped in.\<close>

fun io_steps :: "store_env \<Rightarrow> string list \<Rightarrow> store_state \<Rightarrow> store_state \<times> gerror option" where
  "io_steps env [] s = (s, None)"
| "io_steps env (what # rest) s =
     (case io_step env s of
        (s', Some e) \<Rightarrow> (s', Some (Errorf [Lit what, Wrap e]))
      | (s', None) \<Rightarrow> io_steps env rest s')"

text \<open>\<^verbatim>\<open>time.Since\<close> saturates at the bounds of \<^verbatim>\<open>time.Duration\<close>.\<close>

definition Since :: "time \<Rightarrow> time \<Rightarrow> int" where
  "Since now t = max minInt64 (min maxInt64 (now - t))"

text \<open>Permission bits: \<^verbatim>\<open>0o077\<close> is \<^verbatim>\<open>0x3F\<close>, \<^verbatim>\<open>0o600\<close> is \<^verbatim>\<open>0x180\<close>; \<open>oct4\<close> is \<^verbatim>\<open>%04o\<close> of a nine-bit mode.\<close>

abbreviation "mode0600 \<equiv> (0x180 :: nat)"

definition oct4 :: "nat \<Rightarrow> string" where
  "oct4 n = map digit_char [n div 512 mod 8, n div 64 mod 8, n div 8 mod 8, n mod 8]"

definition perm_too_open :: "nat \<Rightarrow> bool" where
  "perm_too_open perm \<longleftrightarrow> and perm 0x3F \<noteq> 0"

subsection \<open>FileStore internals\<close>

definition checkFilePermissionsLocked :: "store_env \<Rightarrow> FileStore \<Rightarrow> store_state \<Rightarrow> store_state \<times> gerror option" where
  "checkFilePermissionsLocked env fs s =
     (if se_windows env then (s, None)
      else case io_step env s of
        (s', Some e) \<Rightarrow> (s', Some (Errorf [Lit ''approval: stat store: '', Wrap e]))
      | (s', None) \<Rightarrow>
          (case ss_file s' of
             None \<Rightarrow> (s', Some (Errorf [Lit ''approval: stat store: '', Wrap (errorf ''file does not exist'')]))
           | Some f \<Rightarrow>
               if perm_too_open (sf_perm f)
               then (s', Some (errorf (''approval: store '' @ fst_path fs @ '': file mode '' @ oct4 (sf_perm f) @ '' is too permissive (must be 0600 or stricter, e.g. chmod 0600)'')))
               else (s', None)))"

definition load :: "store_env \<Rightarrow> store_state \<Rightarrow> store_state \<times> (gerror + records)" where
  "load env s =
     (case io_step env s of
        (s', Some e) \<Rightarrow> (s', Inl (Errorf [Lit ''approval: read store: '', Wrap e]))
      | (s', None) \<Rightarrow>
          (case ss_file s' of
             None \<Rightarrow> (s', Inr Map.empty)
           | Some f \<Rightarrow>
               (case sf_content f of
                  EmptyFile \<Rightarrow> (s', Inr Map.empty)
                | BadJSON e \<Rightarrow> (s', Inl (Errorf [Lit ''approval: parse store: '', Wrap e]))
                | Recs m \<Rightarrow> (s', Inr m))))"

definition save_calls :: "string list" where
  "save_calls = [''approval: encode store: '', ''approval: create temp store file: '',
     ''approval: write store: '', ''approval: chmod store: '', ''approval: sync store: '',
     ''approval: close store: '', ''approval: rename store: '']"

text \<open>
  The new contents reach the store file only by the final rename, whole and with mode 0600; any
  earlier failure leaves the file as it was.
\<close>

definition save :: "store_env \<Rightarrow> records \<Rightarrow> store_state \<Rightarrow> store_state \<times> gerror option" where
  "save env m s =
     (case io_steps env save_calls s of
        (s', Some e) \<Rightarrow> (s', Some e)
      | (s', None) \<Rightarrow> (s'\<lparr>ss_file := Some \<lparr>sf_perm = mode0600, sf_content = Recs m\<rparr>\<rparr>, None))"

definition withLock ::
  "store_env \<Rightarrow> FileStore \<Rightarrow> (records \<Rightarrow> store_state \<Rightarrow> store_state \<times> (gerror + 'a)) \<Rightarrow> store_state \<Rightarrow> store_state \<times> (gerror + 'a)" where
  "withLock env fs fn s =
     (case io_step env s of
        (s1, Some e) \<Rightarrow> (s1, Inl (Errorf [Lit ''approval: acquire store lock: '', Wrap e]))
      | (s1, None) \<Rightarrow>
     (case checkFilePermissionsLocked env fs s1 of
        (s2, Some e) \<Rightarrow> (s2, Inl e)
      | (s2, None) \<Rightarrow>
     (case load env s2 of
        (s3, Inl e) \<Rightarrow> (s3, Inl e)
      | (s3, Inr m) \<Rightarrow> fn m s3)))"

subsection \<open>Construction\<close>

text \<open>\<^verbatim>\<open>os.Stat\<close> with its three outcomes: another error, no such file, or the file.\<close>

datatype stat_result = StatErr gerror | StatNotExist | StatOk store_file

definition os_Stat :: "store_env \<Rightarrow> store_state \<Rightarrow> store_state \<times> stat_result" where
  "os_Stat env s =
     (case io_step env s of
        (s', Some e) \<Rightarrow> (s', StatErr e)
      | (s', None) \<Rightarrow> (s', case ss_file s' of None \<Rightarrow> StatNotExist | Some f \<Rightarrow> StatOk f))"

text \<open>\<^verbatim>\<open>os.WriteFile(path, "\{\}", 0o600)\<close>: an existing file keeps its mode.\<close>

definition write_empty :: "store_env \<Rightarrow> string \<Rightarrow> store_state \<Rightarrow> store_state \<times> gerror option" where
  "write_empty env what s =
     (case io_steps env [what] s of
        (s', Some e) \<Rightarrow> (s', Some e)
      | (s', None) \<Rightarrow>
          (s'\<lparr>ss_file := Some \<lparr>sf_perm = (case ss_file s' of None \<Rightarrow> mode0600 | Some f \<Rightarrow> sf_perm f),
                               sf_content = Recs Map.empty\<rparr>\<rparr>, None))"

definition NewFileStore_init :: "store_env \<Rightarrow> FileStore \<Rightarrow> store_state \<Rightarrow> store_state \<times> (gerror + FileStore)" where
  "NewFileStore_init env fs s =
     (case io_steps env [''approval: lock store: ''] s of
        (s1, Some e) \<Rightarrow> (s1, Inl e)
      | (s1, None) \<Rightarrow>
     (case checkFilePermissionsLocked env fs s1 of
        (s2, Some e) \<Rightarrow> (s2, Inl e)
      | (s2, None) \<Rightarrow>
     (case os_Stat env s2 of
        (s3, StatOk f) \<Rightarrow>
          if sf_content f = EmptyFile then
            (case write_empty env ''approval: init store: '' s3 of
               (s4, Some e) \<Rightarrow> (s4, Inl e)
             | (s4, None) \<Rightarrow> (s4, Inr fs))
          else (s3, Inr fs)
      | (s3, _) \<Rightarrow> (s3, Inr fs))))"

definition NewFileStore :: "store_env \<Rightarrow> string \<Rightarrow> int \<Rightarrow> store_state \<Rightarrow> store_state \<times> (gerror + FileStore)" where
  "NewFileStore env path ttl s =
     (if path = [] then (s, Inl (errorf ''approval: store path is required''))
      else if ttl \<le> 0 then (s, Inl (errorf ''approval: ttl must be > 0''))
      else let fs = \<lparr>fst_path = path, fst_ttl = ttl\<rparr> in
        case os_Stat env s of
          (s1, StatNotExist) \<Rightarrow>
            (case write_empty env ''approval: create store: '' s1 of
               (s2, Some e) \<Rightarrow> (s2, Inl e)
             | (s2, None) \<Rightarrow> NewFileStore_init env fs s2)
        | (s1, _) \<Rightarrow> NewFileStore_init env fs s1)"

subsection \<open>Store operations\<close>

definition create_section :: "store_env \<Rightarrow> Request \<Rightarrow> records \<Rightarrow> store_state \<Rightarrow> store_state \<times> (gerror + Request)" where
  "create_section env req m s =
     (if m (rq_ID req) \<noteq> None then (s, Inl (Sentinel ErrDuplicateReference))
      else let req' = (if rq_CreatedAt req = zero_time then req\<lparr>rq_CreatedAt := se_now env (ss_tick s)\<rparr> else req)
        in case save env (m(rq_ID req \<mapsto> \<lparr>rc_Request = req', rc_Decision = None, rc_Consumed = False\<rparr>)) s of
             (s', Some e) \<Rightarrow> (s', Inl e)
           | (s', None) \<Rightarrow> (s', Inr req'))"

definition FileStore_Create :: "store_env \<Rightarrow> FileStore \<Rightarrow> Request \<Rightarrow> store_state \<Rightarrow> store_state \<times> (gerror + Request)" where
  "FileStore_Create env fs req s =
     (if rq_ID req = [] then (s, Inl (Sentinel ErrReferenceRequired))
      else if rq_CaseID req = [] then (s, Inl (Sentinel ErrCaseIDRequired))
      else if rq_Reason req = [] then (s, Inl (Sentinel ErrReasonRequired))
      else if rq_Requester req = [] then (s, Inl (Sentinel ErrRequesterRequired))
      else withLock env fs (create_section env req) s)"

definition decide_section :: "store_env \<Rightarrow> Decision \<Rightarrow> records \<Rightarrow> store_state \<Rightarrow> store_state \<times> (gerror + unit)" where
  "decide_section env dec m s =
     (case m (dc_RequestID dec) of
        None \<Rightarrow> (s, Inl (Sentinel ErrRequestNotFound))
      | Some rec \<Rightarrow>
          if rc_Decision rec \<noteq> None then (s, Inl (Sentinel ErrAlreadyDecided))
          else let dec' = (if dc_DecidedAt dec = zero_time then dec\<lparr>dc_DecidedAt := se_now env (ss_tick s)\<rparr> else dec)
            in case save env (m(dc_RequestID dec \<mapsto> rec\<lparr>rc_Decision := Some dec'\<rparr>)) s of
                 (s', Some e) \<Rightarrow> (s', Inl e)
               | (s', None) \<Rightarrow> (s', Inr ()))"

definition FileStore_Decide :: "store_env \<Rightarrow> FileStore \<Rightarrow> Decision \<Rightarrow> store_state \<Rightarrow> store_state \<times> (gerror + unit)" where
  "FileStore_Decide env fs dec s =
     (if dc_ApprovedBy dec = [] then (s, Inl (Sentinel ErrApprovedByRequired))
      else withLock env fs (decide_section env dec) s)"

definition statusLocked :: "store_env \<Rightarrow> FileStore \<Rightarrow> string \<Rightarrow> records \<Rightarrow> store_state \<Rightarrow> store_state \<times> (gerror + ApprovalStatus)" where
  "statusLocked env fs requestID m s =
     (case m requestID of
        None \<Rightarrow> (s, Inl (Sentinel ErrRequestNotFound))
      | Some rec \<Rightarrow>
          let expired = (Since (se_now env (ss_tick s)) (rq_CreatedAt (rc_Request rec)) > fst_ttl fs)
          in (s, Inr \<lparr>st_Request = rc_Request rec, st_Decision = rc_Decision rec,
                      st_Consumed = rc_Consumed rec, st_Expired = expired\<rparr>))"

definition FileStore_Get :: "store_env \<Rightarrow> FileStore \<Rightarrow> string \<Rightarrow> store_state \<Rightarrow> store_state \<times> (gerror + ApprovalStatus)" where
  "FileStore_Get env fs requestID s = withLock env fs (statusLocked env fs requestID) s"

definition FileStore_IsApproved :: "store_env \<Rightarrow> FileStore \<Rightarrow> string \<Rightarrow> store_state \<Rightarrow> store_state \<times> (gerror + bool)" where
  "FileStore_IsApproved env fs requestID s =
     (case FileStore_Get env fs requestID s of
        (s', Inl e) \<Rightarrow> if errors_Is ErrRequestNotFound e then (s', Inr False) else (s', Inl e)
      | (s', Inr status) \<Rightarrow>
          if st_Consumed status \<or> st_Expired status then (s', Inr False)
          else (case st_Decision status of
                  None \<Rightarrow> (s', Inr False)
                | Some d \<Rightarrow> (s', Inr (dc_Approved d))))"

definition consume_section :: "store_env \<Rightarrow> string \<Rightarrow> records \<Rightarrow> store_state \<Rightarrow> store_state \<times> (gerror + unit)" where
  "consume_section env requestID m s =
     (case m requestID of
        None \<Rightarrow> (s, Inl (Sentinel ErrRequestNotFound))
      | Some rec \<Rightarrow>
          if rc_Consumed rec then (s, Inl (Sentinel ErrAlreadyConsumed))
          else case save env (m(requestID \<mapsto> rec\<lparr>rc_Consumed := True\<rparr>)) s of
                 (s', Some e) \<Rightarrow> (s', Inl e)
               | (s', None) \<Rightarrow> (s', Inr ()))"

definition FileStore_Consume :: "store_env \<Rightarrow> FileStore \<Rightarrow> string \<Rightarrow> store_state \<Rightarrow> store_state \<times> (gerror + unit)" where
  "FileStore_Consume env fs requestID s = withLock env fs (consume_section env requestID) s"

subsection \<open>What the internals do to the file\<close>

definition records_at :: "store_state \<Rightarrow> records" where
  "records_at s = (case ss_file s of None \<Rightarrow> Map.empty | Some f \<Rightarrow>
     (case sf_content f of Recs m \<Rightarrow> m | _ \<Rightarrow> Map.empty))"

lemma records_at_cong: "ss_file s = ss_file s' \<Longrightarrow> records_at s = records_at s'"
  by (simp add: records_at_def)

lemma io_step_file: "io_step env s = (s', r) \<Longrightarrow> ss_file s' = ss_file s"
  by (auto simp: io_step_def)

lemma io_steps_file: "io_steps env ws s = (s', r) \<Longrightarrow> ss_file s' = ss_file s"
  by (induction env ws s rule: io_steps.induct)
     (auto split: prod.splits option.splits dest: io_step_file)

lemma check_file: "checkFilePermissionsLocked env fs s = (s', r) \<Longrightarrow> ss_file s' = ss_file s"
  by (auto simp: checkFilePermissionsLocked_def io_step_def Let_def
           split: if_splits option.splits)

lemma check_ok_perm:
  "checkFilePermissionsLocked env fs s = (s', None) \<Longrightarrow>
   se_windows env \<or> (\<exists>f. ss_file s = Some f \<and> \<not> perm_too_open (sf_perm f))"
  by (auto simp: checkFilePermissionsLocked_def io_step_def split: if_splits option.splits)

lemma load_file: "load env s = (s', r) \<Longrightarrow> ss_file s' = ss_file s"
  by (auto simp: load_def io_step_def split: option.splits store_content.splits)

lemma load_ok: "load env s = (s', Inr m) \<Longrightarrow> m = records_at s"
  by (auto simp: load_def io_step_def records_at_def split: option.splits store_content.splits)

lemma save_ok: "save env m s = (s', None) \<Longrightarrow>
  ss_file s' = Some \<lparr>sf_perm = mode0600, sf_content = Recs m\<rparr>"
  by (auto simp: save_def split: prod.splits option.splits)

lemma save_ok_records: "save env m s = (s', None) \<Longrightarrow> records_at s' = m"
  by (auto dest: save_ok simp: records_at_def)

lemma save_fail: "save env m s = (s', Some e) \<Longrightarrow> ss_file s' = ss_file s"
  by (auto simp: save_def split: prod.splits option.splits dest: io_steps_file)

text \<open>A locked operation either fails before its body runs, leaving the file alone, or runs its
  body once on the file's current contents, with the file's mode checked.\<close>

lemma withLock_cases:
  assumes "withLock env fs fn s = (s', r)"
  obtains (refused) e where "r = Inl e" "ss_file s' = ss_file s"
  | (ran) s3 where "ss_file s3 = ss_file s" "fn (records_at s) s3 = (s', r)"
      "se_windows env \<or> (\<exists>f. ss_file s = Some f \<and> \<not> perm_too_open (sf_perm f))"
proof -
  obtain s1 r1 where 1: "io_step env s = (s1, r1)" by fastforce
  obtain s2 r2 where 2: "checkFilePermissionsLocked env fs s1 = (s2, r2)" by fastforce
  obtain s3 r3 where 3: "load env s2 = (s3, r3)" by fastforce
  have f1: "ss_file s1 = ss_file s" by (rule io_step_file [OF 1])
  have f2: "ss_file s2 = ss_file s" using check_file [OF 2] f1 by simp
  have f3: "ss_file s3 = ss_file s" using load_file [OF 3] f2 by simp
  show ?thesis
  proof (cases "r1 = None \<and> r2 = None \<and> (\<exists>m. r3 = Inr m)")
    case True
    then have m: "r3 = Inr (records_at s)" using load_ok 3 records_at_cong [OF f2] by blast
    show ?thesis
      by (rule ran [OF f3])
         (use assms 1 2 3 m True check_ok_perm [of env fs s1 s2] f1 in \<open>simp_all add: withLock_def\<close>)
  next
    case False
    then have "(\<exists>e. r = Inl e) \<and> ss_file s' = ss_file s"
      using assms 1 2 3 f1 f2 f3 by (auto simp: withLock_def split: option.splits sum.splits)
    then show ?thesis using refused by blast
  qed
qed

lemma FileStore_Create_ok:
  assumes "FileStore_Create env fs q s = (s', Inr q')"
  shows "rq_ID q \<noteq> [] \<and> rq_CaseID q \<noteq> [] \<and> rq_Reason q \<noteq> [] \<and> rq_Requester q \<noteq> []
    \<and> records_at s (rq_ID q) = None \<and> (\<exists>t. q' = q\<lparr>rq_CreatedAt := t\<rparr>)
    \<and> records_at s' = (records_at s)(rq_ID q \<mapsto> \<lparr>rc_Request = q', rc_Decision = None, rc_Consumed = False\<rparr>)"
proof -
  have ne: "rq_ID q \<noteq> [] \<and> rq_CaseID q \<noteq> [] \<and> rq_Reason q \<noteq> [] \<and> rq_Requester q \<noteq> []"
    and lock: "withLock env fs (create_section env q) s = (s', Inr q')"
    using assms by (auto simp: FileStore_Create_def split: if_splits)
  from lock show ?thesis
  proof (cases rule: withLock_cases)
    case (ran s3)
    define q1 where "q1 = (if rq_CreatedAt q = zero_time
      then q\<lparr>rq_CreatedAt := se_now env (ss_tick s3)\<rparr> else q)"
    have "\<exists>t. q1 = q\<lparr>rq_CreatedAt := t\<rparr>"
      unfolding q1_def by (cases q) auto
    with ran(2) ne show ?thesis
      by (auto simp: create_section_def q1_def [symmetric] Let_def save_ok_records
               split: if_splits prod.splits option.splits dest!: save_ok_records)
  qed simp
qed

lemma FileStore_Create_fail: "FileStore_Create env fs q s = (s', Inl e) \<Longrightarrow> ss_file s' = ss_file s"
  by (auto simp: FileStore_Create_def create_section_def Let_def save_fail
           split: if_splits prod.splits option.splits elim!: withLock_cases)

lemma FileStore_Decide_ok:
  assumes "FileStore_Decide env fs d s = (s', Inr ())"
  shows "\<exists>rec t. records_at s (dc_RequestID d) = Some rec \<and> rc_Decision rec = None \<and> dc_ApprovedBy d \<noteq> []
    \<and> records_at s' = (records_at s)(dc_RequestID d \<mapsto> rec\<lparr>rc_Decision := Some (d\<lparr>dc_DecidedAt := t\<rparr>)\<rparr>)"
proof -
  have ne: "dc_ApprovedBy d \<noteq> []" and lock: "withLock env fs (decide_section env d) s = (s', Inr ())"
    using assms by (auto simp: FileStore_Decide_def split: if_splits)
  from lock show ?thesis
  proof (cases rule: withLock_cases)
    case (ran s3)
    define d1 where "d1 = (if dc_DecidedAt d = zero_time
      then d\<lparr>dc_DecidedAt := se_now env (ss_tick s3)\<rparr> else d)"
    have "\<exists>t. d1 = d\<lparr>dc_DecidedAt := t\<rparr>"
      unfolding d1_def by (cases d) auto
    then obtain t where t: "d1 = d\<lparr>dc_DecidedAt := t\<rparr>" by blast
    note body = ran(2) [unfolded decide_section_def Let_def, folded d1_def, unfolded t]
    from body ne show ?thesis
      by (auto split: if_splits prod.splits option.splits dest!: save_ok_records)
  qed simp
qed

lemma FileStore_Decide_fail: "FileStore_Decide env fs d s = (s', Inl e) \<Longrightarrow> ss_file s' = ss_file s"
  by (auto simp: FileStore_Decide_def decide_section_def Let_def save_fail
           split: if_splits prod.splits option.splits elim!: withLock_cases)

lemma FileStore_Consume_ok:
  assumes "FileStore_Consume env fs i s = (s', Inr ())"
  shows "\<exists>rec. records_at s i = Some rec \<and> \<not> rc_Consumed rec
    \<and> records_at s' = (records_at s)(i \<mapsto> rec\<lparr>rc_Consumed := True\<rparr>)"
  using assms
  by (auto simp: FileStore_Consume_def consume_section_def
           split: if_splits prod.splits option.splits elim!: withLock_cases dest!: save_ok_records)

lemma FileStore_Consume_fail: "FileStore_Consume env fs i s = (s', Inl e) \<Longrightarrow> ss_file s' = ss_file s"
  by (auto simp: FileStore_Consume_def consume_section_def save_fail
           split: if_splits prod.splits option.splits elim!: withLock_cases)

lemma FileStore_Get_file: "FileStore_Get env fs i s = (s', r) \<Longrightarrow> ss_file s' = ss_file s"
  by (auto simp: FileStore_Get_def statusLocked_def Let_def
           split: option.splits elim!: withLock_cases)

lemma FileStore_Get_ok:
  "FileStore_Get env fs i s = (s', Inr st) \<Longrightarrow>
   \<exists>rec now. records_at s i = Some rec \<and> st = \<lparr>st_Request = rc_Request rec, st_Decision = rc_Decision rec,
      st_Consumed = rc_Consumed rec, st_Expired = (Since now (rq_CreatedAt (rc_Request rec)) > fst_ttl fs)\<rparr>"
  by (auto simp: FileStore_Get_def statusLocked_def Let_def
           split: option.splits elim!: withLock_cases)

subsection \<open>The \<^verbatim>\<open>Store\<close> contract and sequences of operations\<close>

datatype store_op = OpCreate Request | OpDecide Decision | OpConsume string

text \<open>One operation of any store, with whether it succeeded; and a history of operations, in the
  order in which the file lock admits them.\<close>

definition store_step ::
  "(Request \<Rightarrow> 's \<Rightarrow> 's \<times> (gerror + Request)) \<Rightarrow> (Decision \<Rightarrow> 's \<Rightarrow> 's \<times> (gerror + unit)) \<Rightarrow>
   (string \<Rightarrow> 's \<Rightarrow> 's \<times> (gerror + unit)) \<Rightarrow> store_op \<Rightarrow> 's \<Rightarrow> 's \<times> bool" where
  "store_step create decide consume op s =
     (case op of
        OpCreate q \<Rightarrow> (case create q s of (s', Inl e) \<Rightarrow> (s', False) | (s', Inr _) \<Rightarrow> (s', True))
      | OpDecide d \<Rightarrow> (case decide d s of (s', Inl e) \<Rightarrow> (s', False) | (s', Inr _) \<Rightarrow> (s', True))
      | OpConsume i \<Rightarrow> (case consume i s of (s', Inl e) \<Rightarrow> (s', False) | (s', Inr _) \<Rightarrow> (s', True)))"

fun run_ops :: "(store_op \<Rightarrow> 's \<Rightarrow> 's \<times> bool) \<Rightarrow> store_op list \<Rightarrow> 's \<Rightarrow> 's \<times> (store_op \<times> bool) list" where
  "run_ops step [] s = (s, [])"
| "run_ops step (op # ops) s =
     (case step op s of (s', ok) \<Rightarrow>
       (case run_ops step ops s' of (s'', log) \<Rightarrow> (s'', (op, ok) # log)))"

definition consumes :: "string \<Rightarrow> (store_op \<times> bool) list \<Rightarrow> nat" where
  "consumes i log = length (filter (\<lambda>(op, ok). op = OpConsume i \<and> ok) log)"

text \<open>How one record may evolve: the request never changes, a decision once made never changes,
  a consumed record stays consumed.\<close>

definition rec_le :: "approval_record \<Rightarrow> approval_record \<Rightarrow> bool" where
  "rec_le a b \<longleftrightarrow> rc_Request b = rc_Request a \<and> (rc_Decision a \<noteq> None \<longrightarrow> rc_Decision b = rc_Decision a)
     \<and> (rc_Consumed a \<longrightarrow> rc_Consumed b)"

lemma rec_le_refl [simp]: "rec_le a a"
  by (simp add: rec_le_def)

lemma rec_le_trans: "rec_le a b \<Longrightarrow> rec_le b c \<Longrightarrow> rec_le a c"
  by (simp add: rec_le_def)

definition consumed_in :: "records \<Rightarrow> string \<Rightarrow> bool" where
  "consumed_in m i \<longleftrightarrow> (case m i of Some rec \<Rightarrow> rc_Consumed rec | None \<Rightarrow> False)"

locale approval_store =
  fixes recs :: "'s \<Rightarrow> records"
    and create :: "Request \<Rightarrow> 's \<Rightarrow> 's \<times> (gerror + Request)"
    and decide :: "Decision \<Rightarrow> 's \<Rightarrow> 's \<times> (gerror + unit)"
    and consume :: "string \<Rightarrow> 's \<Rightarrow> 's \<times> (gerror + unit)"
  assumes create_ok: "create q s = (s', Inr q') \<Longrightarrow> recs s (rq_ID q) = None
      \<and> recs s' = (recs s)(rq_ID q \<mapsto> \<lparr>rc_Request = q', rc_Decision = None, rc_Consumed = False\<rparr>)"
    and create_fail: "create q s = (s', Inl e) \<Longrightarrow> recs s' = recs s"
    and decide_ok: "decide d s = (s', Inr u) \<Longrightarrow> \<exists>rec dec. recs s (dc_RequestID d) = Some rec
      \<and> rc_Decision rec = None \<and> recs s' = (recs s)(dc_RequestID d \<mapsto> rec\<lparr>rc_Decision := Some dec\<rparr>)"
    and decide_fail: "decide d s = (s', Inl e) \<Longrightarrow> recs s' = recs s"
    and consume_ok: "consume i s = (s', Inr u) \<Longrightarrow> \<exists>rec. recs s i = Some rec \<and> \<not> rc_Consumed rec
      \<and> recs s' = (recs s)(i \<mapsto> rec\<lparr>rc_Consumed := True\<rparr>)"
    and consume_fail: "consume i s = (s', Inl e) \<Longrightarrow> recs s' = recs s"
begin

lemma step_evolves:
  assumes "store_step create decide consume op s = (s', ok)" and "recs s i = Some rec"
  shows "\<exists>rec'. recs s' i = Some rec' \<and> rec_le rec rec'"
proof (cases op)
  case (OpCreate q)
  then show ?thesis using assms
    by (auto simp: store_step_def split: prod.splits sum.splits dest!: create_ok create_fail)
next
  case (OpDecide d)
  then show ?thesis using assms
    by (fastforce simp: store_step_def rec_le_def split: prod.splits sum.splits dest!: decide_ok decide_fail)
next
  case (OpConsume j)
  then show ?thesis using assms
    by (fastforce simp: store_step_def rec_le_def split: prod.splits sum.splits dest!: consume_ok consume_fail)
qed

lemma run_evolves:
  "run_ops (store_step create decide consume) ops s = (s', log) \<Longrightarrow> recs s i = Some rec \<Longrightarrow>
   \<exists>rec'. recs s' i = Some rec' \<and> rec_le rec rec'"
proof (induction ops arbitrary: s rec log)
  case (Cons op ops)
  then obtain s1 ok log1 where 1: "store_step create decide consume op s = (s1, ok)"
    and 2: "run_ops (store_step create decide consume) ops s1 = (s', log1)"
    by (auto split: prod.splits)
  obtain rec1 where "recs s1 i = Some rec1" and le: "rec_le rec rec1"
    using step_evolves [OF 1 Cons.prems(2)] by blast
  with Cons.IH [OF 2] show ?case using rec_le_trans [OF le] by blast
qed auto

lemma consume_marks:
  "store_step create decide consume (OpConsume i) s = (s', True) \<Longrightarrow>
   \<not> consumed_in (recs s) i \<and> consumed_in (recs s') i"
  by (auto simp: store_step_def consumed_in_def split: prod.splits sum.splits dest!: consume_ok)

lemma consumed_stays:
  "store_step create decide consume op s = (s', ok) \<Longrightarrow> consumed_in (recs s) i \<Longrightarrow> consumed_in (recs s') i"
  using step_evolves [of op s s' ok i] by (fastforce simp: consumed_in_def rec_le_def split: option.splits)

lemma consumes_at_most_once:
  "run_ops (store_step create decide consume) ops s = (s', log) \<Longrightarrow>
   consumes i log \<le> (if consumed_in (recs s) i then 0 else 1)"
proof (induction ops arbitrary: s log)
  case (Cons op ops)
  then obtain s1 ok log1 where 1: "store_step create decide consume op s = (s1, ok)"
    and 2: "run_ops (store_step create decide consume) ops s1 = (s', log1)"
    and log: "log = (op, ok) # log1"
    by (auto split: prod.splits)
  note IH = Cons.IH [OF 2]
  show ?case
  proof (cases "op = OpConsume i \<and> ok")
    case True
    then have "\<not> consumed_in (recs s) i" "consumed_in (recs s1) i" using consume_marks 1 by auto
    with IH True show ?thesis by (simp add: log consumes_def)
  next
    case False
    then have "consumes i log = consumes i log1" by (auto simp: log consumes_def)
    with IH consumed_stays [OF 1, of i] show ?thesis by (auto split: if_splits)
  qed
qed (simp add: consumes_def)

end

interpretation fstore: approval_store records_at "FileStore_Create env fs" "FileStore_Decide env fs"
  "FileStore_Consume env fs" for env fs
proof
  fix q s s' q' assume "FileStore_Create env fs q s = (s', Inr q')"
  from FileStore_Create_ok [OF this] show "records_at s (rq_ID q) = None \<and>
    records_at s' = (records_at s)(rq_ID q \<mapsto> \<lparr>rc_Request = q', rc_Decision = None, rc_Consumed = False\<rparr>)"
    by blast
next
  fix d s s' and u :: unit assume "FileStore_Decide env fs d s = (s', Inr u)"
  then have "FileStore_Decide env fs d s = (s', Inr ())" by simp
  from FileStore_Decide_ok [OF this] show "\<exists>rec dec. records_at s (dc_RequestID d) = Some rec
      \<and> rc_Decision rec = None \<and> records_at s' = (records_at s)(dc_RequestID d \<mapsto> rec\<lparr>rc_Decision := Some dec\<rparr>)"
    by blast
next
  fix i s s' and u :: unit assume "FileStore_Consume env fs i s = (s', Inr u)"
  then have "FileStore_Consume env fs i s = (s', Inr ())" by simp
  from FileStore_Consume_ok [OF this] show "\<exists>rec. records_at s i = Some rec
      \<and> \<not> rc_Consumed rec \<and> records_at s' = (records_at s)(i \<mapsto> rec\<lparr>rc_Consumed := True\<rparr>)" .
qed (auto intro: records_at_cong dest: FileStore_Create_fail FileStore_Decide_fail FileStore_Consume_fail)

definition FileStore_step :: "store_env \<Rightarrow> FileStore \<Rightarrow> store_op \<Rightarrow> store_state \<Rightarrow> store_state \<times> bool" where
  "FileStore_step env fs =
     store_step (FileStore_Create env fs) (FileStore_Decide env fs) (FileStore_Consume env fs)"



definition calm_env :: store_env where
  "calm_env = \<lparr>se_windows = False, se_fail = (\<lambda>t. None), se_now = (\<lambda>t. 1000)\<rparr>"

definition sample_request :: Request where
  "sample_request = zeroRequest\<lparr>rq_ID := ''REF-1'', rq_Operation := OperationCollectArtifact,
     rq_CaseID := ''CASE-7'', rq_Reason := ''triage'', rq_Requester := ''analyst'',
     rq_ClientID := ''C.0123456789abcdef'', rq_Artifact := ''Windows.System.Pslist''\<rparr>"

definition sample_decision :: Decision where
  "sample_decision = \<lparr>dc_RequestID = ''REF-1'', dc_Approved = True, dc_ApprovedBy = ''lead'',
     dc_DecidedAt = 1000, dc_Note = []\<rparr>"

definition sample_record :: approval_record where
  "sample_record = \<lparr>rc_Request = sample_request\<lparr>rq_CreatedAt := 1000\<rparr>,
     rc_Decision = Some sample_decision, rc_Consumed = False\<rparr>"

definition sample_store :: store_state where
  "sample_store = \<lparr>ss_tick = 0, ss_file = Some \<lparr>sf_perm = mode0600,
     sf_content = Recs [''REF-1'' \<mapsto> sample_record]\<rparr>\<rparr>"

lemma sample_store_records: "records_at sample_store ''REF-1'' = Some sample_record"
  by (simp add: sample_store_def records_at_def)


subsection \<open>The life of an approval without failures\<close>

definition quiet :: "store_env \<Rightarrow> bool" where
  "quiet env \<longleftrightarrow> (\<forall>t. se_fail env t = None)"

definition holds :: "records \<Rightarrow> store_state \<Rightarrow> bool" where
  "holds m s \<longleftrightarrow> (\<exists>p. ss_file s = Some \<lparr>sf_perm = p, sf_content = Recs m\<rparr> \<and> \<not> perm_too_open p)"

lemma io_step_quiet: "quiet env \<Longrightarrow> io_step env s = (s\<lparr>ss_tick := Suc (ss_tick s)\<rparr>, None)"
  by (simp add: io_step_def quiet_def)

lemma save_quiet:
  assumes "quiet env" shows "\<exists>s'. save env m s = (s', None) \<and> holds m s'"
proof -
  have steps: "\<exists>s'. io_steps env ws s = (s', None)" for ws s
    by (induction ws arbitrary: s) (simp_all add: io_step_quiet [OF assms])
  obtain s1 where "io_steps env save_calls s = (s1, None)" using steps by blast
  moreover have "\<not> perm_too_open mode0600" by (simp add: perm_too_open_def)
  ultimately show ?thesis by (simp add: save_def holds_def)
qed

lemma withLock_quiet:
  assumes "quiet env" and "holds m s"
  shows "\<exists>s'. holds m s' \<and> withLock env fs fn s = fn m s'"
proof -
  let ?s' = "s\<lparr>ss_tick := (if se_windows env then 2 else 3) + ss_tick s\<rparr>"
  have "holds m ?s'" using assms(2) by (simp add: holds_def)
  moreover have "withLock env fs fn s = fn m ?s'" using assms
    by (auto simp: withLock_def checkFilePermissionsLocked_def load_def io_step_quiet holds_def
        numeral_3_eq_3)
  ultimately show ?thesis by blast
qed

text \<open>\<open>now'\<close> is the clock reading the operation stamps the request with.\<close>

lemma Create_quiet:
  assumes "quiet env" "holds m s" "m (rq_ID q) = None" "rq_CreatedAt q = zero_time"
    and "rq_ID q \<noteq> []" "rq_CaseID q \<noteq> []" "rq_Reason q \<noteq> []" "rq_Requester q \<noteq> []"
  shows "\<exists>s' t q'. FileStore_Create env fs q s = (s', Inr q') \<and> q' = q\<lparr>rq_CreatedAt := se_now env t\<rparr>
    \<and> holds (m(rq_ID q \<mapsto> \<lparr>rc_Request = q', rc_Decision = None, rc_Consumed = False\<rparr>)) s'"
proof -
  obtain s1 where 1: "withLock env fs (create_section env q) s = create_section env q m s1"
    using withLock_quiet [OF assms(1,2)] by blast
  define q' where "q' = q\<lparr>rq_CreatedAt := se_now env (ss_tick s1)\<rparr>"
  obtain s2 where "save env (m(rq_ID q \<mapsto> \<lparr>rc_Request = q', rc_Decision = None, rc_Consumed = False\<rparr>)) s1 = (s2, None)"
    and "holds (m(rq_ID q \<mapsto> \<lparr>rc_Request = q', rc_Decision = None, rc_Consumed = False\<rparr>)) s2"
    using save_quiet [OF assms(1)] by blast
  then show ?thesis using assms 1
    by (intro exI [of _ s2] exI [of _ "ss_tick s1"] exI [of _ q'])
       (simp add: FileStore_Create_def create_section_def q'_def)
qed

lemma Decide_quiet:
  assumes "quiet env" "holds m s" "m (dc_RequestID d) = Some rec" "rc_Decision rec = None" "dc_ApprovedBy d \<noteq> []"
  shows "\<exists>s' d'. FileStore_Decide env fs d s = (s', Inr ()) \<and> dc_Approved d' = dc_Approved d
    \<and> holds (m(dc_RequestID d \<mapsto> rec\<lparr>rc_Decision := Some d'\<rparr>)) s'"
proof -
  obtain s1 where 1: "withLock env fs (decide_section env d) s = decide_section env d m s1"
    using withLock_quiet [OF assms(1,2)] by blast
  define d' where "d' = (if dc_DecidedAt d = zero_time then d\<lparr>dc_DecidedAt := se_now env (ss_tick s1)\<rparr> else d)"
  obtain s2 where "save env (m(dc_RequestID d \<mapsto> rec\<lparr>rc_Decision := Some d'\<rparr>)) s1 = (s2, None)"
    and "holds (m(dc_RequestID d \<mapsto> rec\<lparr>rc_Decision := Some d'\<rparr>)) s2"
    using save_quiet [OF assms(1)] by blast
  then show ?thesis using assms 1
    by (intro exI [of _ s2] exI [of _ d'])
       (auto simp add: FileStore_Decide_def decide_section_def d'_def)
qed

lemma IsApproved_quiet:
  assumes "quiet env" "holds m s" "m i = Some rec"
    and "\<forall>t. Since (se_now env t) (rq_CreatedAt (rc_Request rec)) \<le> fst_ttl fs"
  shows "\<exists>s'. holds m s' \<and> FileStore_IsApproved env fs i s = (s', Inr (\<not> rc_Consumed rec \<and>
    (case rc_Decision rec of Some d \<Rightarrow> dc_Approved d | None \<Rightarrow> False)))"
proof -
  obtain s1 where "holds m s1" and 1: "withLock env fs (statusLocked env fs i) s = statusLocked env fs i m s1"
    using withLock_quiet [OF assms(1,2)] by blast
  then show ?thesis using assms(3,4)
    by (intro exI [of _ s1])
       (auto simp: FileStore_IsApproved_def FileStore_Get_def statusLocked_def not_less [symmetric]
             split: option.splits)
qed

lemma Consume_quiet:
  assumes "quiet env" "holds m s" "m i = Some rec"
  shows "\<exists>s'. (if rc_Consumed rec then FileStore_Consume env fs i s = (s', Inl (Sentinel ErrAlreadyConsumed))
    else FileStore_Consume env fs i s = (s', Inr ()) \<and> holds (m(i \<mapsto> rec\<lparr>rc_Consumed := True\<rparr>)) s')"
proof -
  obtain s1 where 1: "withLock env fs (consume_section env i) s = consume_section env i m s1"
    using withLock_quiet [OF assms(1,2)] by blast
  obtain s2 where "save env (m(i \<mapsto> rec\<lparr>rc_Consumed := True\<rparr>)) s1 = (s2, None)"
    and "holds (m(i \<mapsto> rec\<lparr>rc_Consumed := True\<rparr>)) s2"
    using save_quiet [OF assms(1)] by blast
  then show ?thesis using assms(3) 1
    by (cases "rc_Consumed rec") (auto simp: FileStore_Consume_def consume_section_def)
qed

text \<open>
  The whole life of an approval when no system call fails and the clock
  stays within the time to live: creating and approving a fresh reference makes it approved,
  the first consumption succeeds, and from then on it is not approved and a second
  consumption is refused as already consumed.
\<close>

theorem approval_lifecycle:
  assumes "quiet env" and "holds m s" and "m (rq_ID q) = None" and "rq_CreatedAt q = zero_time"
    and "rq_ID q \<noteq> []" and "rq_CaseID q \<noteq> []" and "rq_Reason q \<noteq> []" and "rq_Requester q \<noteq> []"
    and "dc_RequestID d = rq_ID q" and "dc_ApprovedBy d \<noteq> []" and "dc_Approved d"
    and clock: "\<forall>t t'. Since (se_now env t) (se_now env t') \<le> fst_ttl fs"
  shows "\<exists>s1 q' s2 s3 s4 s5 s6.
      FileStore_Create env fs q s = (s1, Inr q') \<and> FileStore_Decide env fs d s1 = (s2, Inr ())
    \<and> FileStore_IsApproved env fs (rq_ID q) s2 = (s3, Inr True)
    \<and> FileStore_Consume env fs (rq_ID q) s3 = (s4, Inr ())
    \<and> FileStore_IsApproved env fs (rq_ID q) s4 = (s5, Inr False)
    \<and> FileStore_Consume env fs (rq_ID q) s5 = (s6, Inl (Sentinel ErrAlreadyConsumed))"
proof -
  let ?i = "rq_ID q"
  obtain s1 t q' where 1: "FileStore_Create env fs q s = (s1, Inr q')"
    and q': "q' = q\<lparr>rq_CreatedAt := se_now env t\<rparr>"
    and h1: "holds (m(?i \<mapsto> \<lparr>rc_Request = q', rc_Decision = None, rc_Consumed = False\<rparr>)) s1"
    using Create_quiet [OF assms(1-8)] by blast
  obtain s2 d' where 2: "FileStore_Decide env fs d s1 = (s2, Inr ())" and d': "dc_Approved d'"
    and h2: "holds (m(?i \<mapsto> \<lparr>rc_Request = q', rc_Decision = Some d', rc_Consumed = False\<rparr>)) s2"
    using Decide_quiet [OF assms(1) h1, of d] assms(9-11) by force
  have fresh: "\<forall>u. Since (se_now env u) (rq_CreatedAt q') \<le> fst_ttl fs" using clock by (simp add: q')
  obtain s3 where 3: "FileStore_IsApproved env fs ?i s2 = (s3, Inr True)"
    and h3: "holds (m(?i \<mapsto> \<lparr>rc_Request = q', rc_Decision = Some d', rc_Consumed = False\<rparr>)) s3"
    using IsApproved_quiet [OF assms(1) h2, of ?i] d' fresh by force
  obtain s4 where 4: "FileStore_Consume env fs ?i s3 = (s4, Inr ())"
    and h4: "holds (m(?i \<mapsto> \<lparr>rc_Request = q', rc_Decision = Some d', rc_Consumed = True\<rparr>)) s4"
    using Consume_quiet [OF assms(1) h3, of ?i] by force
  obtain s5 where 5: "FileStore_IsApproved env fs ?i s4 = (s5, Inr False)"
    and h5: "holds (m(?i \<mapsto> \<lparr>rc_Request = q', rc_Decision = Some d', rc_Consumed = True\<rparr>)) s5"
    using IsApproved_quiet [OF assms(1) h4, of ?i] fresh by force
  obtain s6 where "FileStore_Consume env fs ?i s5 = (s6, Inl (Sentinel ErrAlreadyConsumed))"
    using Consume_quiet [OF assms(1) h5, of ?i] by force
  with 1 2 3 4 5 show ?thesis by blast
qed

theorem approval_lifecycle_witness:
  "\<exists>s1 q' s2. FileStore_Create calm_env \<lparr>fst_path = ''p'', fst_ttl = 900\<rparr> sample_request
      \<lparr>ss_tick = 0, ss_file = Some \<lparr>sf_perm = mode0600, sf_content = Recs Map.empty\<rparr>\<rparr> = (s1, Inr q')
    \<and> FileStore_Decide calm_env \<lparr>fst_path = ''p'', fst_ttl = 900\<rparr> sample_decision s1 = (s2, Inr ())"
  using approval_lifecycle [of calm_env Map.empty
      "\<lparr>ss_tick = 0, ss_file = Some \<lparr>sf_perm = mode0600, sf_content = Recs Map.empty\<rparr>\<rparr>"
      sample_request sample_decision "\<lparr>fst_path = ''p'', fst_ttl = 900\<rparr>"]
  by (fastforce simp: quiet_def calm_env_def holds_def perm_too_open_def sample_request_def
      zeroRequest_def sample_decision_def Since_def minInt64_def maxInt64_def)

end
