(* ===== verification/Sanitize.thy ===== *)
theory Sanitize
  imports Prelude
begin

text \<open>
  \<^verbatim>\<open>internal/audit/sanitize.go\<close>: redaction of secrets before anything is logged.

  \<open>SanitizeString\<close> is the loop of the source, restarted on the whole string after every
  excision; its termination proof shows that each round makes the string shorter.
  \<open>SanitizeString_excise\<close> proves it equal to a one-pass reference (\<open>excise\<close>) that copies the text
  before a PEM header, writes the placeholder and continues after the block, and
  \<open>SanitizeString_clean\<close> that no PEM header survives. \<open>SanitizeAny\<close> walks the shape of a Go value
  as \<^verbatim>\<open>reflect\<close> presents it (\<open>goval\<close>).

  \<^verbatim>\<open>strings.ToLower\<close> on a name with a non-ASCII byte needs Unicode's case tables; it is the
  argument \<open>lowerU\<close>, ASCII names are computed.
\<close>

definition redactedPlaceholder :: string where
  "redactedPlaceholder = ''[REDACTED]''"

definition DefaultRedactFields :: "string list" where
  "DefaultRedactFields = [''client_private_key'', ''client_cert'', ''ca_certificate'', ''api_key'',
     ''approval_token'', ''password'', ''secret'']"

definition ToLower :: "(string \<Rightarrow> string) \<Rightarrow> string \<Rightarrow> string" where
  "ToLower lowerU s =
     (if list_all (\<lambda>c. (of_char c :: nat) < 128) s then map lower_char s else lowerU s)"

definition normalizeFieldName :: "(string \<Rightarrow> string) \<Rightarrow> string \<Rightarrow> string" where
  "normalizeFieldName lowerU name =
     filter (\<lambda>c. c \<noteq> CHR ''-'') (filter (\<lambda>c. c \<noteq> CHR ''_'') (ToLower lowerU name))"

record Sanitizer =
  sz_lowerU :: "string \<Rightarrow> string"
  sz_redactKeys :: "string list"

definition NewSanitizer :: "(string \<Rightarrow> string) \<Rightarrow> string list \<Rightarrow> Sanitizer" where
  "NewSanitizer lowerU extra =
     \<lparr>sz_lowerU = lowerU, sz_redactKeys = map (normalizeFieldName lowerU) (DefaultRedactFields @ extra)\<rparr>"

definition ShouldRedact :: "Sanitizer \<Rightarrow> string \<Rightarrow> bool" where
  "ShouldRedact s fieldName \<longleftrightarrow> normalizeFieldName (sz_lowerU s) fieldName \<in> set (sz_redactKeys s)"

subsection \<open>PEM blocks in strings\<close>

abbreviation "pemBegin \<equiv> ''-----BEGIN''"
abbreviation "pemEnd \<equiv> ''-----END''"

text \<open>A footer cannot start inside the header that precedes it.\<close>

lemma pem_end_offset:
  assumes "HasPrefix t pemBegin" and "HasPrefix (drop e t) pemEnd" shows "6 \<le> e"
proof (rule ccontr)
  assume "\<not> 6 \<le> e"
  then have "e = 0 \<or> e = 1 \<or> e = 2 \<or> e = 3 \<or> e = 4 \<or> e = 5" by auto
  then show False using assms by (auto simp: HasPrefix_iff)
qed

lemma Index_drop_bounds:
  assumes "Index v pemBegin = Some i" and "Index (drop i v) pemEnd = Some e"
    and "Index (drop (i + e) v) [CHR 0x0A] = Some n"
  shows "6 \<le> e \<and> 8 \<le> n \<and> i + e + n < length v"
proof -
  have b: "HasPrefix (drop i v) pemBegin" using Index_Some_iff_HasPrefix [OF assms(1)] by blast
  have e: "HasPrefix (drop e (drop i v)) pemEnd" using Index_Some_iff_HasPrefix [OF assms(2)] by blast
  have le: "i \<le> length v" "e \<le> length v - i"
    using Index_Some_iff_HasPrefix [OF assms(1)] Index_Some_iff_HasPrefix [OF assms(2)] by auto
  have nl: "n \<le> length (drop (i + e) v)" "HasPrefix (drop n (drop (i + e) v)) [CHR 0x0A]"
    using Index_Some_iff_HasPrefix [OF assms(3)] by auto
  obtain u where u: "drop (i + e) v = pemEnd @ u" using e by (auto simp: HasPrefix_iff add.commute)
  have "8 \<le> n"
  proof (rule ccontr)
    assume "\<not> 8 \<le> n"
    then have "n = 0 \<or> n = 1 \<or> n = 2 \<or> n = 3 \<or> n = 4 \<or> n = 5 \<or> n = 6 \<or> n = 7" by auto
    then show False using nl(2) unfolding u by (auto simp: HasPrefix_iff)
  qed
  moreover have "i + e + n < length v"
    using nl le by (auto simp: HasPrefix_iff dest: arg_cong [where f = length])
  ultimately show ?thesis using pem_end_offset [OF b e] by blast
qed

function SanitizeString :: "string \<Rightarrow> string" where
  "SanitizeString v =
     (case Index v pemBegin of
        None \<Rightarrow> v
      | Some idx \<Rightarrow>
          (case Index (drop idx v) pemEnd of
             None \<Rightarrow> take idx v @ redactedPlaceholder
           | Some e \<Rightarrow>
               let relEnd = idx + e in
               (case Index (drop relEnd v) [CHR 0x0A] of
                  None \<Rightarrow> take idx v @ redactedPlaceholder
                | Some nl \<Rightarrow> SanitizeString (take idx v @ redactedPlaceholder @ drop (relEnd + nl + 1) v))))"
  by pat_completeness auto
termination
proof (relation "measure length")
  fix v idx e relEnd nl
  assume "Index v pemBegin = Some idx" "Index (drop idx v) pemEnd = Some e" "relEnd = idx + e"
    "Index (drop relEnd v) [CHR 0x0A] = Some nl"
  then have "6 \<le> e \<and> 8 \<le> nl \<and> idx + e + nl < length v" using Index_drop_bounds by blast
  then show "(take idx v @ redactedPlaceholder @ drop (relEnd + nl + 1) v, v) \<in> measure length"
    using \<open>relEnd = idx + e\<close> by (simp add: redactedPlaceholder_def) arith
qed simp

declare SanitizeString.simps [simp del]

text \<open>The one-pass reference: what is left of the text is never looked at again.\<close>

function excise :: "string \<Rightarrow> string" where
  "excise v =
     (case Index v pemBegin of
        None \<Rightarrow> v
      | Some idx \<Rightarrow> take idx v @ redactedPlaceholder @
          (case Index (drop idx v) pemEnd of
             None \<Rightarrow> []
           | Some e \<Rightarrow>
               (case Index (drop (idx + e) v) [CHR 0x0A] of
                  None \<Rightarrow> []
                | Some nl \<Rightarrow> excise (drop (idx + e + nl + 1) v))))"
  by pat_completeness auto
termination
proof (relation "measure length")
  fix v idx e nl
  assume "Index v pemBegin = Some idx" "Index (drop idx v) pemEnd = Some e"
    "Index (drop (idx + e) v) [CHR 0x0A] = Some nl"
  then have "idx + e + nl < length v" using Index_drop_bounds by blast
  then show "(drop (idx + e + nl + 1) v, v) \<in> measure length" by simp
qed simp

declare excise.simps [simp del]

text \<open>A text with no header, followed by the placeholder's first character, contributes no
  header: the next one is found behind it.\<close>

lemma Index_shift:
  assumes "Index p sub = None" and "c \<notin> set sub" and "sub \<noteq> []"
  shows "Index (p @ c # r) sub = map_option (\<lambda>i. Suc (length p + i)) (Index r sub)"
  using assms(1)
proof (induction p)
  case Nil
  have "\<not> HasPrefix (c # r) sub" using assms(2,3) by (cases sub) (auto simp: HasPrefix_def)
  then show ?case by (simp add: option.map_comp o_def)
next
  case (Cons a p)
  have p: "Index p sub = None" and np: "\<not> HasPrefix (a # p) sub"
    using Cons.prems by (auto split: if_splits)
  have "\<not> HasPrefix (a # p @ c # r) sub"
  proof
    assume "HasPrefix (a # p @ c # r) sub"
    then have eq: "take (length sub) ((a # p) @ c # r) = sub" by (simp add: HasPrefix_def)
    show False
    proof (cases "length sub \<le> length (a # p)")
      case True
      then have "take (length sub) (a # p) = sub" using eq unfolding take_append by simp
      with np show False by (simp add: HasPrefix_def)
    next
      case False
      then have "c \<in> set (take (length sub) ((a # p) @ c # r))"
        unfolding take_append by (cases "length sub - length (a # p)") auto
      with eq assms(2) show False by simp
    qed
  qed
  then show ?case using Cons.IH [OF p] by (simp add: option.map_comp o_def)
qed

lemma placeholder_cases: "redactedPlaceholder = ''[REDACTED'' @ CHR '']'' # []"
  by (simp add: redactedPlaceholder_def)

lemma Index_take_None:
  assumes "Index v sub = Some i" and "sub \<noteq> []" shows "Index (take i v) sub = None"
proof (rule ccontr)
  assume "Index (take i v) sub \<noteq> None"
  then obtain j where j: "Index (take i v) sub = Some j" by blast
  obtain t where t: "drop j (take i v) = sub @ t" and "j \<le> length (take i v)"
    using Index_Some_iff_HasPrefix [OF j] by (auto simp: HasPrefix_iff)
  have "drop j (take i v) @ drop i v = drop j v" if "j \<le> i"
    using that append_take_drop_id [of i v] drop_append by (metis append_take_drop_id drop_take le_add_diff_inverse2 drop_drop)
  moreover have "j < i" using t assms(2) by (cases "j < i") auto
  ultimately have "sub @ (t @ drop i v) = drop j v" using t by simp
  then have "HasPrefix (drop j v) sub" unfolding HasPrefix_iff by metis
  with Index_least [OF assms(1) \<open>j < i\<close>] show False by blast
qed

lemma Index_after_placeholder:
  assumes "Index p pemBegin = None"
  shows "Index (p @ redactedPlaceholder @ r) pemBegin =
     map_option (\<lambda>i. length (p @ redactedPlaceholder) + i) (Index r pemBegin)"
proof -
  have "Index (p @ ''[REDACTED'') pemBegin = None"
    using Index_shift [OF assms, of "CHR ''[''" "''REDACTED''"] by (simp add: HasPrefix_def)
  from Index_shift [OF this, of "CHR '']''" r] show ?thesis
    by (simp add: placeholder_cases)
qed

text \<open>
  The loop, restarted on the rewritten string, does what the single pass does: a prefix already
  cleaned stays as it is.
\<close>

text \<open>One round of the loop behind a placeholder.\<close>

lemma SanitizeString_round:
  assumes "Index p pemBegin = None" and i: "Index v pemBegin = Some i"
  shows "SanitizeString (p @ redactedPlaceholder @ v) =
    (case Index (drop i v) pemEnd of
       None \<Rightarrow> p @ redactedPlaceholder @ take i v @ redactedPlaceholder
     | Some e \<Rightarrow> (case Index (drop (i + e) v) [CHR 0x0A] of
         None \<Rightarrow> p @ redactedPlaceholder @ take i v @ redactedPlaceholder
       | Some n \<Rightarrow> SanitizeString ((p @ redactedPlaceholder @ take i v) @ redactedPlaceholder @ drop (i + e + n + 1) v)))"
proof -
  let ?a = "p @ redactedPlaceholder"
  have at: "Index (p @ redactedPlaceholder @ v) pemBegin = Some (length ?a + i)"
    using Index_after_placeholder [OF assms(1), of v] i by simp
  have d: "drop (length p + (length redactedPlaceholder + k)) (p @ redactedPlaceholder @ v) = drop k v" for k
    using drop_append [of "length ?a + k" ?a v] by simp
  have t: "take (length ?a + i) (p @ redactedPlaceholder @ v) = ?a @ take i v"
    using take_append [of "length ?a + i" ?a v] by simp
  have d': "drop (length p + (length redactedPlaceholder + i) + e) (p @ redactedPlaceholder @ v) = drop (i + e) v"
    "drop (length p + (length redactedPlaceholder + i) + e + n + 1) (p @ redactedPlaceholder @ v) = drop (i + e + n + 1) v" for e n
    using d [of "i + e"] d [of "i + e + n + 1"] by (simp_all add: add.assoc)
  show ?thesis
    using at by (simp add: SanitizeString.simps [of "p @ redactedPlaceholder @ v"] d d' t [simplified] add.assoc split: option.split)
qed

lemma SanitizeString_prefix:
  "Index p pemBegin = None \<Longrightarrow>
   SanitizeString (p @ redactedPlaceholder @ v) = p @ redactedPlaceholder @ excise v"
proof (induction v arbitrary: p rule: excise.induct)
  case (1 v)
  note shift = Index_after_placeholder [OF 1(2), of v]
  show ?case
  proof (cases "Index v pemBegin")
    case None
    then show ?thesis using shift by (simp add: SanitizeString.simps [of "p @ _"] excise.simps [of v])
  next
    case (Some i)
    have clean: "Index (p @ redactedPlaceholder @ take i v) pemBegin = None"
      using Index_after_placeholder [OF 1(2), of "take i v"] Index_take_None [OF Some] by simp
    show ?thesis unfolding SanitizeString_round [OF 1(2) Some]
      using 1(1) [OF Some _ _ clean] Some by (simp add: excise.simps [of v] split: option.split)
  qed
qed

lemma SanitizeString_excise: "SanitizeString v = excise v"
proof (cases "Index v pemBegin")
  case (Some i)
  note clean = SanitizeString_prefix [OF Index_take_None [OF Some]]
  show ?thesis using Some clean
    by (simp add: SanitizeString.simps [of v] excise.simps [of v] Let_def split: option.splits)
qed (simp add: SanitizeString.simps excise.simps)

lemma excise_clean: "Index (excise v) pemBegin = None"
proof (induction v rule: excise.induct)
  case (1 v)
  show ?case
  proof (cases "Index v pemBegin")
    case (Some i)
    have tail: "Index (take i v @ redactedPlaceholder @ r) pemBegin = None"
      if "Index r pemBegin = None" for r
      using Index_after_placeholder [OF Index_take_None [OF Some], of r] that by simp
    have nil: "Index [] pemBegin = None" by simp
    show ?thesis
    proof (cases "Index (drop i v) pemEnd")
      case None
      then show ?thesis using Some tail [OF nil] by (simp add: excise.simps [of v])
    next
      case (Some e)
      note e = this
      show ?thesis
      proof (cases "Index (drop (i + e) v) [CHR 0x0A]")
        case None
        then show ?thesis using \<open>Index v _ = _\<close> e tail [OF nil] by (simp add: excise.simps [of v])
      next
        case (Some n)
        then show ?thesis
          using \<open>Index v _ = _\<close> e tail [OF 1 [OF \<open>Index v _ = _\<close> e Some]] by (simp add: excise.simps [of v])
      qed
    qed
  qed (simp add: excise.simps [of v])
qed

lemma SanitizeString_clean: "\<not> Contains (SanitizeString v) pemBegin"
  by (simp add: Contains_def SanitizeString_excise excise_clean)

lemma SanitizeString_id: "\<not> Contains v pemBegin \<Longrightarrow> SanitizeString v = v"
  by (simp add: Contains_def SanitizeString.simps)

lemma SanitizeString_idem: "SanitizeString (SanitizeString v) = SanitizeString v"
  by (rule SanitizeString_id [OF SanitizeString_clean])

subsection \<open>Maps and arbitrary values\<close>

definition SanitizeMap :: "Sanitizer \<Rightarrow> string gomap \<Rightarrow> string gomap" where
  "SanitizeMap s m =
     fold (\<lambda>(k, v) out. if ShouldRedact s k then gomap_put k redactedPlaceholder out
                        else gomap_put k (SanitizeString v) out) m []"

text \<open>
  A value as \<^verbatim>\<open>reflect\<close> presents it: a map's keys in their \<^verbatim>\<open>fmt.Sprint\<close> form, a struct's fields
  with Go name, \<^verbatim>\<open>json\<close> tag (empty when absent) and whether exported, a pointer or interface that
  may be nil, and every kind the sanitizer returns unchanged (\<open>VOther\<close>, with its printed form).
\<close>

record struct_field =
  sf_name :: string
  sf_tag :: string
  sf_exported :: bool

datatype goval =
    VNil
  | VMap "(string \<times> goval) list"
  | VSlice "goval list"
  | VPtr "goval option"
  | VStruct "(struct_field \<times> goval) list"
  | VString string
  | VOther string

definition field_key :: "string \<Rightarrow> string \<Rightarrow> string" where
  "field_key name tag0 =
     (let tag = takeWhile (\<lambda>c. c \<noteq> CHR '','') tag0 in
      if tag0 \<noteq> [] \<and> tag \<noteq> [] \<and> tag \<noteq> ''-'' then tag else name)"

fun SanitizeAny :: "Sanitizer \<Rightarrow> goval \<Rightarrow> goval" where
  "SanitizeAny s VNil = VNil"
| "SanitizeAny s (VMap kvs) =
     VMap (fold (\<lambda>(k, v) out. gomap_put k v out)
       (map (\<lambda>(k, v). (k, if ShouldRedact s k then VString redactedPlaceholder else SanitizeAny s v)) kvs) [])"
| "SanitizeAny s (VSlice vs) = VSlice (map (SanitizeAny s) vs)"
| "SanitizeAny s (VPtr p) = (case p of None \<Rightarrow> VNil | Some v \<Rightarrow> SanitizeAny s v)"
| "SanitizeAny s (VStruct fs) =
     VMap (fold (\<lambda>(k, v) out. gomap_put k v out)
       (map (\<lambda>(f, v). (field_key (sf_name f) (sf_tag f),
               if ShouldRedact s (field_key (sf_name f) (sf_tag f)) \<or> ShouldRedact s (sf_name f)
               then VString redactedPlaceholder else SanitizeAny s v))
            (filter (\<lambda>(f, v). sf_exported f) fs)) [])"
| "SanitizeAny s (VString v) = VString (SanitizeString v)"
| "SanitizeAny s (VOther v) = VOther v"

definition SanitizeJSONString :: "Sanitizer \<Rightarrow> (goval \<Rightarrow> gerror + string) \<Rightarrow> goval \<Rightarrow> string" where
  "SanitizeJSONString s Marshal v =
     (case Marshal (SanitizeAny s v) of Inl err \<Rightarrow> redactedPlaceholder | Inr b \<Rightarrow> b)"

text \<open>
  \<open>clean s v\<close>: no redactable key of \<open>v\<close> keeps its value, and no string in \<open>v\<close> outside the values
  that were not strings holds a PEM header, at any depth.
\<close>

fun clean :: "Sanitizer \<Rightarrow> goval \<Rightarrow> bool" where
  "clean s (VMap kvs) =
     list_all (\<lambda>(k, v). (if ShouldRedact s k then v = VString redactedPlaceholder else clean s v)) kvs"
| "clean s (VSlice vs) = list_all (clean s) vs"
| "clean s (VString v) = (\<not> Contains v pemBegin)"
| "clean s VNil = True"
| "clean s (VOther v) = True"
| "clean s (VPtr p) = False"
| "clean s (VStruct fs) = False"

lemma gomap_put_all: "list_all P m \<Longrightarrow> P (k, v) \<Longrightarrow> list_all P (gomap_put k v m)"
  by (induction k v m rule: gomap_put.induct) auto

lemma fold_put_all:
  "list_all P kvs \<Longrightarrow> list_all P m \<Longrightarrow> list_all P (fold (\<lambda>(k, v) out. gomap_put k v out) kvs m)"
  by (induction kvs arbitrary: m) (auto intro: gomap_put_all)

lemma placeholder_clean: "\<not> Contains redactedPlaceholder pemBegin"
  by code_simp

lemma SanitizeAny_clean: "clean s (SanitizeAny s v)"
proof (induction s v rule: SanitizeAny.induct)
  case (2 s kvs)
  show ?case unfolding SanitizeAny.simps clean.simps
    by (rule fold_put_all) (use 2 in \<open>auto simp: list_all_iff\<close>)
next
  case (5 s fs)
  show ?case unfolding SanitizeAny.simps clean.simps
    by (rule fold_put_all) (use 5 placeholder_clean in \<open>auto simp: list_all_iff\<close>)
qed (auto simp: list_all_iff SanitizeString_clean split: option.splits)

lemma Default_redacted: "k \<in> set (DefaultRedactFields @ extra) \<Longrightarrow> ShouldRedact (NewSanitizer lowerU extra) k"
  by (auto simp: ShouldRedact_def NewSanitizer_def)

text \<open>
  The sanitizing loop terminates on every string, returns exactly
  what one left-to-right pass that drops each block from its PEM header through the line of its
  footer (or to the end when the block is not closed) would return, and leaves no PEM header.
\<close>

theorem sanitize_string_excises_pem:
  "SanitizeString v = excise v \<and> \<not> Contains (SanitizeString v) pemBegin
   \<and> (\<not> Contains v pemBegin \<longrightarrow> SanitizeString v = v)"
  using SanitizeString_excise SanitizeString_clean SanitizeString_id by blast

theorem sanitize_string_excises_pem_witness:
  "SanitizeString (''tls: -----BEGIN KEY-----abc-----END KEY-----'' @ [CHR 0x0A] @ ''retry'') = ''tls: [REDACTED]retry''
   \<and> SanitizeString ''plain'' = ''plain''"
proof
  have "excise (''tls: -----BEGIN KEY-----abc-----END KEY-----'' @ [CHR 0x0A] @ ''retry'') = ''tls: [REDACTED]retry''"
    by code_simp
  then show "SanitizeString (''tls: -----BEGIN KEY-----abc-----END KEY-----'' @ [CHR 0x0A] @ ''retry'')
      = ''tls: [REDACTED]retry''"
    using sanitize_string_excises_pem by metis
  have "\<not> Contains ''plain'' pemBegin" by code_simp
  then show "SanitizeString ''plain'' = ''plain''" using sanitize_string_excises_pem by metis
qed


end
