(* ===== verification/Audit_Log.thy ===== *)
theory Audit_Log
  imports Sanitize
begin

text \<open>
  \<^verbatim>\<open>internal/audit\<close> (audit.go, jsonl.go): audit events and the JSONL writer with size-based
  rotation. A log file is its size and the list of complete event lines in it; slot 0 is the
  configured path, slot \<open>k\<close> the rotated file \<^verbatim>\<open><path>.k\<close>. Every system call takes the next tick
  of the writer's state and fails when \<open>ae_fail\<close> says so; the encoded length of an event is
  \<open>ae_size\<close>.

  Two details of the standard library that decide what happens after a failure are modelled:
  a \<^verbatim>\<open>json.Encoder\<close> remembers the first write error and returns it ever after, and a file whose
  \<^verbatim>\<open>Close\<close> was called accepts no more writes, whether or not \<^verbatim>\<open>Close\<close> reported an error.
\<close>

subsection \<open>Events (audit.go)\<close>

datatype Outcome = OutcomeSuccess | OutcomeBlocked | OutcomeError | OutcomeAttempt

record Event =
  ev_Timestamp :: int
  ev_Tool :: string
  ev_Outcome :: Outcome
  ev_Reason :: string
  ev_ClientID :: string
  ev_FlowID :: string
  ev_HuntID :: string
  ev_Artifact :: string
  ev_Profile :: string
  ev_IOCKind :: string
  ev_IOCValue :: string
  ev_CaseID :: string
  ev_RequestReason :: string
  ev_ApprovalID :: string
  ev_DurationMS :: int
  ev_RowCount :: int
  ev_ByteCount :: int

definition zeroEvent :: Event where
  "zeroEvent = \<lparr>ev_Timestamp = 0, ev_Tool = [], ev_Outcome = OutcomeSuccess, ev_Reason = [], ev_ClientID = [],
     ev_FlowID = [], ev_HuntID = [], ev_Artifact = [], ev_Profile = [], ev_IOCKind = [], ev_IOCValue = [],
     ev_CaseID = [], ev_RequestReason = [], ev_ApprovalID = [], ev_DurationMS = 0, ev_RowCount = 0,
     ev_ByteCount = 0\<rparr>"

subsection \<open>The JSONL writer (jsonl.go)\<close>

record RotationConfig =
  ro_MaxSizeBytes :: int
  ro_MaxFiles :: int

record logfile =
  lf_bytes :: int
  lf_events :: "Event list"

record JSONLWriter =
  jw_rotation :: RotationConfig
  jw_open :: bool
  jw_encErr :: "gerror option"
  jw_files :: "nat \<rightharpoonup> logfile"
  jw_tick :: nat

record audit_env =
  ae_fail :: "nat \<Rightarrow> gerror option"
  ae_size :: "Event \<Rightarrow> int"
  ae_partial :: "nat \<Rightarrow> nat"

definition empty_log :: logfile where
  "empty_log = \<lparr>lf_bytes = 0, lf_events = []\<rparr>"

definition aio :: "audit_env \<Rightarrow> JSONLWriter \<Rightarrow> JSONLWriter \<times> gerror option" where
  "aio env w = (w\<lparr>jw_tick := Suc (jw_tick w)\<rparr>, ae_fail env (jw_tick w))"

text \<open>Opening with \<^verbatim>\<open>O_APPEND|O_CREATE\<close> keeps an existing file.\<close>

definition open_path :: "(nat \<rightharpoonup> logfile) \<Rightarrow> nat \<rightharpoonup> logfile" where
  "open_path files = (if files 0 = None then files(0 \<mapsto> empty_log) else files)"

definition NewJSONLWriterWithRotation ::
  "audit_env \<Rightarrow> string \<Rightarrow> RotationConfig \<Rightarrow> (nat \<rightharpoonup> logfile) \<Rightarrow> gerror + JSONLWriter" where
  "NewJSONLWriterWithRotation env path rc files =
     (case ae_fail env 0 of
        Some e \<Rightarrow> Inl (Errorf [Lit (''audit: open '' @ path @ '': ''), Wrap e])
      | None \<Rightarrow> Inr \<lparr>jw_rotation = rc, jw_open = True, jw_encErr = None,
                      jw_files = open_path files, jw_tick = 1\<rparr>)"

definition NewJSONLWriter :: "audit_env \<Rightarrow> string \<Rightarrow> (nat \<rightharpoonup> logfile) \<Rightarrow> gerror + JSONLWriter" where
  "NewJSONLWriter env path files =
     NewJSONLWriterWithRotation env path \<lparr>ro_MaxSizeBytes = 0, ro_MaxFiles = 0\<rparr> files"

text \<open>\<^verbatim>\<open>os.Rename\<close> with its error ignored: nothing happens when it fails or the source is missing.\<close>

definition try_rename :: "audit_env \<Rightarrow> nat \<Rightarrow> nat \<Rightarrow> JSONLWriter \<Rightarrow> JSONLWriter" where
  "try_rename env src dst w =
     (case aio env w of (w', r) \<Rightarrow>
        (case (r, jw_files w' src) of
           (None, Some f) \<Rightarrow> w'\<lparr>jw_files := (jw_files w')(src := None, dst \<mapsto> f)\<rparr>
         | _ \<Rightarrow> w'))"

text \<open>The loop from \<open>i\<close> down to 1.\<close>

fun shift_rotations :: "audit_env \<Rightarrow> nat \<Rightarrow> JSONLWriter \<Rightarrow> JSONLWriter" where
  "shift_rotations env 0 w = w"
| "shift_rotations env (Suc i) w = shift_rotations env i (try_rename env (Suc i) (Suc (Suc i)) w)"

definition max_files :: "RotationConfig \<Rightarrow> nat" where
  "max_files rc = (if ro_MaxFiles rc \<le> 0 then 5 else nat (ro_MaxFiles rc))"

definition rotateLocked :: "audit_env \<Rightarrow> JSONLWriter \<Rightarrow> JSONLWriter" where
  "rotateLocked env w =
     (case aio env w of
        (w1, Some e) \<Rightarrow> w1\<lparr>jw_open := False\<rparr>
      | (w1, None) \<Rightarrow>
          let w2 = w1\<lparr>jw_open := False\<rparr>;
              w3 = shift_rotations env (max_files (jw_rotation w) - 1) w2;
              w4 = try_rename env 0 1 w3
          in case aio env w4 of
               (w5, Some e) \<Rightarrow> w5
             | (w5, None) \<Rightarrow> w5\<lparr>jw_open := True, jw_encErr := None, jw_files := open_path (jw_files w5)\<rparr>)"

definition append_event :: "audit_env \<Rightarrow> Event \<Rightarrow> JSONLWriter \<Rightarrow> JSONLWriter" where
  "append_event env evt w =
     (let f = (case jw_files w 0 of Some f \<Rightarrow> f | None \<Rightarrow> empty_log) in
      w\<lparr>jw_files := (jw_files w)(0 \<mapsto> \<lparr>lf_bytes = lf_bytes f + ae_size env evt, lf_events = lf_events f @ [evt]\<rparr>)\<rparr>)"

text \<open>A failed write may leave part of a line behind: bytes, but no event.\<close>

definition append_partial :: "nat \<Rightarrow> JSONLWriter \<Rightarrow> JSONLWriter" where
  "append_partial n w =
     w\<lparr>jw_files := (case jw_files w 0 of
        Some f \<Rightarrow> (jw_files w)(0 \<mapsto> f\<lparr>lf_bytes := lf_bytes f + int n\<rparr>) | None \<Rightarrow> jw_files w)\<rparr>"

definition errClosed :: gerror where
  "errClosed = errorf ''file already closed''"

definition Encode :: "audit_env \<Rightarrow> Event \<Rightarrow> JSONLWriter \<Rightarrow> JSONLWriter \<times> gerror option" where
  "Encode env evt w =
     (case jw_encErr w of
        Some e \<Rightarrow> (w, Some e)
      | None \<Rightarrow>
          if \<not> jw_open w then (w\<lparr>jw_encErr := Some errClosed\<rparr>, Some errClosed)
          else (case aio env w of
                  (w', Some e) \<Rightarrow> ((append_partial (ae_partial env (jw_tick w)) w')\<lparr>jw_encErr := Some e\<rparr>, Some e)
                | (w', None) \<Rightarrow> (append_event env evt w', None)))"

definition JSONLWriter_Write :: "audit_env \<Rightarrow> Event \<Rightarrow> JSONLWriter \<Rightarrow> JSONLWriter \<times> gerror option" where
  "JSONLWriter_Write env evt w =
     (case Encode env evt w of
        (w1, Some e) \<Rightarrow> (w1, Some (Errorf [Lit ''audit: write event: '', Wrap e]))
      | (w1, None) \<Rightarrow>
          if ro_MaxSizeBytes (jw_rotation w1) > 0 then
            (case aio env w1 of
               (w2, Some e) \<Rightarrow> (w2, None)
             | (w2, None) \<Rightarrow>
                 if (case jw_files w2 0 of Some f \<Rightarrow> lf_bytes f | None \<Rightarrow> 0) > ro_MaxSizeBytes (jw_rotation w2)
                 then (rotateLocked env w2, None) else (w2, None))
          else (w1, None))"

definition JSONLWriter_Close :: "audit_env \<Rightarrow> JSONLWriter \<Rightarrow> JSONLWriter \<times> gerror option" where
  "JSONLWriter_Close env w =
     (if \<not> jw_open w then (w, Some errClosed)
      else case aio env w of (w', r) \<Rightarrow> (w'\<lparr>jw_open := False\<rparr>, r))"

text \<open>The interface \<^verbatim>\<open>Sink\<close> and its two implementations.\<close>

datatype Sink = Jsonl JSONLWriter | NopSink

definition Sink_Write :: "audit_env \<Rightarrow> Event \<Rightarrow> Sink \<Rightarrow> Sink \<times> gerror option" where
  "Sink_Write env evt s =
     (case s of
        Jsonl w \<Rightarrow> (case JSONLWriter_Write env evt w of (w', r) \<Rightarrow> (Jsonl w', r))
      | NopSink \<Rightarrow> (NopSink, None))"

definition Sink_Close :: "audit_env \<Rightarrow> Sink \<Rightarrow> Sink \<times> gerror option" where
  "Sink_Close env s =
     (case s of
        Jsonl w \<Rightarrow> (case JSONLWriter_Close env w of (w', r) \<Rightarrow> (Jsonl w', r))
      | NopSink \<Rightarrow> (NopSink, None))"

subsection \<open>A recorded event is kept\<close>

definition ends_with :: "Event \<Rightarrow> logfile option \<Rightarrow> bool" where
  "ends_with evt f \<longleftrightarrow> (\<exists>b es. f = Some \<lparr>lf_bytes = b, lf_events = es @ [evt]\<rparr>)"

lemma aio_eq: "aio env w = (w', r) \<Longrightarrow> w' = w\<lparr>jw_tick := Suc (jw_tick w)\<rparr> \<and> r = ae_fail env (jw_tick w)"
  by (simp add: aio_def)

lemma try_rename_files:
  "jw_files (try_rename env src dst w) = jw_files w \<or>
   (\<exists>f. jw_files w src = Some f \<and> jw_files (try_rename env src dst w) = (jw_files w)(src := None, dst \<mapsto> f))"
  by (auto simp: try_rename_def aio_def split: option.splits)

lemma try_rename_frame [simp]:
  "jw_open (try_rename env src dst w) = jw_open w" "jw_encErr (try_rename env src dst w) = jw_encErr w"
  "jw_rotation (try_rename env src dst w) = jw_rotation w"
  by (auto simp: try_rename_def aio_def split: option.splits)

lemma shift_frame [simp]:
  "jw_open (shift_rotations env i w) = jw_open w" "jw_encErr (shift_rotations env i w) = jw_encErr w"
  "jw_rotation (shift_rotations env i w) = jw_rotation w"
  by (induction env i w rule: shift_rotations.induct) auto

lemma shift_keeps_current: "jw_files (shift_rotations env i w) 0 = jw_files w 0"
proof (induction env i w rule: shift_rotations.induct)
  case (2 env i w)
  then show ?case using try_rename_files [of env "Suc i" "Suc (Suc i)" w] by auto
qed simp

lemma open_path_keeps: "ends_with evt (files k) \<Longrightarrow> ends_with evt (open_path files k)"
  by (auto simp: open_path_def ends_with_def)

text \<open>The writer after the renames of a rotation whose \<^verbatim>\<open>Close\<close> succeeded.\<close>

definition renamed :: "audit_env \<Rightarrow> JSONLWriter \<Rightarrow> JSONLWriter" where
  "renamed env w = try_rename env 0 1
     (shift_rotations env (max_files (jw_rotation w) - 1) (w\<lparr>jw_tick := Suc (jw_tick w), jw_open := False\<rparr>))"

lemma rotateLocked_files:
  "jw_files (rotateLocked env w) \<in> {jw_files w, jw_files (renamed env w), open_path (jw_files (renamed env w))}
   \<and> jw_rotation (rotateLocked env w) = jw_rotation w"
  by (simp add: rotateLocked_def aio_def renamed_def Let_def split: option.splits)

lemma rotate_keeps:
  assumes "ends_with evt (jw_files w 0)"
  shows "ends_with evt (jw_files (rotateLocked env w) 0) \<or> ends_with evt (jw_files (rotateLocked env w) 1)"
proof -
  let ?w3 = "shift_rotations env (max_files (jw_rotation w) - 1) (w\<lparr>jw_tick := Suc (jw_tick w), jw_open := False\<rparr>)"
  have "ends_with evt (jw_files ?w3 0)" using assms by (simp add: shift_keeps_current)
  then have "ends_with evt (jw_files (renamed env w) 0) \<or> ends_with evt (jw_files (renamed env w) 1)"
    using try_rename_files [of env 0 1 ?w3] by (auto simp: renamed_def ends_with_def)
  then show ?thesis using rotateLocked_files [of env w] assms open_path_keeps by auto
qed

lemma append_event_ends: "ends_with evt (jw_files (append_event env evt w) 0)"
  by (simp add: append_event_def ends_with_def Let_def)

lemma Encode_ok: "Encode env evt w = (w', None) \<Longrightarrow> ends_with evt (jw_files w' 0)"
  by (auto simp: Encode_def append_event_ends split: option.splits if_splits prod.splits)

lemma Write_ok_kept:
  assumes "JSONLWriter_Write env evt w = (w', None)"
  shows "ends_with evt (jw_files w' 0) \<or> ends_with evt (jw_files w' 1)"
proof -
  obtain w1 where enc: "Encode env evt w = (w1, None)"
    using assms by (auto simp: JSONLWriter_Write_def split: prod.splits option.splits)
  note e1 = Encode_ok [OF enc]
  have "w' = w1 \<or> w' = fst (aio env w1) \<or> w' = rotateLocked env (fst (aio env w1))"
    using assms enc by (auto simp: JSONLWriter_Write_def split: prod.splits option.splits if_splits)
  then show ?thesis using e1 rotate_keeps [of evt "fst (aio env w1)" env] by (auto simp: aio_def)
qed

subsection \<open>Bounded footprint\<close>

definition none_above :: "nat \<Rightarrow> (nat \<rightharpoonup> logfile) \<Rightarrow> bool" where
  "none_above M files \<longleftrightarrow> (\<forall>k > M. files k = None)"

definition bounded_log :: "JSONLWriter \<Rightarrow> bool" where
  "bounded_log w \<longleftrightarrow> none_above (max_files (jw_rotation w)) (jw_files w)"

lemma max_files_pos: "1 \<le> max_files rc"
  by (auto simp: max_files_def)

lemma try_rename_above:
  "none_above M (jw_files w) \<Longrightarrow> dst \<le> M \<Longrightarrow> none_above M (jw_files (try_rename env src dst w))"
  using try_rename_files [of env src dst w] by (auto simp: none_above_def)

lemma shift_above:
  "none_above M (jw_files w) \<Longrightarrow> Suc i \<le> M \<Longrightarrow> none_above M (jw_files (shift_rotations env i w))"
  by (induction env i w rule: shift_rotations.induct) (auto intro: try_rename_above)

lemma open_path_above: "none_above M files \<Longrightarrow> none_above M (open_path files)"
  by (simp add: open_path_def none_above_def)

lemma renamed_above:
  "bounded_log w \<Longrightarrow> none_above (max_files (jw_rotation w)) (jw_files (renamed env w))"
  using max_files_pos [of "jw_rotation w"] unfolding renamed_def bounded_log_def
  by (intro try_rename_above shift_above) auto

lemma rotate_bounded: "bounded_log w \<Longrightarrow> bounded_log (rotateLocked env w)"
  using rotateLocked_files [of env w] renamed_above [of w env] open_path_above
  by (auto simp: bounded_log_def)

lemma Encode_bounded: "bounded_log w \<Longrightarrow> Encode env evt w = (w', r) \<Longrightarrow> bounded_log w'"
  by (auto simp: Encode_def bounded_log_def none_above_def aio_def append_event_def append_partial_def Let_def
           split: option.splits if_splits)

lemma aio_bounded: "bounded_log w \<Longrightarrow> aio env w = (w', r) \<Longrightarrow> bounded_log w'"
  by (auto simp: aio_def bounded_log_def)

lemma Write_bounded:
  "bounded_log w \<Longrightarrow> JSONLWriter_Write env evt w = (w', r) \<Longrightarrow> bounded_log w'"
  by (auto simp: JSONLWriter_Write_def split: prod.splits option.splits if_splits
           intro: rotate_bounded dest: Encode_bounded aio_bounded)

subsection \<open>After a failure\<close>

definition broken :: "JSONLWriter \<Rightarrow> bool" where
  "broken w \<longleftrightarrow> jw_encErr w \<noteq> None \<or> \<not> jw_open w"

lemma Write_broken:
  assumes "broken w"
  shows "\<exists>w' e. JSONLWriter_Write env evt w = (w', Some e) \<and> broken w' \<and> jw_files w' = jw_files w"
  using assms by (auto simp: JSONLWriter_Write_def Encode_def broken_def split: option.splits)

lemma Write_fail_broken:
  "JSONLWriter_Write env evt w = (w', Some e) \<Longrightarrow> broken w'"
  by (auto simp: JSONLWriter_Write_def Encode_def broken_def split: prod.splits option.splits if_splits)

fun write_all :: "audit_env \<Rightarrow> Event list \<Rightarrow> JSONLWriter \<Rightarrow> JSONLWriter \<times> gerror option list" where
  "write_all env [] w = (w, [])"
| "write_all env (e # es) w =
     (case JSONLWriter_Write env e w of (w', r) \<Rightarrow>
       (case write_all env es w' of (w'', rs) \<Rightarrow> (w'', r # rs)))"

lemma write_all_broken:
  "broken w \<Longrightarrow> jw_files (fst (write_all env es w)) = jw_files w \<and> list_all (\<lambda>r. r \<noteq> None) (snd (write_all env es w))"
proof (induction es arbitrary: w)
  case (Cons e es)
  obtain w' err where w': "JSONLWriter_Write env e w = (w', Some err)" "broken w'" "jw_files w' = jw_files w"
    using Write_broken [OF Cons.prems] by blast
  then show ?case using Cons.IH [OF w'(2)] by (cases "write_all env es w'") simp
qed simp

lemma write_all_bounded: "bounded_log w \<Longrightarrow> bounded_log (fst (write_all env es w))"
proof (induction es arbitrary: w)
  case (Cons e es)
  obtain w' r where "JSONLWriter_Write env e w = (w', r)" by fastforce
  then show ?case using Cons.IH [of w'] Write_bounded [OF Cons.prems]
    by (cases "write_all env es w'") simp
qed simp

subsection \<open>Rotation without failures\<close>

lemma shift_untouched: "k > Suc i \<Longrightarrow> jw_files (shift_rotations env i w) k = jw_files w k"
proof (induction env i w rule: shift_rotations.induct)
  case (2 env i w)
  then show ?case using try_rename_files [of env "Suc i" "Suc (Suc i)" w] by auto
qed simp

lemma try_rename_quiet:
  "\<forall>t. ae_fail env t = None \<Longrightarrow> jw_files w src = Some f \<Longrightarrow>
   jw_files (try_rename env src dst w) = (jw_files w)(src := None, dst \<mapsto> f)"
  by (simp add: try_rename_def aio_def)

lemma shift_quiet:
  assumes "\<forall>t. ae_fail env t = None"
  shows "1 \<le> k \<Longrightarrow> k \<le> i \<Longrightarrow> jw_files w k = Some f \<Longrightarrow> jw_files (shift_rotations env i w) (Suc k) = Some f"
proof (induction i arbitrary: w)
  case (Suc i)
  let ?w = "try_rename env (Suc i) (Suc (Suc i)) w"
  show ?case
  proof (cases "k = Suc i")
    case True
    then show ?thesis using Suc.prems try_rename_quiet [OF assms, of w "Suc i" f "Suc (Suc i)"]
      by (simp add: shift_untouched)
  next
    case False
    then have "jw_files ?w k = Some f"
      using Suc.prems try_rename_files [of env "Suc i" "Suc (Suc i)" w] by auto
    then show ?thesis using Suc.IH [of ?w] Suc.prems False by simp
  qed
qed simp

lemma rotate_quiet:
  assumes q: "\<forall>t. ae_fail env t = None" and cur: "jw_files w 0 = Some c"
  shows "jw_files (rotateLocked env w) 0 = Some empty_log \<and> \<not> broken (rotateLocked env w)
    \<and> (\<forall>k f. k < max_files (jw_rotation w) \<longrightarrow> jw_files w k = Some f \<longrightarrow> jw_files (rotateLocked env w) (Suc k) = Some f)"
proof -
  let ?M = "max_files (jw_rotation w)"
  let ?w2 = "w\<lparr>jw_tick := Suc (jw_tick w), jw_open := False\<rparr>"
  let ?w3 = "shift_rotations env (?M - 1) ?w2"
  have c3: "jw_files ?w3 0 = Some c" using cur by (simp add: shift_keeps_current)
  have ren: "jw_files (renamed env w) = (jw_files ?w3)(0 := None, 1 \<mapsto> c)"
    unfolding renamed_def by (rule try_rename_quiet [OF q c3])
  have eq: "rotateLocked env w = (renamed env w)\<lparr>jw_tick := Suc (jw_tick (renamed env w)),
      jw_open := True, jw_encErr := None, jw_files := open_path (jw_files (renamed env w))\<rparr>"
    using q by (simp add: rotateLocked_def aio_def renamed_def Let_def)
  have op: "open_path (jw_files (renamed env w)) = (jw_files ?w3)(0 \<mapsto> empty_log, 1 \<mapsto> c)"
    unfolding open_path_def ren by (auto simp: fun_upd_twist)
  have "((jw_files ?w3)(0 \<mapsto> empty_log, 1 \<mapsto> c)) (Suc k) = Some f"
    if "k < ?M" "jw_files w k = Some f" for k f
  proof (cases k)
    case 0
    then show ?thesis using that cur by simp
  next
    case (Suc j)
    then show ?thesis using shift_quiet [OF q, of k "?M - 1" ?w2 f] that by simp
  qed
  then show ?thesis unfolding eq using op by (simp add: broken_def)
qed

text \<open>
  When the audit writer reports success, the event is the last line of the
  current log file or, if this write triggered a rotation, of the first rotated file, whatever
  system calls of the rotation failed.
\<close>

theorem audit_write_kept:
  assumes "JSONLWriter_Write env evt w = (w', None)"
  shows "\<exists>k \<in> {0, 1}. \<exists>b es. jw_files w' k = Some \<lparr>lf_bytes = b, lf_events = es @ [evt]\<rparr>"
  using Write_ok_kept [OF assms] by (auto simp: ends_with_def)

definition calm_audit :: audit_env where
  "calm_audit = \<lparr>ae_fail = (\<lambda>t. None), ae_size = (\<lambda>e. 300), ae_partial = (\<lambda>t. 0)\<rparr>"

definition sample_writer :: JSONLWriter where
  "sample_writer = \<lparr>jw_rotation = \<lparr>ro_MaxSizeBytes = 100, ro_MaxFiles = 2\<rparr>, jw_open = True, jw_encErr = None,
     jw_files = [0 \<mapsto> empty_log], jw_tick = 0\<rparr>"

lemma sample_writer_ok: "\<exists>w'. JSONLWriter_Write calm_audit zeroEvent sample_writer = (w', None)"
  by (simp add: JSONLWriter_Write_def Encode_def sample_writer_def aio_def calm_audit_def append_event_def
      empty_log_def)

theorem audit_write_kept_witness:
  "\<exists>w'. JSONLWriter_Write calm_audit zeroEvent sample_writer = (w', None) \<and>
     (\<exists>k \<in> {0, 1}. \<exists>b es. jw_files w' k = Some \<lparr>lf_bytes = b, lf_events = es @ [zeroEvent]\<rparr>)"
  using sample_writer_ok audit_write_kept by blast




definition full_disk :: audit_env where
  "full_disk = \<lparr>ae_fail = (\<lambda>t. if t = 0 then Some (errorf ''no space left on device'') else None),
     ae_size = (\<lambda>e. 300), ae_partial = (\<lambda>t. 0)\<rparr>"

lemma full_disk_fails: "\<exists>w' e. JSONLWriter_Write full_disk zeroEvent sample_writer = (w', Some e)"
  by (simp add: JSONLWriter_Write_def Encode_def sample_writer_def aio_def full_disk_def)


text \<open>
  A rotation in which no system call fails shifts every retained file
  one slot up, drops only the oldest, and leaves the writer open on an empty current file.
\<close>

theorem rotation_shifts:
  assumes "\<forall>t. ae_fail env t = None" and "jw_files w 0 = Some c"
  shows "jw_files (rotateLocked env w) 0 = Some empty_log \<and> jw_open (rotateLocked env w)
    \<and> (\<forall>k < max_files (jw_rotation w). jw_files w k \<noteq> None \<longrightarrow> jw_files (rotateLocked env w) (Suc k) = jw_files w k)"
  using rotate_quiet [OF assms] by (auto simp: broken_def)

theorem rotation_shifts_witness:
  "jw_files (rotateLocked calm_audit sample_writer) 1 = Some empty_log"
  using rotation_shifts [of calm_audit sample_writer empty_log]
  by (auto simp: calm_audit_def sample_writer_def max_files_def)

end
