(* ===== verification/Regexp.thy ===== *)
theory Regexp
  imports Prelude
begin

text \<open>
  The fragment of Go's \<^verbatim>\<open>regexp\<close> package that \<^verbatim>\<open>internal/validation\<close> uses: character
  classes, concatenation, alternation (for the \<^verbatim>\<open>?\<close> operator), repetition and bounded
  repetition, always anchored at both ends. Without the \<^verbatim>\<open>m\<close> flag, \<^verbatim>\<open>^\<close> and \<^verbatim>\<open>$\<close> match only
  at the beginning and the end of the text, so an anchored \<^verbatim>\<open>MatchString\<close> is a match of the
  whole string. Every class of the patterns is ASCII: a byte of a multi-byte UTF-8 sequence is
  in none of them, so matching bytes and matching runes agree.

  \<open>re_matches\<close> is the meaning of a pattern (an inductive predicate), \<open>MatchString\<close> the executable
  matcher (Brzozowski derivatives with bounded repetition as a constructor of its own, so
  that a repetition such as \<^verbatim>\<open>{0,254}\<close> is not unfolded), and \<open>MatchString_iff\<close> their equivalence.
\<close>

datatype re =
    Zero
  | One
  | Cls "(char \<times> char) list"
  | Seq re re
  | Alt re re
  | Star re
  | Rep nat nat re

definition in_range :: "char \<Rightarrow> char \<times> char \<Rightarrow> bool" where
  "in_range c lh \<longleftrightarrow> (of_char (fst lh) :: nat) \<le> of_char c \<and> (of_char c :: nat) \<le> of_char (snd lh)"

definition in_cls :: "char \<Rightarrow> (char \<times> char) list \<Rightarrow> bool" where
  "in_cls c rs \<longleftrightarrow> list_ex (in_range c) rs"

abbreviation Opt :: "re \<Rightarrow> re" where "Opt r \<equiv> Alt One r"
abbreviation Plus :: "re \<Rightarrow> re" where "Plus r \<equiv> Seq r (Star r)"
abbreviation Chr :: "char \<Rightarrow> re" where "Chr c \<equiv> Cls [(c, c)]"
abbreviation Times :: "nat \<Rightarrow> re \<Rightarrow> re" where "Times n r \<equiv> Rep n n r"

inductive re_matches :: "re \<Rightarrow> string \<Rightarrow> bool" where
  One: "re_matches One []"
| Cls: "in_cls c rs \<Longrightarrow> re_matches (Cls rs) [c]"
| Seq: "re_matches r s \<Longrightarrow> re_matches q t \<Longrightarrow> re_matches (Seq r q) (s @ t)"
| AltL: "re_matches r s \<Longrightarrow> re_matches (Alt r q) s"
| AltR: "re_matches q s \<Longrightarrow> re_matches (Alt r q) s"
| Star0: "re_matches (Star r) []"
| StarS: "re_matches r s \<Longrightarrow> re_matches (Star r) t \<Longrightarrow> re_matches (Star r) (s @ t)"
| Rep0: "re_matches (Rep 0 n r) []"
| RepS: "re_matches r s \<Longrightarrow> re_matches (Rep (m - 1) n r) t \<Longrightarrow> re_matches (Rep m (Suc n) r) (s @ t)"

inductive_simps re_matches_Zero [simp]: "re_matches Zero s"
inductive_simps re_matches_One [simp]: "re_matches One s"
inductive_simps re_matches_Cls: "re_matches (Cls rs) s"
inductive_simps re_matches_Seq: "re_matches (Seq r q) s"
inductive_simps re_matches_Alt [simp]: "re_matches (Alt r q) s"
inductive_cases re_matches_StarE: "re_matches (Star r) s"
inductive_cases re_matches_RepE: "re_matches (Rep m n r) s"

fun nullable :: "re \<Rightarrow> bool" where
  "nullable Zero = False"
| "nullable One = True"
| "nullable (Cls rs) = False"
| "nullable (Seq r q) = (nullable r \<and> nullable q)"
| "nullable (Alt r q) = (nullable r \<or> nullable q)"
| "nullable (Star r) = True"
| "nullable (Rep m n r) = (m = 0 \<or> nullable r \<and> m \<le> n)"

fun mkSeq :: "re \<Rightarrow> re \<Rightarrow> re" where
  "mkSeq Zero q = Zero"
| "mkSeq One q = q"
| "mkSeq r q = Seq r q"

fun mkAlt :: "re \<Rightarrow> re \<Rightarrow> re" where
  "mkAlt Zero q = q"
| "mkAlt r Zero = r"
| "mkAlt r q = Alt r q"

fun deriv :: "char \<Rightarrow> re \<Rightarrow> re" where
  "deriv c Zero = Zero"
| "deriv c One = Zero"
| "deriv c (Cls rs) = (if in_cls c rs then One else Zero)"
| "deriv c (Seq r q) =
     (if nullable r then mkAlt (mkSeq (deriv c r) q) (deriv c q) else mkSeq (deriv c r) q)"
| "deriv c (Alt r q) = mkAlt (deriv c r) (deriv c q)"
| "deriv c (Star r) = mkSeq (deriv c r) (Star r)"
| "deriv c (Rep m n r) =
     (case n of 0 \<Rightarrow> Zero | Suc k \<Rightarrow> mkSeq (deriv c r) (Rep (m - 1) k r))"

fun MatchString :: "re \<Rightarrow> string \<Rightarrow> bool" where
  "MatchString r [] = nullable r"
| "MatchString r (c # cs) = MatchString (deriv c r) cs"

lemma re_matches_mkSeq [simp]: "re_matches (mkSeq r q) s \<longleftrightarrow> re_matches (Seq r q) s"
  by (cases "(r, q)" rule: mkSeq.cases) (auto simp: re_matches_Seq)

lemma re_matches_mkAlt [simp]: "re_matches (mkAlt r q) s \<longleftrightarrow> re_matches (Alt r q) s"
  by (cases "(r, q)" rule: mkAlt.cases) auto

lemma Rep_nil_if_nullable: "re_matches r [] \<Longrightarrow> m \<le> n \<Longrightarrow> re_matches (Rep m n r) []"
proof (induction n arbitrary: m)
  case 0
  then show ?case by (auto intro: re_matches.Rep0)
next
  case (Suc n)
  then have "re_matches (Rep (m - 1) n r) []" by simp
  with Suc.prems(1) show ?case using re_matches.RepS [of r "[]" m n "[]"] by simp
qed

lemma Rep_nilD: "re_matches (Rep m n r) [] \<Longrightarrow> m = 0 \<or> re_matches r [] \<and> m \<le> n"
proof (induction n arbitrary: m)
  case 0
  then show ?case by (auto elim: re_matches_RepE)
next
  case (Suc n)
  from Suc.prems show ?case
    by (auto elim!: re_matches_RepE dest!: Suc.IH)
qed

lemma nullable_iff: "nullable r \<longleftrightarrow> re_matches r []"
proof (induction r)
  case (Rep m n r)
  then show ?case
    by (auto intro: re_matches.Rep0 Rep_nil_if_nullable dest: Rep_nilD)
qed (auto simp: re_matches_Cls re_matches_Seq intro: re_matches.intros)

text \<open>A non-empty match of a starred or repeated pattern begins with a non-empty factor.\<close>

lemma Star_consD:
  "re_matches (Star r) (c # s) \<Longrightarrow> \<exists>u v. s = u @ v \<and> re_matches r (c # u) \<and> re_matches (Star r) v"
proof (induction "Star r" "c # s" arbitrary: s rule: re_matches.induct)
  case (StarS u v)
  then show ?case by (cases u) auto
qed

lemma Rep_consD:
  "re_matches (Rep m n r) (c # s) \<Longrightarrow>
   \<exists>u v k. n = Suc k \<and> s = u @ v \<and> re_matches r (c # u) \<and> re_matches (Rep (m - 1) k r) v"
proof (induction n arbitrary: m s)
  case 0
  then show ?case by (auto elim: re_matches_RepE)
next
  case (Suc n)
  from Suc.prems obtain x y where xy: "c # s = x @ y" "re_matches r x" "re_matches (Rep (m - 1) n r) y"
    by (auto elim: re_matches_RepE)
  show ?case
  proof (cases x)
    case Nil
    with xy Suc.IH [of "m - 1" s] obtain u v k where
      "n = Suc k" "s = u @ v" "re_matches r (c # u)" "re_matches (Rep (m - 1 - 1) k r) v"
      by auto
    with Nil xy(2) show ?thesis
      using re_matches.RepS [of r "[]" "m - 1" k v] by auto
  next
    case (Cons d u)
    with xy show ?thesis by auto
  qed
qed

lemma Star_cons_iff:
  "re_matches (Star r) (c # s) \<longleftrightarrow>
   (\<exists>u v. s = u @ v \<and> re_matches r (c # u) \<and> re_matches (Star r) v)"
  using Star_consD re_matches.StarS [of r "c # u" v for u v] by auto

lemma Rep_cons_iff:
  "re_matches (Rep m n r) (c # s) \<longleftrightarrow>
   (\<exists>u v k. n = Suc k \<and> s = u @ v \<and> re_matches r (c # u) \<and> re_matches (Rep (m - 1) k r) v)"
  using Rep_consD re_matches.RepS [of r "c # u" m k v for u k v] by auto

lemma deriv_iff: "re_matches (deriv c r) s \<longleftrightarrow> re_matches r (c # s)"
proof (induction r arbitrary: s)
  case (Seq r q)
  show ?case
    using Seq by (auto simp: re_matches_Seq nullable_iff Cons_eq_append_conv)
next
  case (Star r)
  then show ?case by (simp add: re_matches_Seq Star_cons_iff)
next
  case (Rep m n r)
  then show ?case by (cases n) (simp_all add: re_matches_Seq Rep_cons_iff)
qed (auto simp: re_matches_Cls)

theorem MatchString_iff: "MatchString r s \<longleftrightarrow> re_matches r s"
  by (induction s arbitrary: r) (auto simp: nullable_iff deriv_iff)

subsection \<open>What a match says about the characters and the length of the text\<close>

fun re_ranges :: "re \<Rightarrow> (char \<times> char) list" where
  "re_ranges Zero = []"
| "re_ranges One = []"
| "re_ranges (Cls rs) = rs"
| "re_ranges (Seq r q) = re_ranges r @ re_ranges q"
| "re_ranges (Alt r q) = re_ranges r @ re_ranges q"
| "re_ranges (Star r) = re_ranges r"
| "re_ranges (Rep m n r) = re_ranges r"

lemma in_cls_append [simp]: "in_cls c (xs @ ys) \<longleftrightarrow> in_cls c xs \<or> in_cls c ys"
  by (simp add: in_cls_def)

lemma re_matches_chars: "re_matches r s \<Longrightarrow> c \<in> set s \<Longrightarrow> in_cls c (re_ranges r)"
  by (induction rule: re_matches.induct) auto

lemma MatchString_chars: "MatchString r s \<Longrightarrow> c \<in> set s \<Longrightarrow> in_cls c (re_ranges r)"
  by (simp add: MatchString_iff re_matches_chars)

lemma Rep_Cls_iff:
  "re_matches (Rep m n (Cls rs)) s \<longleftrightarrow> m \<le> length s \<and> length s \<le> n \<and> (\<forall>c \<in> set s. in_cls c rs)"
proof (induction s arbitrary: m n)
  case Nil
  then show ?case using nullable_iff [of "Rep m n (Cls rs)"] by simp
next
  case (Cons c s)
  have "re_matches (Rep m n (Cls rs)) (c # s) \<longleftrightarrow>
    (\<exists>k. n = Suc k \<and> in_cls c rs \<and> re_matches (Rep (m - 1) k (Cls rs)) s)"
    by (auto simp: Rep_cons_iff re_matches_Cls)
  then show ?case using Cons.IH by (cases n) auto
qed

lemma Seq_Chr_iff:
  "re_matches (Seq (Chr c) r) s \<longleftrightarrow> (\<exists>t. s = c # t \<and> re_matches r t)"
proof -
  have "in_cls d [(c, c)] \<longleftrightarrow> d = c" for d
    using of_char_eq_iff [where 'a = nat, of d c] by (auto simp: in_cls_def in_range_def)
  then show ?thesis by (auto simp: re_matches_Seq re_matches_Cls)
qed

end
