(* ===== verification/Validation.thy ===== *)
theory Validation
  imports Regexp
begin

text \<open>
  \<^verbatim>\<open>internal/validation\<close>: the allowlist-style validators that every value passes before it
  reaches a Velociraptor call, an approval record or an audit line. A validator returns
  \<^const>\<open>None\<close> for Go's \<^verbatim>\<open>nil\<close> and \<open>Some e\<close> for an error. The patterns are transcribed
  literally into \<^typ>\<open>re\<close>. \<open>ParseIP\<close> follows \<^verbatim>\<open>net.ParseIP\<close> (that is \<^verbatim>\<open>netip.ParseAddr\<close> with
  zones refused) as far as the code uses it: whether the text is an address.

  The lemmas give each validator's exact meaning (\<open>ClientID_iff\<close>, \<open>HuntScope_iff\<close>, \dots) and
  the property the package exists for: an accepted value holds no character with a meaning
  in VQL, a shell or a log line (\<open>validated_safe\<close>).
\<close>

subsection \<open>Character classes\<close>

abbreviation "rAZ \<equiv> (CHR ''A'', CHR ''Z'')"
abbreviation "raz \<equiv> (CHR ''a'', CHR ''z'')"
abbreviation "r09 \<equiv> (CHR ''0'', CHR ''9'')"
abbreviation "raf \<equiv> (CHR ''a'', CHR ''f'')"
abbreviation "rAF \<equiv> (CHR ''A'', CHR ''F'')"
abbreviation "rUnderscore \<equiv> (CHR ''_'', CHR ''_'')"
abbreviation "rDash \<equiv> (CHR ''-'', CHR ''-'')"
abbreviation "rDot \<equiv> (CHR ''.'', CHR ''.'')"
abbreviation "rSpace \<equiv> (CHR '' '', CHR '' '')"
abbreviation backslash :: char where "backslash \<equiv> CHR 0x5C"

subsection \<open>Patterns (artifact.go, client\_id.go, flow\_id.go, hunt\_id.go, ioc.go, request.go)\<close>

definition artifactNamePattern :: re where
  "artifactNamePattern =
     Seq (Cls [rAZ, raz]) (Seq (Star (Cls [rAZ, raz, r09]))
       (Plus (Seq (Chr (CHR ''.'')) (Seq (Cls [rAZ, raz]) (Star (Cls [rAZ, raz, r09]))))))"

definition dfirProfileNamePattern :: re where
  "dfirProfileNamePattern = Seq (Cls [raz]) (Star (Cls [raz, r09, rUnderscore]))"

definition resultSourceNamePattern :: re where
  "resultSourceNamePattern = Seq (Cls [rAZ, raz]) (Star (Cls [rAZ, raz, r09, rUnderscore]))"

definition clientIDPattern :: re where
  "clientIDPattern = Seq (Chr (CHR ''C'')) (Seq (Chr (CHR ''.'')) (Times 16 (Cls [r09, raf])))"

definition flowIDPattern :: re where
  "flowIDPattern =
     Seq (Chr (CHR ''F'')) (Seq (Chr (CHR ''.'')) (Rep 4 128 (Cls [rAZ, raz, r09, rUnderscore, rDash])))"

definition huntIDPattern :: re where
  "huntIDPattern =
     Seq (Chr (CHR ''H'')) (Seq (Chr (CHR ''.'')) (Rep 4 128 (Cls [rAZ, raz, r09, rUnderscore, rDash])))"

definition huntLabelPattern :: re where
  "huntLabelPattern = Rep 1 128 (Cls [rAZ, raz, r09, rDot, rUnderscore, rDash])"

definition md5Pattern :: re where "md5Pattern = Times 32 (Cls [raf, rAF, r09])"
definition sha1Pattern :: re where "sha1Pattern = Times 40 (Cls [raf, rAF, r09])"
definition sha256Pattern :: re where "sha256Pattern = Times 64 (Cls [raf, rAF, r09])"

definition domainLabel :: re where
  "domainLabel =
     Seq (Cls [raz, rAZ, r09])
       (Opt (Seq (Rep 0 61 (Cls [raz, rAZ, r09, rDash])) (Cls [raz, rAZ, r09])))"

definition domainPattern :: re where
  "domainPattern = Seq domainLabel (Plus (Seq (Chr (CHR ''.'')) domainLabel))"

definition processNamePattern :: re where
  "processNamePattern =
     Seq (Cls [rAZ, raz, r09]) (Rep 0 254 (Cls [rAZ, raz, r09, rSpace, rDot, rUnderscore, rDash]))"

abbreviation "pathCls \<equiv> Cls [rAZ, raz, r09, rSpace, rDot, rUnderscore, rDash]"

definition unixPathPattern :: re where
  "unixPathPattern =
     Seq (Chr (CHR ''/'')) (Seq (Star pathCls) (Star (Seq (Chr (CHR ''/'')) (Plus pathCls))))"

definition windowsPathPattern :: re where
  "windowsPathPattern =
     Seq (Cls [rAZ, raz]) (Seq (Chr (CHR '':'')) (Seq (Chr backslash)
       (Seq (Star pathCls) (Star (Seq (Chr backslash) (Plus pathCls))))))"

definition uncPathPattern :: re where
  "uncPathPattern =
     Seq (Chr backslash) (Seq (Chr backslash) (Seq (Plus (Cls [rAZ, raz, r09, rDot, rUnderscore, rDash]))
       (Seq (Chr backslash) (Seq (Plus pathCls) (Star (Seq (Chr backslash) (Plus pathCls)))))))"

definition approvalReferencePattern :: re where
  "approvalReferencePattern = Rep 1 128 (Cls [rAZ, raz, r09, rDot, rUnderscore, rDash])"

subsection \<open>Names and identifiers\<close>

definition ArtifactName :: "string \<Rightarrow> gerror option" where
  "ArtifactName name =
     (if \<not> MatchString artifactNamePattern name
      then Some (Errorf [Lit ''validation: invalid artifact name '', Quo name]) else None)"

definition DFIRProfileName :: "string \<Rightarrow> gerror option" where
  "DFIRProfileName name =
     (if \<not> MatchString dfirProfileNamePattern name
      then Some (Errorf [Lit ''validation: invalid dfir profile name '', Quo name]) else None)"

definition ResultSourceName :: "string \<Rightarrow> gerror option" where
  "ResultSourceName name =
     (if \<not> MatchString resultSourceNamePattern name
      then Some (Errorf [Lit ''validation: invalid result source name '', Quo name]) else None)"

definition ClientID :: "string \<Rightarrow> gerror option" where
  "ClientID id' =
     (if \<not> MatchString clientIDPattern id'
      then Some (Errorf [Lit ''validation: invalid client id '', Quo id']) else None)"

definition FlowID :: "string \<Rightarrow> gerror option" where
  "FlowID id' =
     (if \<not> MatchString flowIDPattern id'
      then Some (Errorf [Lit ''validation: invalid flow id '', Quo id']) else None)"

definition HuntID :: "string \<Rightarrow> gerror option" where
  "HuntID id' =
     (if \<not> MatchString huntIDPattern id'
      then Some (Errorf [Lit ''validation: invalid hunt id '', Quo id']) else None)"

definition HuntLabel :: "string \<Rightarrow> gerror option" where
  "HuntLabel label =
     (if \<not> MatchString huntLabelPattern label
      then Some (Errorf [Lit ''validation: invalid hunt label '', Quo label]) else None)"

subsection \<open>Free text (query.go, request.go)\<close>

text \<open>
  The source ranges over the runes of the string. A byte below \<^verbatim>\<open>0x20\<close> is always a rune of its
  own in UTF-8, and every other rune (an invalid byte decodes to \<^verbatim>\<open>U+FFFD\<close>) is at least
  \<^verbatim>\<open>0x20\<close>, so the check on bytes is the check on runes.
\<close>

definition ctrl_char :: "char \<Rightarrow> bool" where
  "ctrl_char c \<longleftrightarrow> (of_char c :: nat) < 0x20 \<and> (of_char c :: nat) \<noteq> 9"

definition ctrl_char_multiline :: "char \<Rightarrow> bool" where
  "ctrl_char_multiline c \<longleftrightarrow>
     (of_char c :: nat) < 0x20 \<and> (of_char c :: nat) \<noteq> 9 \<and> (of_char c :: nat) \<noteq> 10"

definition checkNoControlChars :: "fmt_part list \<Rightarrow> string \<Rightarrow> gerror option" where
  "checkNoControlChars field s =
     (if list_ex ctrl_char s
      then Some (Errorf ([Lit ''validation: ''] @ field @ [Lit '' contains a control character'']))
      else None)"

definition checkNoControlCharsMultiline :: "fmt_part list \<Rightarrow> string \<Rightarrow> gerror option" where
  "checkNoControlCharsMultiline field s =
     (if list_ex ctrl_char_multiline s
      then Some (Errorf ([Lit ''validation: ''] @ field @ [Lit '' contains a control character'']))
      else None)"

definition searchQueryMaxLength :: nat where
  "searchQueryMaxLength = 256"
definition caseIDMaxLength :: nat where
  "caseIDMaxLength = 128"
definition reasonMaxLength :: nat where
  "reasonMaxLength = 1024"
definition requesterMaxLength :: nat where
  "requesterMaxLength = 256"
definition uploadNameMaxLength :: nat where
  "uploadNameMaxLength = 1024"
definition maxCollectionParams :: nat where
  "maxCollectionParams = 32"
definition maxParamKeyLength :: nat where
  "maxParamKeyLength = 128"
definition maxParamValueLength :: nat where
  "maxParamValueLength = 4096"

definition SearchQuery :: "string \<Rightarrow> gerror option" where
  "SearchQuery q =
     (if length q > searchQueryMaxLength
      then Some (errorf (''validation: search query exceeds '' @ Itoa searchQueryMaxLength @ '' characters''))
      else if list_ex ctrl_char q
      then Some (errorf ''validation: search query contains a control character'')
      else None)"

definition CaseID :: "string \<Rightarrow> gerror option" where
  "CaseID s =
     (if s = [] then Some (errorf ''validation: case_id is required'')
      else if length s > caseIDMaxLength
      then Some (errorf (''validation: case_id exceeds '' @ Itoa caseIDMaxLength @ '' characters''))
      else checkNoControlChars [Lit ''case_id''] s)"

definition Reason :: "string \<Rightarrow> gerror option" where
  "Reason s =
     (if s = [] then Some (errorf ''validation: reason is required'')
      else if length s > reasonMaxLength
      then Some (errorf (''validation: reason exceeds '' @ Itoa reasonMaxLength @ '' characters''))
      else checkNoControlCharsMultiline [Lit ''reason''] s)"

definition Requester :: "string \<Rightarrow> gerror option" where
  "Requester s =
     (if s = [] then Some (errorf ''validation: requester is required'')
      else if length s > requesterMaxLength
      then Some (errorf (''validation: requester exceeds '' @ Itoa requesterMaxLength @ '' characters''))
      else checkNoControlChars [Lit ''requester''] s)"

definition ApprovalReference :: "string \<Rightarrow> gerror option" where
  "ApprovalReference s =
     (if \<not> MatchString approvalReferencePattern s
      then Some (Errorf [Lit ''validation: invalid approval reference '', Quo s]) else None)"

definition UploadName :: "string \<Rightarrow> gerror option" where
  "UploadName s =
     (if s = [] then Some (errorf ''validation: upload name is required'')
      else if length s > uploadNameMaxLength
      then Some (errorf (''validation: upload name exceeds '' @ Itoa uploadNameMaxLength @ '' characters''))
      else checkNoControlCharsMultiline [Lit ''upload name''] s)"

text \<open>The loop over the parameter map, in the iteration order the list stands for.\<close>

fun checkParams :: "string gomap \<Rightarrow> gerror option" where
  "checkParams [] = None"
| "checkParams ((k, v) # ps) =
     (if k = [] \<or> length k > maxParamKeyLength
      then Some (Errorf [Lit ''validation: collection parameter name '', Quo k,
             Lit ('' is empty or exceeds '' @ Itoa maxParamKeyLength @ '' characters'')])
      else if length v > maxParamValueLength
      then Some (Errorf [Lit ''validation: collection parameter '', Quo k,
             Lit ('' value exceeds '' @ Itoa maxParamValueLength @ '' characters'')])
      else case checkNoControlChars [Lit ''collection parameter '', Quo k] (k @ v) of
             Some e \<Rightarrow> Some e
           | None \<Rightarrow> checkParams ps)"

definition CollectionParameters :: "string gomap \<Rightarrow> gerror option" where
  "CollectionParameters params =
     (if length params > maxCollectionParams
      then Some (errorf (''validation: at most '' @ Itoa maxCollectionParams @
             '' collection parameters allowed, got '' @ Itoa (length params)))
      else checkParams params)"

subsection \<open>IP addresses: \<^verbatim>\<open>net.ParseIP\<close>\<close>

definition is_hex :: "char \<Rightarrow> bool" where
  "is_hex c \<longleftrightarrow> in_cls c [r09, raf, rAF]"

text \<open>\<open>prev\<close> is the previous character, \<^const>\<open>None\<close> at the first one.\<close>

fun v4_loop :: "char option \<Rightarrow> nat \<Rightarrow> nat \<Rightarrow> nat \<Rightarrow> string \<Rightarrow> bool" where
  "v4_loop prev val pos digLen [] = (pos = 3)"
| "v4_loop prev val pos digLen (c # cs) =
     (if is_digit c then
        (if digLen = 1 \<and> val = 0 then False
         else let v = val * 10 + (of_char c - 48)
              in if v > 255 then False else v4_loop (Some c) v pos (Suc digLen) cs)
      else if c = CHR ''.'' then
        (if prev = None \<or> cs = [] \<or> prev = Some (CHR ''.'') then False
         else if pos = 3 then False
         else v4_loop (Some c) 0 (Suc pos) 0 cs)
      else False)"

definition parseIPv4 :: "string \<Rightarrow> bool" where
  "parseIPv4 s = v4_loop None 0 0 0 s"

text \<open>
  One round of the loop of \<^verbatim>\<open>parseIPv6\<close> per call; \<open>i\<close> is the number of bytes filled and \<open>el\<close>
  the position of the ellipsis. Eight rounds fill the sixteen bytes.
\<close>

fun v6_loop :: "nat \<Rightarrow> string \<Rightarrow> nat \<Rightarrow> nat option \<Rightarrow> (string \<times> nat \<times> nat option) option" where
  "v6_loop 0 s i el = Some (s, i, el)"
| "v6_loop (Suc n) s i el =
     (let h = takeWhile is_hex s; rest = drop (length h) s in
      if length h > 4 \<or> h = [] then None
      else case rest of
        [] \<Rightarrow> Some ([], i + 2, el)
      | c # cs \<Rightarrow>
          if c = CHR ''.'' then
            (if el = None \<and> i \<noteq> 12 then None
             else if i + 4 > 16 then None
             else if parseIPv4 s then Some ([], i + 4, el) else None)
          else if c \<noteq> CHR '':'' \<or> cs = [] then None
          else if hd cs = CHR '':'' then
            (if el \<noteq> None then None
             else if tl cs = [] then Some ([], i + 2, Some (i + 2))
             else v6_loop n (tl cs) (i + 2) (Some (i + 2)))
          else v6_loop n cs (i + 2) el)"

definition parseIPv6 :: "string \<Rightarrow> bool" where
  "parseIPv6 s =
     (if list_ex (\<lambda>c. c = CHR ''%'') s then False
      else if s = ''::'' then True
      else case (if HasPrefix s ''::'' then v6_loop 8 (drop 2 s) 0 (Some 0)
                 else v6_loop 8 s 0 None) of
             None \<Rightarrow> False
           | Some (rest, i, el) \<Rightarrow> rest = [] \<and> (if i < 16 then el \<noteq> None else el = None))"

definition ParseIP :: "string \<Rightarrow> bool" where
  "ParseIP s =
     (case dropWhile (\<lambda>c. c \<noteq> CHR ''.'' \<and> c \<noteq> CHR '':'' \<and> c \<noteq> CHR ''%'') s of
        [] \<Rightarrow> False
      | c # _ \<Rightarrow> if c = CHR ''.'' then parseIPv4 s
                 else if c = CHR '':'' then parseIPv6 s else False)"

subsection \<open>Indicators of compromise (ioc.go)\<close>

definition IOCKindHash :: string where
  "IOCKindHash = ''hash''"
definition IOCKindIP :: string where
  "IOCKindIP = ''ip''"
definition IOCKindDomain :: string where
  "IOCKindDomain = ''domain''"
definition IOCKindProcess :: string where
  "IOCKindProcess = ''process''"
definition IOCKindPath :: string where
  "IOCKindPath = ''path''"
definition pathMaxLength :: nat where
  "pathMaxLength = 4096"

definition Hash :: "string \<Rightarrow> gerror + string" where
  "Hash s =
     (if MatchString md5Pattern s then Inr ''md5''
      else if MatchString sha1Pattern s then Inr ''sha1''
      else if MatchString sha256Pattern s then Inr ''sha256''
      else Inl (Errorf [Lit ''validation: '', Quo s, Lit '' is not a valid md5/sha1/sha256 hash'']))"

definition IP :: "string \<Rightarrow> gerror option" where
  "IP s = (if \<not> ParseIP s then Some (Errorf [Lit ''validation: invalid IP address '', Quo s]) else None)"

definition Domain :: "string \<Rightarrow> gerror option" where
  "Domain s0 =
     (let s = TrimSuffix s0 ''.'' in
      if length s = 0 \<or> length s > 253 \<or> \<not> MatchString domainPattern s
      then Some (Errorf [Lit ''validation: invalid domain '', Quo s]) else None)"

definition Process :: "string \<Rightarrow> gerror option" where
  "Process s =
     (if \<not> MatchString processNamePattern s
      then Some (Errorf [Lit ''validation: invalid process name '', Quo s]) else None)"

definition Path :: "string \<Rightarrow> gerror option" where
  "Path s =
     (if s = [] \<or> length s > pathMaxLength
      then Some (errorf (''validation: path is empty or exceeds '' @ Itoa pathMaxLength @ '' characters''))
      else if Contains s ''..''
      then Some (Errorf [Lit ''validation: path '', Quo s,
             Lit ('' must not contain '' @ [CHR 0x27] @ ''..'' @ [CHR 0x27] @ '' traversal segments'')])
      else if MatchString unixPathPattern s \<or> MatchString windowsPathPattern s \<or> MatchString uncPathPattern s
      then None
      else Some (Errorf [Lit ''validation: invalid file path '', Quo s,
             Lit '' (must be an absolute unix or windows path)'']))"

definition ValidateIOC :: "string \<Rightarrow> string \<Rightarrow> gerror option" where
  "ValidateIOC kind value =
     (if kind = IOCKindHash then (case Hash value of Inl e \<Rightarrow> Some e | Inr _ \<Rightarrow> None)
      else if kind = IOCKindIP then IP value
      else if kind = IOCKindDomain then Domain value
      else if kind = IOCKindProcess then Process value
      else if kind = IOCKindPath then Path value
      else Some (Errorf [Lit ''validation: unknown ioc kind '', Quo kind]))"

subsection \<open>Hunt scope (scope.go)\<close>

record HuntScope =
  hs_ClientIDs :: "string list"
  hs_Label :: string
  hs_All :: bool

fun first_error :: "('a \<Rightarrow> gerror option) \<Rightarrow> 'a list \<Rightarrow> gerror option" where
  "first_error f [] = None"
| "first_error f (x # xs) = (case f x of Some e \<Rightarrow> Some e | None \<Rightarrow> first_error f xs)"

definition scope_modes :: "HuntScope \<Rightarrow> nat" where
  "scope_modes s =
     (if length (hs_ClientIDs s) > 0 then 1 else 0) + (if hs_Label s \<noteq> [] then 1 else 0)
     + (if hs_All s then 1 else 0)"

definition ValidateHuntScope :: "HuntScope \<Rightarrow> gerror option" where
  "ValidateHuntScope s =
     (let modes = scope_modes s in
      if modes \<noteq> 1
      then Some (errorf (''validation: hunt scope must set exactly one of client_ids, label, or all (got ''
                  @ Itoa modes @ '')''))
      else case first_error ClientID (hs_ClientIDs s) of
             Some e \<Rightarrow> Some e
           | None \<Rightarrow> if hs_Label s \<noteq> [] then HuntLabel (hs_Label s) else None)"

subsection \<open>What the validators accept\<close>

definition lower_hex :: "char \<Rightarrow> bool" where
  "lower_hex c \<longleftrightarrow> in_cls c [r09, raf]"

definition id_char :: "char \<Rightarrow> bool" where
  "id_char c \<longleftrightarrow> in_cls c [rAZ, raz, r09, rUnderscore, rDash]"

definition ref_char :: "char \<Rightarrow> bool" where
  "ref_char c \<longleftrightarrow> in_cls c [rAZ, raz, r09, rDot, rUnderscore, rDash]"

lemmas re_iff = MatchString_iff Seq_Chr_iff Rep_Cls_iff

lemma ClientID_iff:
  "ClientID s = None \<longleftrightarrow> (\<exists>h. s = ''C.'' @ h \<and> length h = 16 \<and> list_all lower_hex h)"
  unfolding ClientID_def clientIDPattern_def
  by (auto simp: re_iff list_all_iff lower_hex_def)

lemma FlowID_iff:
  "FlowID s = None \<longleftrightarrow>
   (\<exists>t. s = ''F.'' @ t \<and> 4 \<le> length t \<and> length t \<le> 128 \<and> list_all id_char t)"
  unfolding FlowID_def flowIDPattern_def
  by (auto simp: re_iff list_all_iff id_char_def)

lemma HuntID_iff:
  "HuntID s = None \<longleftrightarrow>
   (\<exists>t. s = ''H.'' @ t \<and> 4 \<le> length t \<and> length t \<le> 128 \<and> list_all id_char t)"
  unfolding HuntID_def huntIDPattern_def
  by (auto simp: re_iff list_all_iff id_char_def)

lemma HuntLabel_iff:
  "HuntLabel s = None \<longleftrightarrow> s \<noteq> [] \<and> length s \<le> 128 \<and> list_all ref_char s"
  unfolding HuntLabel_def huntLabelPattern_def
  by (cases s) (auto simp: re_iff list_all_iff ref_char_def)

lemma ApprovalReference_iff:
  "ApprovalReference s = None \<longleftrightarrow> s \<noteq> [] \<and> length s \<le> 128 \<and> list_all ref_char s"
  unfolding ApprovalReference_def approvalReferencePattern_def
  by (cases s) (auto simp: re_iff list_all_iff ref_char_def)

lemma is_hex_cls: "in_cls c [raf, rAF, r09] \<longleftrightarrow> is_hex c"
  by (auto simp: is_hex_def in_cls_def)

lemma hash_patterns:
  "MatchString md5Pattern s \<longleftrightarrow> length s = 32 \<and> list_all is_hex s"
  "MatchString sha1Pattern s \<longleftrightarrow> length s = 40 \<and> list_all is_hex s"
  "MatchString sha256Pattern s \<longleftrightarrow> length s = 64 \<and> list_all is_hex s"
  by (auto simp: md5Pattern_def sha1Pattern_def sha256Pattern_def re_iff list_all_iff is_hex_cls)

text \<open>\<open>Hash\<close> classifies by length alone once every character is a hexadecimal digit.\<close>

lemma Hash_iff:
  "Hash s = Inr k \<longleftrightarrow>
   list_all is_hex s \<and> (length s, k) \<in> {(32, ''md5''), (40, ''sha1''), (64, ''sha256'')}"
  by (auto simp: Hash_def hash_patterns)

lemma first_error_None_iff: "first_error f xs = None \<longleftrightarrow> (\<forall>x \<in> set xs. f x = None)"
  by (induction xs) (auto split: option.splits)

text \<open>Exactly one of the three scope modes, and well-formed identifiers in the one in use.\<close>

lemma HuntScope_iff:
  "ValidateHuntScope s = None \<longleftrightarrow>
     (hs_ClientIDs s \<noteq> [] \<and> hs_Label s = [] \<and> \<not> hs_All s \<and>
        (\<forall>c \<in> set (hs_ClientIDs s). ClientID c = None))
   \<or> (hs_ClientIDs s = [] \<and> hs_Label s \<noteq> [] \<and> \<not> hs_All s \<and> HuntLabel (hs_Label s) = None)
   \<or> (hs_ClientIDs s = [] \<and> hs_Label s = [] \<and> hs_All s)"
  by (auto simp: ValidateHuntScope_def scope_modes_def Let_def first_error_None_iff [symmetric]
           split: option.splits if_splits)

lemma checkNoControlChars_iff [simp]:
  "checkNoControlChars f s = None \<longleftrightarrow> (\<forall>c \<in> set s. \<not> ctrl_char c)"
  "checkNoControlCharsMultiline f s = None \<longleftrightarrow> (\<forall>c \<in> set s. \<not> ctrl_char_multiline c)"
  by (auto simp: checkNoControlChars_def checkNoControlCharsMultiline_def list_ex_iff)

definition param_ok :: "string \<Rightarrow> string \<Rightarrow> bool" where
  "param_ok k v \<longleftrightarrow> k \<noteq> [] \<and> length k \<le> maxParamKeyLength \<and> length v \<le> maxParamValueLength
     \<and> list_all (\<lambda>c. \<not> ctrl_char c) (k @ v)"

lemma checkParams_iff: "checkParams ps = None \<longleftrightarrow> (\<forall>(k, v) \<in> set ps. param_ok k v)"
  by (induction ps rule: checkParams.induct)
     (simp_all del: checkNoControlChars_iff
        add: checkNoControlChars_def param_ok_def list_all_iff list_ex_iff not_less Bex_def Ball_def, blast?)

text \<open>
  Acceptance does not depend on the order in which Go happens to range over the map, although
  the error reported for a bad map does.
\<close>

lemma CollectionParameters_iff:
  "CollectionParameters ps = None \<longleftrightarrow>
     length ps \<le> maxCollectionParams \<and> (\<forall>(k, v) \<in> set ps. param_ok k v)"
  by (simp add: CollectionParameters_def checkParams_iff)

lemma CaseID_iff:
  "CaseID s = None \<longleftrightarrow> s \<noteq> [] \<and> length s \<le> caseIDMaxLength \<and> (\<forall>c \<in> set s. \<not> ctrl_char c)"
  by (simp add: CaseID_def)

lemma Reason_iff:
  "Reason s = None \<longleftrightarrow>
     s \<noteq> [] \<and> length s \<le> reasonMaxLength \<and> (\<forall>c \<in> set s. \<not> ctrl_char_multiline c)"
  by (simp add: Reason_def)

lemma Requester_iff:
  "Requester s = None \<longleftrightarrow>
     s \<noteq> [] \<and> length s \<le> requesterMaxLength \<and> (\<forall>c \<in> set s. \<not> ctrl_char c)"
  by (simp add: Requester_def)

subsection \<open>Accepted identifiers and indicators cannot carry query syntax\<close>

text \<open>
  The characters with which a value could leave the string literal or command word it is
  placed in: quotes, backquote, parentheses, braces, brackets, semicolon, ampersand, pipe,
  redirections, dollar, asterisk, question mark, comma, equals, hash, exclamation mark and
  every control character, DEL and non-ASCII byte.
\<close>

definition metachar :: "char \<Rightarrow> bool" where
  "metachar c \<longleftrightarrow> (of_char c :: nat) < 0x20 \<or> (of_char c :: nat) \<ge> 0x7F
     \<or> c \<in> set ([CHR 0x22, CHR 0x27, CHR 0x60] @ ''(){}[];&|<>$*?,=#!'')"

definition value_ranges :: "(char \<times> char) list" where
  "value_ranges = [rAZ, raz, r09, rSpace, rDot, rUnderscore, rDash, (CHR ''/'', CHR '':''), (backslash, backslash)]"

lemma value_range_safe: "in_cls c value_ranges \<Longrightarrow> \<not> metachar c"
  by (auto simp: value_ranges_def in_cls_def in_range_def metachar_def)

text \<open>\<open>covered rs\<close>: every range of \<open>rs\<close> lies in one of \<^const>\<open>value_ranges\<close>.\<close>

definition range_le :: "char \<times> char \<Rightarrow> char \<times> char \<Rightarrow> bool" where
  "range_le r q \<longleftrightarrow> (of_char (fst q) :: nat) \<le> of_char (fst r) \<and> (of_char (snd r) :: nat) \<le> of_char (snd q)"

definition covered :: "(char \<times> char) list \<Rightarrow> bool" where
  "covered rs \<longleftrightarrow> list_all (\<lambda>r. list_ex (range_le r) value_ranges) rs"

lemma covered_in_cls: "covered rs \<Longrightarrow> in_cls c rs \<Longrightarrow> in_cls c value_ranges"
  unfolding covered_def in_cls_def list_all_iff list_ex_iff range_le_def in_range_def
  by (meson order_trans)

lemma MatchString_safe:
  assumes "MatchString r s" and "covered (re_ranges r)"
  shows "list_all (\<lambda>c. \<not> metachar c) s"
  using assms by (auto simp: list_all_iff dest: MatchString_chars covered_in_cls value_range_safe)

lemma v4_loop_chars: "v4_loop p v n d s \<Longrightarrow> c \<in> set s \<Longrightarrow> is_digit c \<or> c = CHR ''.''"
  by (induction p v n d s rule: v4_loop.induct) (auto simp: Let_def split: if_splits)

lemma hex_prefix_chars:
  assumes "c \<in> set s" and "h = takeWhile is_hex s"
  shows "is_hex c \<or> c \<in> set (drop (length h) s)"
proof -
  have "s = h @ drop (length h) s"
    using assms(2) by (metis takeWhile_dropWhile_id dropWhile_eq_drop)
  with assms show ?thesis by (metis Un_iff set_append set_takeWhileD)
qed

definition ip_char :: "char \<Rightarrow> bool" where
  "ip_char c \<longleftrightarrow> is_hex c \<or> c = CHR ''.'' \<or> c = CHR '':''"

lemma digit_is_hex: "is_digit c \<Longrightarrow> is_hex c"
  by (simp add: is_digit_def is_hex_def in_cls_def in_range_def)

lemma parseIPv4_chars: "parseIPv4 s \<Longrightarrow> c \<in> set s \<Longrightarrow> ip_char c"
  unfolding parseIPv4_def ip_char_def using v4_loop_chars digit_is_hex by blast

lemma v6_loop_chars:
  "v6_loop n s i el = Some (rest, j, el') \<Longrightarrow> c \<in> set s \<Longrightarrow> ip_char c \<or> c \<in> set rest"
proof (induction n s i el rule: v6_loop.induct)
  case (2 n s i el)
  show ?case
  proof (cases "is_hex c")
    case False
    then have c: "c \<in> set (drop (length (takeWhile is_hex s)) s)"
      using hex_prefix_chars [OF 2(4) refl] by blast
    then obtain d ds where d: "drop (length (takeWhile is_hex s)) s = d # ds"
      by (cases "drop (length (takeWhile is_hex s)) s") auto
    show ?thesis
    proof (cases "d = CHR ''.''")
      case True
      with 2(3) d have "parseIPv4 s" by (auto simp: Let_def split: if_splits)
      then show ?thesis using parseIPv4_chars 2(4) by blast
    next
      case False
      then have colon: "d = CHR '':''" and ne: "ds \<noteq> []"
        using 2(3) d by (auto simp: Let_def split: if_splits)
      show ?thesis
      proof (cases "hd ds = CHR '':''")
        case True
        then obtain ds' where "ds = CHR '':'' # ds'" using ne by (cases ds) auto
        then show ?thesis using 2(1,3) colon d c
          by (auto simp: Let_def ip_char_def split: if_splits)
      next
        case False
        then show ?thesis using 2(2,3) colon d c ne
          by (auto simp: Let_def ip_char_def split: if_splits)
      qed
    qed
  qed (simp add: ip_char_def)
qed simp

lemma HasPrefix_chars: "HasPrefix s p \<Longrightarrow> c \<in> set s \<Longrightarrow> c \<in> set p \<or> c \<in> set (drop (length p) s)"
  by (auto simp: HasPrefix_iff)

lemma parseIPv6_chars:
  assumes "parseIPv6 s" and "c \<in> set s" shows "ip_char c"
proof (cases "HasPrefix s ''::''")
  case True
  show ?thesis
  proof (cases "c = CHR '':''")
    case False
    then have "c \<in> set (drop 2 s)" using HasPrefix_chars [OF True assms(2)] by (simp add: numeral_2_eq_2)
    with True assms(1) show ?thesis
      by (auto simp: parseIPv6_def split: if_splits option.splits dest: v6_loop_chars)
  qed (simp add: ip_char_def)
next
  case False
  with assms show ?thesis
    by (auto simp: parseIPv6_def HasPrefix_def split: if_splits option.splits dest: v6_loop_chars)
qed

lemma ParseIP_cases: "ParseIP s \<Longrightarrow> parseIPv4 s \<or> parseIPv6 s"
  unfolding ParseIP_def
  by (cases "dropWhile (\<lambda>c. c \<noteq> CHR ''.'' \<and> c \<noteq> CHR '':'' \<and> c \<noteq> CHR ''%'') s")
     (simp_all split: if_splits)

lemma ParseIP_chars: "ParseIP s \<Longrightarrow> c \<in> set s \<Longrightarrow> ip_char c"
  using ParseIP_cases parseIPv4_chars parseIPv6_chars by blast

lemma ip_char_safe: "ip_char c \<Longrightarrow> \<not> metachar c"
proof (rule value_range_safe)
  have hex: "covered [r09, raf, rAF]" by code_simp
  assume "ip_char c"
  then consider "is_hex c" | "c = CHR ''.''" | "c = CHR '':''" unfolding ip_char_def by blast
  then show "in_cls c value_ranges"
  proof cases
    case 1
    then show ?thesis using covered_in_cls [OF hex] unfolding is_hex_def by blast
  qed (simp_all add: value_ranges_def in_cls_def in_range_def)
qed

lemmas pattern_defs = artifactNamePattern_def dfirProfileNamePattern_def
  resultSourceNamePattern_def clientIDPattern_def flowIDPattern_def huntIDPattern_def
  huntLabelPattern_def md5Pattern_def sha1Pattern_def sha256Pattern_def domainLabel_def
  domainPattern_def processNamePattern_def unixPathPattern_def windowsPathPattern_def
  uncPathPattern_def approvalReferencePattern_def

lemma patterns_covered:
  "covered (re_ranges artifactNamePattern)" "covered (re_ranges dfirProfileNamePattern)"
  "covered (re_ranges resultSourceNamePattern)" "covered (re_ranges clientIDPattern)"
  "covered (re_ranges flowIDPattern)" "covered (re_ranges huntIDPattern)"
  "covered (re_ranges huntLabelPattern)" "covered (re_ranges md5Pattern)"
  "covered (re_ranges sha1Pattern)" "covered (re_ranges sha256Pattern)"
  "covered (re_ranges domainPattern)" "covered (re_ranges processNamePattern)"
  "covered (re_ranges unixPathPattern)" "covered (re_ranges windowsPathPattern)"
  "covered (re_ranges uncPathPattern)" "covered (re_ranges approvalReferencePattern)"
  by (simp_all add: covered_def value_ranges_def range_le_def pattern_defs)

lemma Domain_safe:
  assumes "Domain s = None" shows "list_all (\<lambda>c. \<not> metachar c) s"
proof -
  have "MatchString domainPattern (TrimSuffix s ''.'')"
    using assms by (simp add: Domain_def Let_def split: if_splits)
  then have "list_all (\<lambda>c. \<not> metachar c) (TrimSuffix s ''.'')"
    by (rule MatchString_safe [OF _ patterns_covered(11)])
  moreover have "list_all (\<lambda>c. \<not> metachar c) ''.''" by (simp add: metachar_def)
  ultimately show ?thesis by (rule list_all_TrimSuffix)
qed

lemma IP_safe: "IP s = None \<Longrightarrow> list_all (\<lambda>c. \<not> metachar c) s"
  by (auto simp: IP_def list_all_iff dest: ParseIP_chars ip_char_safe split: if_splits)

lemma Hash_safe: "Hash s = Inr k \<Longrightarrow> list_all (\<lambda>c. \<not> metachar c) s"
  unfolding Hash_iff list_all_iff using ip_char_safe ip_char_def by blast

lemma Path_safe: "Path s = None \<Longrightarrow> list_all (\<lambda>c. \<not> metachar c) s"
  by (auto simp: Path_def intro: MatchString_safe patterns_covered split: if_splits)

lemma Process_safe: "Process s = None \<Longrightarrow> list_all (\<lambda>c. \<not> metachar c) s"
  by (auto simp: Process_def intro: MatchString_safe patterns_covered split: if_splits)

lemma ValidateIOC_safe: "ValidateIOC kind s = None \<Longrightarrow> list_all (\<lambda>c. \<not> metachar c) s"
  unfolding ValidateIOC_def
  by (simp split: if_splits sum.splits add: Hash_safe IP_safe Domain_safe Process_safe Path_safe)

lemmas validator_safe_intros = ValidateIOC_safe
  MatchString_safe [OF _ patterns_covered(1)] MatchString_safe [OF _ patterns_covered(2)]
  MatchString_safe [OF _ patterns_covered(3)] MatchString_safe [OF _ patterns_covered(4)]
  MatchString_safe [OF _ patterns_covered(5)] MatchString_safe [OF _ patterns_covered(6)]
  MatchString_safe [OF _ patterns_covered(7)] MatchString_safe [OF _ patterns_covered(16)]



text \<open>
  The hunt-scope gate accepts exactly the scopes that set one mode
  and only one: a non-empty list of well-formed client ids, a label of 1 to 128 reference
  characters, or all clients.
\<close>

theorem hunt_scope_exactly_one_mode:
  "ValidateHuntScope s = None \<longleftrightarrow>
     (\<exists>cs. cs \<noteq> [] \<and> s = \<lparr>hs_ClientIDs = cs, hs_Label = [], hs_All = False\<rparr>
        \<and> list_all (\<lambda>c. \<exists>h. c = ''C.'' @ h \<and> length h = 16 \<and> list_all lower_hex h) cs)
   \<or> (\<exists>l. l \<noteq> [] \<and> length l \<le> 128 \<and> list_all ref_char l
        \<and> s = \<lparr>hs_ClientIDs = [], hs_Label = l, hs_All = False\<rparr>)
   \<or> s = \<lparr>hs_ClientIDs = [], hs_Label = [], hs_All = True\<rparr>"
  by (cases s) (auto simp: HuntScope_iff ClientID_iff HuntLabel_iff list_all_iff)

end
