(* ===== verification/Config_Policy.thy ===== *)
theory Config_Policy
  imports Validation
begin

text \<open>
  \<^verbatim>\<open>internal/config\<close> and \<^verbatim>\<open>internal/policy\<close>: the configuration records, the defaults, the
  structural check \<open>Validate\<close>, and the policy engine that answers the handlers' questions
  from the policy section. Reading and parsing the YAML file is not modelled.

  \<open>Validate_None_iff\<close> says exactly which configurations start; \<open>Validate_errors\<close> that every
  violated constraint is reported, not only the first.
\<close>

subsection \<open>Configuration records (config.go)\<close>

record ServerConfig =
  sc_Name :: string
  sc_Transport :: string

record VelociraptorConfig =
  vc_OrgID :: string
  vc_ReadAPIConfigPath :: string
  vc_WriteAPIConfigPath :: string
  vc_TimeoutSeconds :: int
  vc_MaxRows :: int
  vc_MaxResultBytes :: int
  vc_MaxUploadBytes :: int
  vc_DownloadDir :: string

type_synonym PolicyMode = string

definition PolicyModeReadOnly :: PolicyMode where
  "PolicyModeReadOnly = ''read_only''"
definition PolicyModeControlled :: PolicyMode where
  "PolicyModeControlled = ''controlled''"

record PolicyConfig =
  pc_Mode :: PolicyMode
  pc_AllowRawVQL :: bool
  pc_AllowListAllArtifacts :: bool
  pc_AllowTargetAll :: bool
  pc_MaxHuntClients :: int
  pc_RequireApprovalFor :: "string list"
  pc_AllowedArtifacts :: "string list"
  pc_AllowedProfiles :: "string list"

record AuditConfig =
  ac_Enabled :: bool
  ac_Path :: string
  ac_MaxSizeBytes :: int
  ac_MaxFiles :: int
  ac_RedactFields :: "string list"

record ApprovalConfig =
  pa_StorePath :: string
  pa_TTLSeconds :: int

record Config =
  c_Server :: ServerConfig
  c_Velociraptor :: VelociraptorConfig
  c_Policy :: PolicyConfig
  c_Audit :: AuditConfig
  c_Approval :: ApprovalConfig

definition Default :: Config where
  "Default =
     \<lparr>c_Server = \<lparr>sc_Name = ''agentic-velociraptor-mcp'', sc_Transport = ''stdio''\<rparr>,
      c_Velociraptor = \<lparr>vc_OrgID = ''root'', vc_ReadAPIConfigPath = [], vc_WriteAPIConfigPath = [],
        vc_TimeoutSeconds = 30, vc_MaxRows = 500, vc_MaxResultBytes = 1048576,
        vc_MaxUploadBytes = 52428800, vc_DownloadDir = []\<rparr>,
      c_Policy = \<lparr>pc_Mode = PolicyModeReadOnly, pc_AllowRawVQL = False,
        pc_AllowListAllArtifacts = False, pc_AllowTargetAll = False, pc_MaxHuntClients = 100,
        pc_RequireApprovalFor = [''collect_artifact'', ''collect_dfir_profile'', ''start_hunt'',
          ''start_dfir_hunt'', ''cancel_flow'', ''cancel_hunt'', ''download_flow_upload'', ''hunt_ioc''],
        pc_AllowedArtifacts = [''Generic.Client.Info'', ''Windows.System.Pslist'', ''Windows.Network.Netstat''],
        pc_AllowedProfiles = [''windows_basic_triage'', ''windows_ransomware_triage'', ''linux_basic_triage'']\<rparr>,
      c_Audit = \<lparr>ac_Enabled = True, ac_Path = ''/var/log/agentic-velociraptor-mcp/audit.jsonl'',
        ac_MaxSizeBytes = 100 * 1024 * 1024, ac_MaxFiles = 10,
        ac_RedactFields = [''client_private_key'', ''client_cert'', ''ca_certificate'', ''api_key'',
          ''approval_token'', ''password'', ''secret'']\<rparr>,
      c_Approval = \<lparr>pa_StorePath = [], pa_TTLSeconds = 900\<rparr>\<rparr>"

subsection \<open>Structural validation (validate.go)\<close>

text \<open>\<^verbatim>\<open>errors.Join\<close>: \<^const>\<open>None\<close> for no errors, else all of them, one per line.\<close>

fun join_parts :: "gerror list \<Rightarrow> fmt_part list" where
  "join_parts [] = []"
| "join_parts [e] = [Wrap e]"
| "join_parts (e # es) = Wrap e # Lit [CHR 0x0A] # join_parts es"

definition errors_Join :: "gerror list \<Rightarrow> gerror option" where
  "errors_Join es = (if es = [] then None else Some (Errorf (join_parts es)))"

definition guard :: "bool \<Rightarrow> gerror \<Rightarrow> gerror list" where
  "guard bad e = (if bad then [e] else [])"

definition Validate_errs :: "Config \<Rightarrow> gerror list" where
  "Validate_errs cfg =
     (let sv = c_Server cfg; v = c_Velociraptor cfg; p = c_Policy cfg;
          a = c_Audit cfg; ap = c_Approval cfg in
      guard (sc_Transport sv \<noteq> ''stdio'')
        (Errorf [Lit ''server.transport: only '', Quo ''stdio'', Lit '' is supported, got '', Quo (sc_Transport sv)])
      @ guard (vc_TimeoutSeconds v \<le> 0) (errorf ''velociraptor.timeout_seconds must be > 0'')
      @ guard (vc_MaxRows v \<le> 0) (errorf ''velociraptor.max_rows must be > 0'')
      @ guard (vc_MaxResultBytes v \<le> 0) (errorf ''velociraptor.max_result_bytes must be > 0'')
      @ guard (vc_MaxUploadBytes v \<le> 0) (errorf ''velociraptor.max_upload_bytes must be > 0'')
      @ guard (pc_Mode p \<noteq> PolicyModeReadOnly \<and> pc_Mode p \<noteq> PolicyModeControlled)
          (Errorf [Lit ''policy.mode: unknown mode '', Quo (pc_Mode p)])
      @ guard (pc_AllowRawVQL p)
          (errorf ''policy.allow_raw_vql: raw VQL is not supported by any released tool; this flag must stay false'')
      @ guard (pc_MaxHuntClients p \<le> 0) (errorf ''policy.max_hunt_clients must be > 0'')
      @ guard (ac_Enabled a \<and> ac_Path a = [])
          (errorf ''audit.path is required when audit.enabled is true'')
      @ guard (pa_StorePath ap \<noteq> [] \<and> pa_TTLSeconds ap \<le> 0)
          (errorf ''approval.ttl_seconds must be > 0 when approval.store_path is set''))"

definition Validate :: "Config option \<Rightarrow> gerror option" where
  "Validate cfg =
     (case cfg of
        None \<Rightarrow> Some (errorf ''config: nil config'')
      | Some c \<Rightarrow> errors_Join (Validate_errs c))"

subsection \<open>Policy engine (policy.go, decision.go, rules.go)\<close>

record Engine = en_cfg :: PolicyConfig

definition NewEngine :: "PolicyConfig \<Rightarrow> Engine" where
  "NewEngine cfg = \<lparr>en_cfg = cfg\<rparr>"

definition ReadOnly :: "Engine \<Rightarrow> bool" where
  "ReadOnly e = (pc_Mode (en_cfg e) = PolicyModeReadOnly)"

definition RawVQLAllowed :: "Engine \<Rightarrow> bool" where
  "RawVQLAllowed e = False"

text \<open>The three membership loops of the engine.\<close>

fun loop_mem :: "string list \<Rightarrow> string \<Rightarrow> bool" where
  "loop_mem [] name = False"
| "loop_mem (a # as) name = (if a = name then True else loop_mem as name)"

definition ArtifactAllowed :: "Engine \<Rightarrow> string \<Rightarrow> bool" where
  "ArtifactAllowed e name = loop_mem (pc_AllowedArtifacts (en_cfg e)) name"

definition AllowListAllArtifacts :: "Engine \<Rightarrow> bool" where
  "AllowListAllArtifacts e = pc_AllowListAllArtifacts (en_cfg e)"

definition ProfileAllowed :: "Engine \<Rightarrow> string \<Rightarrow> bool" where
  "ProfileAllowed e name = loop_mem (pc_AllowedProfiles (en_cfg e)) name"

definition RequiresApproval :: "Engine \<Rightarrow> string \<Rightarrow> bool" where
  "RequiresApproval e operation = loop_mem (pc_RequireApprovalFor (en_cfg e)) operation"

definition MaxHuntClients :: "Engine \<Rightarrow> int" where
  "MaxHuntClients e = pc_MaxHuntClients (en_cfg e)"

definition TargetAllAllowed :: "Engine \<Rightarrow> bool" where
  "TargetAllAllowed e = pc_AllowTargetAll (en_cfg e)"

datatype DecisionResult = DecisionAllow | DecisionRequireApproval | DecisionDeny

record PolicyDecision =
  pd_Result :: DecisionResult
  pd_Reason :: string

definition Allow :: "string \<Rightarrow> PolicyDecision" where
  "Allow reason = \<lparr>pd_Result = DecisionAllow, pd_Reason = reason\<rparr>"

definition RequireApproval :: "string \<Rightarrow> PolicyDecision" where
  "RequireApproval reason = \<lparr>pd_Result = DecisionRequireApproval, pd_Reason = reason\<rparr>"

definition Deny :: "string \<Rightarrow> PolicyDecision" where
  "Deny reason = \<lparr>pd_Result = DecisionDeny, pd_Reason = reason\<rparr>"

definition DangerousVelociraptorPermissions :: "string list" where
  "DangerousVelociraptorPermissions =
     [''administrator'', ''ARTIFACT_WRITER'', ''SERVER_ARTIFACT_WRITER'', ''EXECVE'',
      ''FILESYSTEM_WRITE'', ''SERVER_ADMIN'']"

subsection \<open>Lemmas\<close>

lemma loop_mem_iff [simp]: "loop_mem xs x \<longleftrightarrow> x \<in> set xs"
  by (induction xs) auto

lemma guard_Nil_iff [simp]: "guard b e = [] \<longleftrightarrow> \<not> b"
  by (simp add: guard_def)

lemma errors_Join_None_iff [simp]: "errors_Join es = None \<longleftrightarrow> es = []"
  by (simp add: errors_Join_def)

lemma join_parts_Wrap: "e \<in> set es \<Longrightarrow> Wrap e \<in> set (join_parts es)"
  by (induction es rule: join_parts.induct) auto

definition config_ok :: "Config \<Rightarrow> bool" where
  "config_ok c \<longleftrightarrow>
     sc_Transport (c_Server c) = ''stdio''
     \<and> 0 < vc_TimeoutSeconds (c_Velociraptor c) \<and> 0 < vc_MaxRows (c_Velociraptor c)
     \<and> 0 < vc_MaxResultBytes (c_Velociraptor c) \<and> 0 < vc_MaxUploadBytes (c_Velociraptor c)
     \<and> pc_Mode (c_Policy c) \<in> {PolicyModeReadOnly, PolicyModeControlled}
     \<and> \<not> pc_AllowRawVQL (c_Policy c) \<and> 0 < pc_MaxHuntClients (c_Policy c)
     \<and> (ac_Enabled (c_Audit c) \<longrightarrow> ac_Path (c_Audit c) \<noteq> [])
     \<and> (pa_StorePath (c_Approval c) \<noteq> [] \<longrightarrow> 0 < pa_TTLSeconds (c_Approval c))"

lemma Validate_None_iff: "Validate (Some c) = None \<longleftrightarrow> config_ok c"
  by (auto simp: Validate_def Validate_errs_def config_ok_def Let_def)

lemma Validate_errors: "e \<in> set (Validate_errs c) \<Longrightarrow> \<exists>ps. Validate (Some c) = Some (Errorf ps) \<and> Wrap e \<in> set ps"
  by (auto simp: Validate_def errors_Join_def join_parts_Wrap)

lemma Default_valid: "Validate (Some Default) = None"
  by (simp add: Validate_None_iff config_ok_def Default_def)

lemma Default_read_only: "ReadOnly (NewEngine (c_Policy Default))"
  by (simp add: ReadOnly_def NewEngine_def Default_def)

end
