(* ===== verification/Dfir.thy ===== *)
theory Dfir
  imports Config_Policy
begin

text \<open>
  \<^verbatim>\<open>internal/dfir\<close>: investigation profiles, the registry loaded from a directory, and the
  curated artifact catalog. The file system and the YAML library are the fields of \<open>dfir_io\<close>,
  an argument of the loaders: what a file holds and how it decodes is not this program's code,
  what is then required of the decoded values is.

  The lemmas show that a loaded registry files every profile under its own name with its
  limits in range (\<open>LoadDir_wf\<close>), and that a validated profile grants nothing the artifact
  allowlist does not (\<open>allowlister\<close>, interpreted on the policy engine).
\<close>

subsection \<open>Profiles (profile.go, validate.go)\<close>

record ProfileArtifact =
  pf_artName :: string
  pf_Parameters :: "string gomap"

record Profile =
  pf_Name :: string
  pf_DisplayName :: string
  pf_Description :: string
  pf_TargetOS :: string
  pf_Artifacts :: "ProfileArtifact list"
  pf_Category :: string
  pf_RiskLevel :: string
  pf_RequiresApproval :: bool
  pf_MaxRuntimeSeconds :: int
  pf_MaxResultRows :: int
  pf_MaxResultBytes :: int

definition validateProfileMetadata :: "Profile \<Rightarrow> gerror option" where
  "validateProfileMetadata p =
     (if pf_Name p = [] then Some (errorf ''profile name is required'')
      else if pf_RiskLevel p \<notin> set [''low'', ''medium'', ''high'']
      then Some (Errorf [Lit ''profile '', Quo (pf_Name p), Lit '' risk_level must be one of low, medium, high''])
      else if pf_MaxRuntimeSeconds p \<le> 0 \<or> pf_MaxRuntimeSeconds p > 86400
      then Some (Errorf [Lit ''profile '', Quo (pf_Name p), Lit '' max_runtime_seconds must be between 1 and 86400''])
      else if pf_MaxResultRows p \<le> 0 \<or> pf_MaxResultRows p > 1000000
      then Some (Errorf [Lit ''profile '', Quo (pf_Name p), Lit '' max_result_rows must be between 1 and 1000000''])
      else if pf_MaxResultBytes p \<le> 0 \<or> pf_MaxResultBytes p > 1073741824
      then Some (Errorf [Lit ''profile '', Quo (pf_Name p), Lit '' max_result_bytes must be between 1 and 1073741824''])
      else None)"

text \<open>The argument \<open>allow\<close> is the one method of the interface \<^verbatim>\<open>ArtifactAllowlister\<close>.\<close>

definition check_allowed :: "Profile \<Rightarrow> (string \<Rightarrow> bool) \<Rightarrow> ProfileArtifact \<Rightarrow> gerror option" where
  "check_allowed p allow a =
     (if \<not> allow (pf_artName a)
      then Some (Errorf [Lit ''dfir: profile '', Quo (pf_Name p),
             Lit '' references non-allowlisted artifact '', Quo (pf_artName a)])
      else None)"

definition ValidateProfile :: "Profile \<Rightarrow> (string \<Rightarrow> bool) \<Rightarrow> gerror option" where
  "ValidateProfile p allow =
     (case validateProfileMetadata p of
        Some err \<Rightarrow> Some err
      | None \<Rightarrow>
          if length (pf_Artifacts p) = 0
          then Some (Errorf [Lit ''dfir: profile '', Quo (pf_Name p), Lit '' defines no artifacts''])
          else first_error (check_allowed p allow) (pf_Artifacts p))"

subsection \<open>Catalog entries (catalog.go)\<close>

record CatalogArtifact =
  ca_Name :: string
  ca_TargetOS :: string
  ca_Category :: string
  ca_RiskLevel :: string
  ca_RequiresApproval :: bool
  ca_Sensitivity :: string
  ca_Verified :: bool
  ca_Notes :: string

record Catalog = cat_artifacts :: "CatalogArtifact gomap"

record catalogFile = cf_Artifacts :: "CatalogArtifact list"

definition validateCatalogArtifact :: "CatalogArtifact \<Rightarrow> gerror option" where
  "validateCatalogArtifact a =
     (if ca_Name a = [] then Some (errorf ''catalog artifact name is required'')
      else if ca_TargetOS a \<notin> set [''windows'', ''linux'', ''macos'', ''any'']
      then Some (Errorf [Lit ''catalog artifact '', Quo (ca_Name a),
             Lit '' target_os must be one of windows, linux, macos, any''])
      else if ca_RiskLevel a \<notin> set [''low'', ''medium'', ''high'']
      then Some (Errorf [Lit ''catalog artifact '', Quo (ca_Name a),
             Lit '' risk_level must be one of low, medium, high''])
      else if ca_Category a = []
      then Some (Errorf [Lit ''catalog artifact '', Quo (ca_Name a), Lit '' category is required''])
      else if ca_Sensitivity a = []
      then Some (Errorf [Lit ''catalog artifact '', Quo (ca_Name a), Lit '' sensitivity is required''])
      else None)"

subsection \<open>The outside world of the loaders\<close>

text \<open>A \<^verbatim>\<open>yaml.Node\<close> as far as \<^verbatim>\<open>validateProfileYAMLKeys\<close> looks at it.\<close>

datatype yaml_node = YNode (yn_mapping: bool) (yn_Value: string) (yn_Content: "yaml_node list")

record dir_entry =
  de_Name :: string
  de_IsDir :: bool

record dfir_io =
  os_ReadDir :: "string \<Rightarrow> gerror + dir_entry list"
  os_ReadFile :: "string \<Rightarrow> gerror + string"
  yaml_Unmarshal :: "string \<Rightarrow> gerror + yaml_node"
  yaml_Decode_Profile :: "string \<Rightarrow> gerror + Profile"
  yaml_Decode_catalogFile :: "string \<Rightarrow> gerror + catalogFile"

subsection \<open>Registry (registry.go)\<close>

record Registry = rg_profiles :: "Profile gomap"

fun mapping_keys :: "yaml_node list \<Rightarrow> string list" where
  "mapping_keys [] = []"
| "mapping_keys [k] = [yn_Value k]"
| "mapping_keys (k # v # rest) = yn_Value k # mapping_keys rest"

definition required_keys :: "string list" where
  "required_keys = [''name'', ''description'', ''target_os'', ''artifacts'', ''risk_level'',
     ''requires_approval'', ''max_runtime_seconds'', ''max_result_rows'', ''max_result_bytes'']"

definition validateProfileYAMLKeys :: "dfir_io \<Rightarrow> string \<Rightarrow> gerror option" where
  "validateProfileYAMLKeys io data =
     (case yaml_Unmarshal io data of
        Inl err \<Rightarrow> Some err
      | Inr doc \<Rightarrow>
          (case yn_Content doc of
             [m] \<Rightarrow>
               if \<not> yn_mapping m then Some (errorf ''profile YAML must be a mapping'')
               else let seen = mapping_keys (yn_Content m) in
                    first_error
                      (\<lambda>r. if r \<notin> set seen then Some (errorf (r @ '' is required'')) else None)
                      required_keys
           | _ \<Rightarrow> Some (errorf ''profile YAML must be a mapping'')))"

text \<open>One round of the loop of \<^verbatim>\<open>LoadDir\<close>: a skipped entry leaves the map as it is.\<close>

definition load_entry :: "dfir_io \<Rightarrow> string \<Rightarrow> dir_entry \<Rightarrow> Profile gomap \<Rightarrow> gerror + Profile gomap" where
  "load_entry io dir e profiles =
     (if de_IsDir e \<or> Ext (de_Name e) \<noteq> ''.yaml'' then Inr profiles
      else let path = Join dir (de_Name e) in
        case os_ReadFile io path of
          Inl err \<Rightarrow> Inl (Errorf [Lit (''dfir: read '' @ path @ '': ''), Wrap err])
        | Inr data \<Rightarrow>
        (case validateProfileYAMLKeys io data of
           Some err \<Rightarrow> Inl (Errorf [Lit (''dfir: parse '' @ path @ '': ''), Wrap err])
         | None \<Rightarrow>
        (case yaml_Decode_Profile io data of
           Inl err \<Rightarrow> Inl (Errorf [Lit (''dfir: parse '' @ path @ '': ''), Wrap err])
         | Inr p \<Rightarrow>
        (case validateProfileMetadata p of
           Some err \<Rightarrow> Inl (Errorf [Lit (''dfir: '' @ path @ '': ''), Wrap err])
         | None \<Rightarrow>
           if map_of profiles (pf_Name p) \<noteq> None
           then Inl (Errorf [Lit ''dfir: duplicate profile name '', Quo (pf_Name p)])
           else Inr ((pf_Name p, p) # profiles)))))"

fun load_entries :: "dfir_io \<Rightarrow> string \<Rightarrow> dir_entry list \<Rightarrow> Profile gomap \<Rightarrow> gerror + Profile gomap" where
  "load_entries io dir [] profiles = Inr profiles"
| "load_entries io dir (e # es) profiles =
     (case load_entry io dir e profiles of
        Inl err \<Rightarrow> Inl err
      | Inr profiles' \<Rightarrow> load_entries io dir es profiles')"

definition LoadDir :: "dfir_io \<Rightarrow> string \<Rightarrow> gerror + Registry" where
  "LoadDir io dir =
     (case os_ReadDir io dir of
        Inl err \<Rightarrow> Inl (Errorf [Lit (''dfir: read profiles dir '' @ dir @ '': ''), Wrap err])
      | Inr entries \<Rightarrow>
          (case load_entries io dir entries [] of
             Inl err \<Rightarrow> Inl err
           | Inr profiles \<Rightarrow> Inr \<lparr>rg_profiles = profiles\<rparr>))"

definition Registry_Get :: "Registry \<Rightarrow> string \<Rightarrow> Profile option" where
  "Registry_Get r name = map_of (rg_profiles r) name"

definition Registry_List :: "Registry \<Rightarrow> Profile list" where
  "Registry_List r = map (\<lambda>n. the (map_of (rg_profiles r) n)) (sort (map fst (rg_profiles r)))"

subsection \<open>Catalog (catalog.go)\<close>

fun load_catalog_entries ::
  "string \<Rightarrow> CatalogArtifact list \<Rightarrow> CatalogArtifact gomap \<Rightarrow> gerror + CatalogArtifact gomap" where
  "load_catalog_entries path [] artifacts = Inr artifacts"
| "load_catalog_entries path (a # as) artifacts =
     (case validateCatalogArtifact a of
        Some err \<Rightarrow> Inl (Errorf [Lit (''dfir: artifact catalog '' @ path @ '': ''), Wrap err])
      | None \<Rightarrow>
          if map_of artifacts (ca_Name a) \<noteq> None
          then Inl (Errorf [Lit (''dfir: artifact catalog '' @ path @ '': duplicate artifact ''), Quo (ca_Name a)])
          else load_catalog_entries path as ((ca_Name a, a) # artifacts))"

definition LoadCatalog :: "dfir_io \<Rightarrow> string \<Rightarrow> gerror + Catalog" where
  "LoadCatalog io path =
     (case os_ReadFile io path of
        Inl err \<Rightarrow> Inl (Errorf [Lit (''dfir: read artifact catalog '' @ path @ '': ''), Wrap err])
      | Inr data \<Rightarrow>
     (case yaml_Decode_catalogFile io data of
        Inl err \<Rightarrow> Inl (Errorf [Lit (''dfir: parse artifact catalog '' @ path @ '': ''), Wrap err])
      | Inr cf \<Rightarrow>
     (case load_catalog_entries path (cf_Artifacts cf) [] of
        Inl err \<Rightarrow> Inl err
      | Inr artifacts \<Rightarrow>
          if length artifacts = 0
          then Inl (errorf (''dfir: artifact catalog '' @ path @ '': no artifacts defined''))
          else Inr \<lparr>cat_artifacts = artifacts\<rparr>)))"

definition Catalog_Has :: "Catalog \<Rightarrow> string \<Rightarrow> bool" where
  "Catalog_Has c name \<longleftrightarrow> map_of (cat_artifacts c) name \<noteq> None"

definition Catalog_Get :: "Catalog \<Rightarrow> string \<Rightarrow> CatalogArtifact option" where
  "Catalog_Get c name = map_of (cat_artifacts c) name"

definition Catalog_Len :: "Catalog \<Rightarrow> nat" where
  "Catalog_Len c = length (cat_artifacts c)"

definition Catalog_Names :: "Catalog \<Rightarrow> string list" where
  "Catalog_Names c = sort (map fst (cat_artifacts c))"

definition ValidateProfileAgainstCatalog :: "Profile \<Rightarrow> Catalog \<Rightarrow> gerror option" where
  "ValidateProfileAgainstCatalog p c =
     (if length (pf_Artifacts p) = 0
      then Some (Errorf [Lit ''dfir: profile '', Quo (pf_Name p), Lit '' defines no artifacts''])
      else first_error
        (\<lambda>a. if \<not> Catalog_Has c (pf_artName a)
             then Some (Errorf [Lit ''dfir: profile '', Quo (pf_Name p), Lit '' references artifact '',
                    Quo (pf_artName a), Lit '' not present in the curated artifact catalog''])
             else None)
        (pf_Artifacts p))"

subsection \<open>A loaded registry is well formed\<close>

definition limits_ok :: "Profile \<Rightarrow> bool" where
  "limits_ok p \<longleftrightarrow> pf_Name p \<noteq> [] \<and> pf_RiskLevel p \<in> {''low'', ''medium'', ''high''}
     \<and> pf_MaxRuntimeSeconds p \<in> {1..86400} \<and> pf_MaxResultRows p \<in> {1..1000000}
     \<and> pf_MaxResultBytes p \<in> {1..1073741824}"

lemma validateProfileMetadata_iff: "validateProfileMetadata p = None \<longleftrightarrow> limits_ok p"
  by (auto simp: validateProfileMetadata_def limits_ok_def)

definition wf_profiles :: "Profile gomap \<Rightarrow> bool" where
  "wf_profiles m \<longleftrightarrow> wf_gomap m \<and> list_all (\<lambda>(n, p). n = pf_Name p \<and> limits_ok p) m"

lemma load_entry_wf:
  "load_entry io dir e m = Inr m' \<Longrightarrow> wf_profiles m \<Longrightarrow> wf_profiles m'"
  by (auto simp: load_entry_def wf_profiles_def wf_gomap_def Let_def map_of_eq_None_iff
                 validateProfileMetadata_iff
           split: if_splits sum.splits option.splits)

lemma load_entries_wf:
  "load_entries io dir es m = Inr m' \<Longrightarrow> wf_profiles m \<Longrightarrow> wf_profiles m'"
  by (induction io dir es m rule: load_entries.induct)
     (auto split: sum.splits intro: load_entry_wf)

lemma LoadDir_wf: "LoadDir io dir = Inr r \<Longrightarrow> wf_profiles (rg_profiles r)"
  using load_entries_wf [of io dir _ "[]"]
  by (auto simp: LoadDir_def wf_profiles_def [of "[]"] split: sum.splits)

lemma Registry_Get_wf:
  "wf_profiles (rg_profiles r) \<Longrightarrow> Registry_Get r n = Some p \<Longrightarrow> pf_Name p = n \<and> limits_ok p"
  by (auto simp: Registry_Get_def wf_profiles_def list_all_iff dest!: map_of_SomeD)

lemma wf_profiles_the:
  "wf_profiles m \<Longrightarrow> n \<in> set (map fst m) \<Longrightarrow> \<exists>p. map_of m n = Some p \<and> pf_Name p = n"
proof -
  assume wf: "wf_profiles m" and "n \<in> set (map fst m)"
  then obtain p where p: "(n, p) \<in> set m" by auto
  with wf have "map_of m n = Some p" by (simp add: wf_profiles_def wf_gomap_def)
  moreover have "pf_Name p = n" using wf p by (auto simp: wf_profiles_def list_all_iff)
  ultimately show ?thesis by blast
qed

lemma Registry_List_names:
  assumes "wf_profiles (rg_profiles r)"
  shows "map pf_Name (Registry_List r) = sort (map fst (rg_profiles r))"
  unfolding Registry_List_def map_map
proof (rule map_idI)
  fix n assume "n \<in> set (sort (map fst (rg_profiles r)))"
  then show "(pf_Name \<circ> (\<lambda>n. the (map_of (rg_profiles r) n))) n = n"
    using wf_profiles_the [OF assms, of n] by auto
qed

text \<open>Whatever files the directory holds: \<^verbatim>\<open>List\<close> is sorted by name without duplicates and
  shows exactly the profiles \<^verbatim>\<open>Get\<close> finds.\<close>

lemma Registry_List_wf:
  assumes wf: "wf_profiles (rg_profiles r)"
  shows "sorted (map pf_Name (Registry_List r)) \<and> distinct (map pf_Name (Registry_List r))
    \<and> set (Registry_List r) = {p. Registry_Get r (pf_Name p) = Some p}"
proof -
  have dist: "distinct (map fst (rg_profiles r))" using wf by (simp add: wf_profiles_def wf_gomap_def)
  have "set (Registry_List r) = (\<lambda>n. the (map_of (rg_profiles r) n)) ` set (map fst (rg_profiles r))"
    by (simp add: Registry_List_def)
  also have "\<dots> = {p. map_of (rg_profiles r) (pf_Name p) = Some p}" (is "?L = ?R")
  proof
    show "?L \<subseteq> ?R" using wf_profiles_the [OF wf] by fastforce
    show "?R \<subseteq> ?L"
    proof
      fix p assume "p \<in> ?R"
      then have "the (map_of (rg_profiles r) (pf_Name p)) = p" and "(pf_Name p, p) \<in> set (rg_profiles r)"
        by (auto dest: map_of_SomeD)
      then show "p \<in> ?L" by force
    qed
  qed
  finally show ?thesis using dist by (simp add: Registry_List_names [OF wf] Registry_Get_def)
qed

lemmas Registry_List_sorted = Registry_List_wf [OF LoadDir_wf]

lemma Registry_List_set: "wf_profiles (rg_profiles r) \<Longrightarrow> p \<in> set (Registry_List r) \<longleftrightarrow> Registry_Get r (pf_Name p) = Some p"
  using Registry_List_wf [of r] by blast

subsection \<open>Profiles do not escalate: the allowlist interface\<close>

lemma ValidateProfile_None_iff:
  "ValidateProfile p allow = None \<longleftrightarrow>
     limits_ok p \<and> pf_Artifacts p \<noteq> [] \<and> (\<forall>a \<in> set (pf_Artifacts p). allow (pf_artName a))"
  unfolding ValidateProfile_def
  by (cases "validateProfileMetadata p")
     (auto simp: first_error_None_iff check_allowed_def validateProfileMetadata_iff [symmetric])

text \<open>
  \<^verbatim>\<open>ArtifactAllowlister\<close> as the profile code relies on it: the answer is membership in a fixed
  list of names, so it does not depend on which profile asks.
\<close>

locale allowlister =
  fixes allowed :: "'e \<Rightarrow> string \<Rightarrow> bool" and entries :: "'e \<Rightarrow> string list"
  assumes allowed_iff: "allowed e n \<longleftrightarrow> n \<in> set (entries e)"
begin

lemma validated_profile_grants:
  "ValidateProfile p (allowed e) = None \<Longrightarrow> pf_artName ` set (pf_Artifacts p) \<subseteq> set (entries e)"
  by (auto simp: ValidateProfile_None_iff allowed_iff)

lemma empty_allowlist_refuses: "entries e = [] \<Longrightarrow> ValidateProfile p (allowed e) \<noteq> None"
  by (cases "pf_Artifacts p") (auto simp: ValidateProfile_None_iff allowed_iff)

lemma narrowing:
  "set (entries e) \<subseteq> set (entries e') \<Longrightarrow> ValidateProfile p (allowed e) = None \<Longrightarrow>
   ValidateProfile p (allowed e') = None"
  by (auto simp: ValidateProfile_None_iff allowed_iff)

end

interpretation engine_allow: allowlister ArtifactAllowed "\<lambda>e. pc_AllowedArtifacts (en_cfg e)"
  by unfold_locales (simp add: ArtifactAllowed_def)

interpretation catalog_allow: allowlister Catalog_Has "\<lambda>c. map fst (cat_artifacts c)"
  by unfold_locales (auto simp: Catalog_Has_def map_of_eq_None_iff)

lemma ValidateProfileAgainstCatalog_iff:
  "ValidateProfileAgainstCatalog p c = None \<longleftrightarrow>
     pf_Artifacts p \<noteq> [] \<and> pf_artName ` set (pf_Artifacts p) \<subseteq> set (Catalog_Names c)"
  by (auto simp: ValidateProfileAgainstCatalog_def first_error_None_iff Catalog_Names_def
                 catalog_allow.allowed_iff image_subset_iff split: if_splits)

text \<open>
  Property C35 (invariant). Every registry that loads, from any directory contents, files each
  profile under its own non-empty name, keeps every limit in its documented range, lists the
  profiles sorted by name without duplicates, and lists exactly what a lookup finds.
\<close>

theorem registry_loaded_wf:
  assumes "LoadDir io dir = Inr r"
  shows "sorted (map pf_Name (Registry_List r)) \<and> distinct (map pf_Name (Registry_List r))
    \<and> (\<forall>n p. Registry_Get r n = Some p \<longleftrightarrow> p \<in> set (Registry_List r) \<and> pf_Name p = n)
    \<and> list_all limits_ok (Registry_List r)"
  using Registry_List_sorted [OF assms] Registry_Get_wf [OF LoadDir_wf [OF assms]]
  by (auto simp: list_all_iff)

definition sample_profile :: "string \<Rightarrow> Profile" where
  "sample_profile n = \<lparr>pf_Name = n, pf_DisplayName = [], pf_Description = [], pf_TargetOS = ''any'',
     pf_Artifacts = [\<lparr>pf_artName = ''Windows.System.Pslist'', pf_Parameters = []\<rparr>], pf_Category = [],
     pf_RiskLevel = ''low'', pf_RequiresApproval = True, pf_MaxRuntimeSeconds = 60,
     pf_MaxResultRows = 10, pf_MaxResultBytes = 1024\<rparr>"

text \<open>A directory of two profile files and one other file; a file's content is its profile's name.\<close>

definition sample_io :: dfir_io where
  "sample_io = \<lparr>os_ReadDir = (\<lambda>d. Inr [\<lparr>de_Name = ''b.yaml'', de_IsDir = False\<rparr>,
       \<lparr>de_Name = ''README.md'', de_IsDir = False\<rparr>, \<lparr>de_Name = ''a.yaml'', de_IsDir = False\<rparr>]),
     os_ReadFile = (\<lambda>path. Inr path),
     yaml_Unmarshal = (\<lambda>d. Inr (YNode False [] [YNode True []
        (concat (map (\<lambda>k. [YNode False k [], YNode False [] []]) required_keys))])),
     yaml_Decode_Profile = (\<lambda>d. Inr (sample_profile d)),
     yaml_Decode_catalogFile = (\<lambda>d. Inl (errorf ''not a catalog''))\<rparr>"

definition sample_registry :: Registry where
  "sample_registry = \<lparr>rg_profiles = [(''p/a.yaml'', sample_profile ''p/a.yaml''),
     (''p/b.yaml'', sample_profile ''p/b.yaml'')]\<rparr>"

lemma sample_registry_loads: "LoadDir sample_io ''p'' = Inr sample_registry"
  by code_simp

theorem registry_loaded_wf_witness:
  "sorted (map pf_Name (Registry_List sample_registry)) \<and> length (Registry_List sample_registry) = 2"
  using registry_loaded_wf [OF sample_registry_loads] by (simp add: Registry_List_def sample_registry_def)

text \<open>
  A profile that passes validation against the policy engine references
  only artifacts of the configured allowlist, and at least one: a profile is a grouping,
  never a way around artifact policy.
\<close>

theorem profile_no_escalation:
  assumes "ValidateProfile p (ArtifactAllowed (NewEngine cfg)) = None"
  shows "pf_Artifacts p \<noteq> [] \<and> pf_artName ` set (pf_Artifacts p) \<subseteq> set (pc_AllowedArtifacts cfg)"
  using assms engine_allow.validated_profile_grants [OF assms]
  by (simp add: ValidateProfile_None_iff NewEngine_def)

theorem profile_no_escalation_witness:
  "pf_artName ` set (pf_Artifacts (sample_profile ''t'')) \<subseteq> set (pc_AllowedArtifacts (c_Policy Default))"
proof -
  have "ValidateProfile (sample_profile ''t'') (ArtifactAllowed (NewEngine (c_Policy Default))) = None"
    by code_simp
  from profile_no_escalation [OF this] show ?thesis by blast
qed

end
