(* ===== verification/Response.thy ===== *)
theory Response
  imports Prelude
begin

text \<open>
  \<^verbatim>\<open>internal/response\<close>: the status vocabulary embedded in the tool outputs. \<open>StatusUnset\<close> is
  the empty string of a zero \<^verbatim>\<open>Result\<close>.
\<close>

datatype Status =
    StatusUnset | StatusSuccess | StatusEmpty | StatusSourceRequired | StatusNotFound | StatusError

record Result =
  rs_Status :: Status
  rs_Message :: string

definition zeroResult :: Result where
  "zeroResult = \<lparr>rs_Status = StatusUnset, rs_Message = []\<rparr>"

definition Success :: "string \<Rightarrow> Result" where
  "Success message = \<lparr>rs_Status = StatusSuccess, rs_Message = message\<rparr>"

definition Empty :: "string \<Rightarrow> Result" where
  "Empty message = \<lparr>rs_Status = StatusEmpty, rs_Message = message\<rparr>"

definition NotFound :: "string \<Rightarrow> Result" where
  "NotFound message = \<lparr>rs_Status = StatusNotFound, rs_Message = message\<rparr>"

definition SourceRequired :: "string \<Rightarrow> Result" where
  "SourceRequired message = \<lparr>rs_Status = StatusSourceRequired, rs_Message = message\<rparr>"

definition ErrorResult :: "string \<Rightarrow> Result" where
  "ErrorResult message = \<lparr>rs_Status = StatusError, rs_Message = message\<rparr>"

definition StatusForCount :: "int \<Rightarrow> Status" where
  "StatusForCount count = (if count = 0 then StatusEmpty else StatusSuccess)"

end
