(* ===== verification/Velociraptor_Client.thy ===== *)
theory Velociraptor_Client
  imports Sanitize
begin

text \<open>
  The \<^verbatim>\<open>Client\<close> interface of \<^verbatim>\<open>internal/velociraptor\<close> (client.go, clients.go, artifacts.go, flows.go,
  hunts.go, uploads.go) as the handlers see it: a record of functions for the read half and one
  for the write half. What a client answers is a parameter of every handler; the only client
  defined here is the placeholder of client.go, which refuses everything.

  The first argument of a method is the moment of the call, so that the same request may be
  answered differently each time.
\<close>

subsection \<open>Backend operations and data (client.go, clients.go, artifacts.go, flows.go, hunts.go, uploads.go)\<close>

type_synonym BackendOperation = string

definition BackendOpCollectArtifact :: BackendOperation where
  "BackendOpCollectArtifact = ''collect_artifact''"
definition BackendOpCancelFlow :: BackendOperation where
  "BackendOpCancelFlow = ''cancel_flow''"
definition BackendOpDownloadFlowUpload :: BackendOperation where
  "BackendOpDownloadFlowUpload = ''download_flow_upload''"
definition BackendOpStartHunt :: BackendOperation where
  "BackendOpStartHunt = ''start_hunt''"
definition BackendOpCancelHunt :: BackendOperation where
  "BackendOpCancelHunt = ''cancel_hunt''"

record Info =
  in_ServerVersion :: string
  in_OrgID :: string

record ClientSummary =
  cl_ClientID :: string
  cl_Hostname :: string
  cl_OS :: string
  cl_LastSeenAt :: string
  cl_LastIP :: string
  cl_AgentVersion :: string

record ClientDetail =
  cd_Summary :: ClientSummary
  cd_Labels :: "string list"
  cd_MacAddresses :: "string list"

record ArtifactSummary =
  as_Name :: string
  as_Description :: string

record ArtifactParameter =
  ap_Name :: string
  ap_Type :: string
  ap_Description :: string
  ap_Default :: string

record ArtifactDetail =
  ad_Summary :: ArtifactSummary
  ad_Parameters :: "ArtifactParameter list"

record FlowSummary =
  fl_FlowID :: string
  fl_ClientID :: string
  fl_Artifact :: string
  fl_State :: string
  fl_CreatedAt :: string

text \<open>One result row, a \<^verbatim>\<open>map[string]any\<close>.\<close>

type_synonym row = "goval gomap"

record FlowResultPage =
  fp_Rows :: "row list"
  fp_Truncated :: bool
  fp_TotalRows :: int
  fp_ReturnedRows :: int
  fp_NextCursor :: string
  fp_SourceRequired :: bool
  fp_AvailableSources :: "string list"

record UploadSummary =
  up_Component :: string
  up_Name :: string
  up_SizeBytes :: int
  up_Hash :: string

record CollectionRequest =
  cr_ClientID :: string
  cr_Artifact :: string
  cr_Parameters :: "string gomap"

record HuntSummary =
  hu_HuntID :: string
  hu_Artifact :: string
  hu_State :: string
  hu_CreatedAt :: string
  hu_ClientCount :: int

record HuntScopePreview =
  sp_MatchedClientCount :: int
  sp_SampleClientIDs :: "string list"
  sp_ExceedsMaxClients :: bool

record HuntScopeRequest =
  sr_ClientIDs :: "string list"
  sr_Label :: string
  sr_All :: bool

record HuntRequest =
  hr_Artifact :: string
  hr_Parameters :: "string gomap"
  hr_Scope :: HuntScopeRequest
  hr_MaxClients :: int

subsection \<open>The two halves of the client interface\<close>

record write_client =
  wc_Supports :: "(BackendOperation \<Rightarrow> bool) option"
  wc_CollectArtifact :: "nat \<Rightarrow> CollectionRequest \<Rightarrow> gerror + FlowSummary"
  wc_CancelFlow :: "nat \<Rightarrow> string \<Rightarrow> string \<Rightarrow> gerror option"
  wc_StartHunt :: "nat \<Rightarrow> HuntRequest \<Rightarrow> gerror + HuntSummary"
  wc_CancelHunt :: "nat \<Rightarrow> string \<Rightarrow> gerror option"
  wc_DownloadFlowUpload :: "nat \<Rightarrow> string \<Rightarrow> string \<Rightarrow> string \<Rightarrow> int \<Rightarrow> gerror + string"

record read_client =
  rc_HealthCheck :: "nat \<Rightarrow> gerror + Info"
  rc_SearchClients :: "nat \<Rightarrow> string \<Rightarrow> int \<Rightarrow> gerror + ClientSummary list"
  rc_GetClientInfo :: "nat \<Rightarrow> string \<Rightarrow> gerror + ClientDetail"
  rc_ListArtifactNames :: "nat \<Rightarrow> gerror + ArtifactSummary list"
  rc_GetArtifactDetails :: "nat \<Rightarrow> string \<Rightarrow> gerror + ArtifactDetail"
  rc_ListFlows :: "nat \<Rightarrow> string \<Rightarrow> int \<Rightarrow> string \<Rightarrow> gerror + FlowSummary list"
  rc_GetFlowStatus :: "nat \<Rightarrow> string \<Rightarrow> string \<Rightarrow> gerror + FlowSummary"
  rc_GetFlowResults :: "nat \<Rightarrow> string \<Rightarrow> string \<Rightarrow> string \<Rightarrow> int \<Rightarrow> int \<Rightarrow> string \<Rightarrow> gerror + FlowResultPage"
  rc_ListFlowUploads :: "nat \<Rightarrow> string \<Rightarrow> string \<Rightarrow> gerror + UploadSummary list"
  rc_GetFlowUploadMetadata :: "nat \<Rightarrow> string \<Rightarrow> string \<Rightarrow> string \<Rightarrow> gerror + UploadSummary"
  rc_ListHunts :: "nat \<Rightarrow> int \<Rightarrow> gerror + HuntSummary list"
  rc_GetHuntStatus :: "nat \<Rightarrow> string \<Rightarrow> gerror + HuntSummary"
  rc_GetHuntResults :: "nat \<Rightarrow> string \<Rightarrow> string \<Rightarrow> int \<Rightarrow> int \<Rightarrow> gerror + FlowResultPage"
  rc_PreviewHuntScope :: "nat \<Rightarrow> HuntScopeRequest \<Rightarrow> gerror + HuntScopePreview"

text \<open>The placeholder client of client.go.\<close>

definition placeholderClient :: write_client where
  "placeholderClient = \<lparr>wc_Supports = Some (\<lambda>op. False),
     wc_CollectArtifact = (\<lambda>t r. Inl (Sentinel ErrNotImplemented)),
     wc_CancelFlow = (\<lambda>t c f. Some (Sentinel ErrNotImplemented)),
     wc_StartHunt = (\<lambda>t r. Inl (Sentinel ErrNotImplemented)),
     wc_CancelHunt = (\<lambda>t h. Some (Sentinel ErrNotImplemented)),
     wc_DownloadFlowUpload = (\<lambda>t c f u m. Inl (Sentinel ErrNotImplemented))\<rparr>"

definition placeholderReader :: read_client where
  "placeholderReader = (let no = Sentinel ErrNotImplemented in
     \<lparr>rc_HealthCheck = (\<lambda>t. Inl no), rc_SearchClients = (\<lambda>t q l. Inl no), rc_GetClientInfo = (\<lambda>t c. Inl no),
      rc_ListArtifactNames = (\<lambda>t. Inl no), rc_GetArtifactDetails = (\<lambda>t n. Inl no),
      rc_ListFlows = (\<lambda>t c l k. Inl no), rc_GetFlowStatus = (\<lambda>t c f. Inl no),
      rc_GetFlowResults = (\<lambda>t c f s r b k. Inl no), rc_ListFlowUploads = (\<lambda>t c f. Inl no),
      rc_GetFlowUploadMetadata = (\<lambda>t c f u. Inl no), rc_ListHunts = (\<lambda>t l. Inl no),
      rc_GetHuntStatus = (\<lambda>t h. Inl no), rc_GetHuntResults = (\<lambda>t h s r b. Inl no),
      rc_PreviewHuntScope = (\<lambda>t s. Inl no)\<rparr>)"

subsection \<open>Calls as they appear in a trace\<close>

datatype write_call =
    CollectArtifactCall CollectionRequest
  | CancelFlowCall string string
  | StartHuntCall HuntRequest
  | CancelHuntCall string
  | DownloadCall string string string int

datatype read_call =
    HealthCheckCall
  | SearchClientsCall string int
  | GetClientInfoCall string
  | ListArtifactNamesCall
  | GetArtifactDetailsCall string
  | ListFlowsCall string int string
  | GetFlowStatusCall string string
  | GetFlowResultsCall string string string int int string
  | ListFlowUploadsCall string string
  | GetFlowUploadMetadataCall string string string
  | ListHuntsCall int
  | GetHuntStatusCall string
  | GetHuntResultsCall string string int int
  | PreviewHuntScopeCall HuntScopeRequest

end
