(* ===== verification/Server.thy ===== *)
theory Server
  imports Approval_Store Audit_Log Dfir Response Velociraptor_Client
begin

text \<open>
  \<^verbatim>\<open>internal/mcpserver/server.go\<close>: the dependencies of the handlers, the audit and approval gates, and \<open>approved_write\<close>, the
  sequence of gates that every approval-gated handler spells out in the same order.

  A handler is a function from the environment, the dependencies, its input and a \<open>world\<close> to the
  world afterwards and its result. The world holds the approval store, the audit sink and the
  trace of interactions with the outside (\<open>effect\<close>): audit writes, store reads and consumptions,
  write calls to Velociraptor, and files written. Between two store operations of a handler
  other processes may change the store file: \<open>e_other\<close> says how, so the theorems hold under any
  interleaving with operators and other servers.

  \<open>approved_write_gated\<close> is the central lemma: a write call appears in the trace only after an
  approval that matches the request, is approved, unconsumed and unexpired was read, the attempt
  was recorded, and the approval was consumed, in that order; in every other case the
  handler consumes nothing.
\<close>

subsection \<open>Dependencies, environment, world\<close>

definition VelociraptorModeMock :: string where
  "VelociraptorModeMock = ''mock''"
definition VelociraptorModeReal :: string where
  "VelociraptorModeReal = ''real''"

record Deps =
  d_Config :: "Config option"
  d_Policy :: "Engine option"
  d_Approvals :: "FileStore option"
  d_Profiles :: "Registry option"
  d_ReadClient :: "read_client option"
  d_VelociraptorReadMode :: string
  d_WriteClient :: "write_client option"
  d_VelociraptorWriteMode :: string

datatype effect =
    StoreGet string "gerror + ApprovalStatus"
  | StoreConsume string "gerror + unit"
  | Audited Event bool
  | Called write_call
  | Queried read_call
  | MadeDir string
  | WroteFile string string

record env =
  e_store :: store_env
  e_audit :: audit_env
  e_other :: "nat \<Rightarrow> store_file option \<Rightarrow> store_file option"
  e_now :: "nat \<Rightarrow> time"
  e_os :: "nat \<Rightarrow> gerror option"
  e_rand :: "nat \<Rightarrow> gerror + 8 word list"
  e_partial :: "nat \<Rightarrow> nat option"
  e_quote :: "string \<Rightarrow> string"
  e_marshal :: "row \<Rightarrow> gerror + string"
  e_sprint :: "row \<Rightarrow> string"
  e_lowerU :: "string \<Rightarrow> string"
  e_trimU :: "string \<Rightarrow> string"

record world =
  w_store :: store_state
  w_audit :: "Sink option"
  w_tick :: nat
  w_trace :: "effect list"

definition emit :: "effect \<Rightarrow> world \<Rightarrow> world" where
  "emit x w = w\<lparr>w_trace := w_trace w @ [x], w_tick := Suc (w_tick w)\<rparr>"

abbreviation err_text :: "env \<Rightarrow> gerror \<Rightarrow> string" where
  "err_text env e \<equiv> Error_text (e_quote env) e"

text \<open>The store as this call finds it, after whatever others did to the file.\<close>

definition interfere :: "env \<Rightarrow> world \<Rightarrow> store_state" where
  "interfere env w = (w_store w)\<lparr>ss_file := e_other env (w_tick w) (ss_file (w_store w))\<rparr>"

definition Approvals_Get :: "env \<Rightarrow> FileStore \<Rightarrow> string \<Rightarrow> world \<Rightarrow> world \<times> (gerror + ApprovalStatus)" where
  "Approvals_Get env fs reference w =
     (case FileStore_Get (e_store env) fs reference (interfere env w) of
        (s', r) \<Rightarrow> (emit (StoreGet reference r) (w\<lparr>w_store := s'\<rparr>), r))"

definition Approvals_Consume :: "env \<Rightarrow> FileStore \<Rightarrow> string \<Rightarrow> world \<Rightarrow> world \<times> (gerror + unit)" where
  "Approvals_Consume env fs reference w =
     (case FileStore_Consume (e_store env) fs reference (interfere env w) of
        (s', r) \<Rightarrow> (emit (StoreConsume reference r) (w\<lparr>w_store := s'\<rparr>), r))"

definition Audit_Write :: "env \<Rightarrow> Event \<Rightarrow> Sink \<Rightarrow> world \<Rightarrow> world \<times> gerror option" where
  "Audit_Write env evt sink w =
     (case Sink_Write (e_audit env) evt sink of
        (sink', r) \<Rightarrow> (emit (Audited evt (r = None)) (w\<lparr>w_audit := Some sink'\<rparr>), r))"

subsection \<open>Audit gates (server.go)\<close>

definition stamp :: "env \<Rightarrow> Deps \<Rightarrow> Event \<Rightarrow> world \<Rightarrow> Event" where
  "stamp env deps evt w =
     (let evt1 = evt\<lparr>ev_Timestamp := e_now env (w_tick w)\<rparr> in
      if d_Config deps \<noteq> None
      then evt1\<lparr>ev_Reason := SanitizeString (ev_Reason evt1), ev_RequestReason := SanitizeString (ev_RequestReason evt1)\<rparr>
      else evt1)"

definition recordAudit :: "env \<Rightarrow> Deps \<Rightarrow> Event \<Rightarrow> world \<Rightarrow> world" where
  "recordAudit env deps evt w =
     (case w_audit w of
        None \<Rightarrow> w
      | Some sink \<Rightarrow> fst (Audit_Write env (stamp env deps evt w) sink w))"

definition gateAuditForWrite :: "env \<Rightarrow> Deps \<Rightarrow> Event \<Rightarrow> world \<Rightarrow> world \<times> Result \<times> bool" where
  "gateAuditForWrite env deps evt w =
     (case w_audit w of
        None \<Rightarrow> (w, zeroResult, True)
      | Some sink \<Rightarrow>
          (case Audit_Write env (stamp env deps (evt\<lparr>ev_Outcome := OutcomeAttempt\<rparr>) w) sink w of
             (w', Some err) \<Rightarrow> (w', ErrorResult ''audit log is unavailable; refusing to execute this approval-gated operation (the approval was not consumed)'', False)
           | (w', None) \<Rightarrow> (w', zeroResult, True)))"

subsection \<open>Policy and approval gates (server.go)\<close>

definition pilotDisabledPolicy :: string where
  "pilotDisabledPolicy = ''the controlled write pilot is disabled: policy.mode must be '' @ [CHR 0x22] @ ''controlled'' @ [CHR 0x22] @ '' (default is '' @ [CHR 0x22] @ ''read_only'' @ [CHR 0x22] @ '')''"

definition writePilotEnabled :: "Deps \<Rightarrow> bool \<times> string" where
  "writePilotEnabled deps =
     (if (case d_Policy deps of None \<Rightarrow> True | Some p \<Rightarrow> ReadOnly p) then (False, pilotDisabledPolicy)
      else if d_Approvals deps = None
      then (False, ''the controlled write pilot is disabled: approval.store_path is not configured'')
      else (True, []))"

definition backendOperationReady :: "env \<Rightarrow> write_client option \<Rightarrow> BackendOperation \<Rightarrow> Result" where
  "backendOperationReady env client operation =
     (case client of
        None \<Rightarrow> ErrorResult ''real mode is configured but no Velociraptor write client is available''
      | Some c \<Rightarrow>
          (case wc_Supports c of
             Some supports \<Rightarrow>
               if \<not> supports operation
               then ErrorResult (''backend_not_implemented: Velociraptor backend operation '' @ e_quote env operation @ '' is not implemented by this build'')
               else zeroResult
           | None \<Rightarrow> zeroResult))"

definition judge_status :: "Request \<Rightarrow> ApprovalStatus \<Rightarrow> Result \<times> Outcome \<times> bool" where
  "judge_status candidate status =
     (if RequestFingerprint (st_Request status) \<noteq> RequestFingerprint candidate
      then (ErrorResult ''approval reference does not match this operation's case_id/client_id/artifact/profile/parameters/flow_id/upload_name'', OutcomeBlocked, False)
      else case st_Decision status of
        None \<Rightarrow> (ErrorResult ''approval reference has not yet been decided; ask a human operator to approve or deny it via the approve CLI'', OutcomeBlocked, False)
      | Some d \<Rightarrow>
          if \<not> dc_Approved d
          then (ErrorResult (if dc_Note d \<noteq> [] then ''approval reference was denied: '' @ dc_Note d else ''approval reference was denied''), OutcomeBlocked, False)
          else if st_Consumed status
          then (ErrorResult ''approval reference has already been used'', OutcomeBlocked, False)
          else if st_Expired status
          then (ErrorResult ''approval reference has expired'', OutcomeBlocked, False)
          else (zeroResult, OutcomeSuccess, True))"

text \<open>A nil store is a nil dereference in the source; every handler checks
  \<^const>\<open>writePilotEnabled\<close> first, so the last branch is not reached.\<close>

definition verifyApproval :: "env \<Rightarrow> Deps \<Rightarrow> string \<Rightarrow> Request \<Rightarrow> world \<Rightarrow> world \<times> Result \<times> Outcome \<times> bool" where
  "verifyApproval env deps reference candidate w =
     (case d_Approvals deps of
        Some fs \<Rightarrow>
          (case Approvals_Get env fs reference w of
             (w', Inl err) \<Rightarrow>
               if errors_Is ErrRequestNotFound err
               then (w', NotFound (''approval reference '' @ e_quote env reference @ '' was not found''), OutcomeBlocked, False)
               else (w', ErrorResult (''approval store error: '' @ err_text env err), OutcomeError, False)
           | (w', Inr status) \<Rightarrow> (w', judge_status candidate status))
      | None \<Rightarrow> (w, ErrorResult ''nil approval store'', OutcomeError, False))"

definition consumeApproval :: "env \<Rightarrow> Deps \<Rightarrow> string \<Rightarrow> world \<Rightarrow> world \<times> Result \<times> Outcome \<times> bool" where
  "consumeApproval env deps reference w =
     (case d_Approvals deps of
        Some fs \<Rightarrow>
          (case Approvals_Consume env fs reference w of
             (w', Inl err) \<Rightarrow> (w', ErrorResult (''failed to consume approval: '' @ err_text env err), OutcomeError, False)
           | (w', Inr _) \<Rightarrow> (w', zeroResult, OutcomeSuccess, True))
      | None \<Rightarrow> (w, ErrorResult ''nil approval store'', OutcomeError, False))"

subsection \<open>The shape of an approval-gated handler\<close>

text \<open>
  Every handler starts with a series of checks; the first that fails ends the call, with an
  audit event (or, in the hunt tools' field validation, without one) and an error (or, for an
  unknown profile of a hunt, a structured answer).
\<close>

type_synonym 'o refusal = "Event option \<times> (gerror + 'o)"

definition refuse_if :: "bool \<Rightarrow> Event \<Rightarrow> gerror \<Rightarrow> 'o refusal option" where
  "refuse_if bad evt err = (if bad then Some (Some evt, Inl err) else None)"

definition check :: "gerror option \<Rightarrow> (gerror \<Rightarrow> Event option) \<Rightarrow> (gerror \<Rightarrow> gerror) \<Rightarrow> 'o refusal option" where
  "check v evt err = (case v of None \<Rightarrow> None | Some e \<Rightarrow> Some (evt e, Inl (err e)))"

fun first_refusal :: "'o refusal option list \<Rightarrow> 'o refusal option" where
  "first_refusal [] = None"
| "first_refusal (Some r # rs) = Some r"
| "first_refusal (None # rs) = first_refusal rs"

definition guarded ::
  "env \<Rightarrow> Deps \<Rightarrow> 'o refusal option list \<Rightarrow> (world \<Rightarrow> world \<times> (gerror + 'o)) \<Rightarrow> world \<Rightarrow> world \<times> (gerror + 'o)" where
  "guarded env deps checks body w =
     (case first_refusal checks of
        Some (Some evt, r) \<Rightarrow> (recordAudit env deps evt w, r)
      | Some (None, r) \<Rightarrow> (w, r)
      | None \<Rightarrow> body w)"

abbreviation blocked :: "Event \<Rightarrow> string \<Rightarrow> Event" where
  "blocked ev reason \<equiv> ev\<lparr>ev_Outcome := OutcomeBlocked, ev_Reason := reason\<rparr>"

abbreviation failed :: "Event \<Rightarrow> string \<Rightarrow> Event" where
  "failed ev reason \<equiv> ev\<lparr>ev_Outcome := OutcomeError, ev_Reason := reason\<rparr>"

text \<open>
  The gates between validation and execution, in the order every handler has them: verify the
  approval, check the backend, check the hunt scope (\<open>scopeReady\<close>, the zero result for the other
  tools), record the attempt, prepare the download directory (\<open>preflight\<close>, nothing for the
  other tools), consume the approval, execute.
\<close>

definition approved_write ::
  "env \<Rightarrow> Deps \<Rightarrow> string \<Rightarrow> Request \<Rightarrow> BackendOperation \<Rightarrow> Event \<Rightarrow> string \<Rightarrow> Result \<Rightarrow>
   (world \<Rightarrow> world \<times> (Event \<times> Result) option) \<Rightarrow> (Result \<Rightarrow> 'o) \<Rightarrow> (world \<Rightarrow> world \<times> (gerror + 'o)) \<Rightarrow>
   world \<Rightarrow> world \<times> (gerror + 'o)" where
  "approved_write env deps reference candidate operation ev reqReason scopeReady preflight out exec w =
     (let evA = ev\<lparr>ev_RequestReason := reqReason, ev_ApprovalID := reference\<rparr>;
          ready = backendOperationReady env (d_WriteClient deps) operation in
      case verifyApproval env deps reference candidate w of (w1, result, outcome, ok) \<Rightarrow>
      if \<not> ok
      then (recordAudit env deps (evA\<lparr>ev_Outcome := outcome, ev_Reason := rs_Message result\<rparr>) w1, Inr (out result))
      else if rs_Status ready \<noteq> StatusUnset
      then (recordAudit env deps (failed ev (rs_Message ready)) w1, Inr (out ready))
      else if rs_Status scopeReady \<noteq> StatusUnset
      then (recordAudit env deps (blocked evA (rs_Message scopeReady)) w1, Inr (out scopeReady))
      else (case gateAuditForWrite env deps evA w1 of (w2, result, ok) \<Rightarrow>
      if \<not> ok then (w2, Inr (out result))
      else (case preflight w2 of
        (w3, Some (evt, result)) \<Rightarrow> (recordAudit env deps evt w3, Inr (out result))
      | (w3, None) \<Rightarrow>
          (case consumeApproval env deps reference w3 of (w4, result, outcome, ok) \<Rightarrow>
           if \<not> ok
           then (recordAudit env deps (evA\<lparr>ev_Outcome := outcome, ev_Reason := rs_Message result\<rparr>) w4, Inr (out result))
           else exec w4))))"

abbreviation no_preflight :: "world \<Rightarrow> world \<times> (Event \<times> Result) option" where
  "no_preflight w \<equiv> (w, None)"

subsection \<open>Trace discipline\<close>

fun harmless_effect :: "effect \<Rightarrow> bool" where
  "harmless_effect (Called c) = False"
| "harmless_effect (StoreConsume i (Inr u)) = False"
| "harmless_effect (WroteFile p d) = False"
| "harmless_effect x = True"

abbreviation harmless :: "effect list \<Rightarrow> bool" where
  "harmless t \<equiv> list_all harmless_effect t"

definition usable :: "Request \<Rightarrow> ApprovalStatus \<Rightarrow> bool" where
  "usable candidate st \<longleftrightarrow> RequestFingerprint (st_Request st) = RequestFingerprint candidate
     \<and> (\<exists>d. st_Decision st = Some d \<and> dc_Approved d) \<and> \<not> st_Consumed st \<and> \<not> st_Expired st"

text \<open>What stands in the trace for a recorded attempt: one successful audit write, or nothing
  when no audit sink is configured.\<close>

definition attempt_recorded :: "bool \<Rightarrow> string \<Rightarrow> effect list \<Rightarrow> bool" where
  "attempt_recorded audited reference t \<longleftrightarrow>
     (if audited then \<exists>att. t = [Audited att True] \<and> ev_Outcome att = OutcomeAttempt \<and> ev_ApprovalID att = reference
      else t = [])"

text \<open>
  \<open>gated\<close>: either nothing was called and nothing consumed, or the trace reads: approval looked up
  and found usable for this request, attempt recorded, (preparation,) approval consumed, and
  only then the execution, whose effects satisfy \<open>ok\<close>.
\<close>

definition gated :: "bool \<Rightarrow> string \<Rightarrow> Request \<Rightarrow> (effect list \<Rightarrow> bool) \<Rightarrow> effect list \<Rightarrow> bool" where
  "gated audited reference candidate ok t \<longleftrightarrow> harmless t \<or>
     (\<exists>st att mid rest. t = StoreGet reference (Inr st) # att @ mid @ StoreConsume reference (Inr ()) # rest
        \<and> usable candidate st \<and> attempt_recorded audited reference att \<and> harmless mid \<and> ok rest)"

definition extends :: "(effect list \<Rightarrow> bool) \<Rightarrow> world \<Rightarrow> world \<Rightarrow> bool" where
  "extends P w w' \<longleftrightarrow> (\<exists>t. w_trace w' = w_trace w @ t \<and> P t)"

lemma extends_refl [audit_frame]: "P [] \<Longrightarrow> extends P w w"
  by (simp add: extends_def)

lemma no_preflight_harmless: "no_preflight w = (w', r) \<Longrightarrow> extends harmless w w'"
  by (auto intro: extends_refl)

lemma extends_mono: "extends P w w' \<Longrightarrow> (\<And>t. P t \<Longrightarrow> Q t) \<Longrightarrow> extends Q w w'"
  by (auto simp: extends_def)

lemma extends_trans:
  "extends P w w1 \<Longrightarrow> extends Q w1 w2 \<Longrightarrow> (\<And>a b. P a \<Longrightarrow> Q b \<Longrightarrow> R (a @ b)) \<Longrightarrow> extends R w w2"
  unfolding extends_def by (metis append_assoc)

lemma emit_trace [simp]: "w_trace (emit x w) = w_trace w @ [x]" "w_audit (emit x w) = w_audit w"
  "w_store (emit x w) = w_store w"
  by (simp_all add: emit_def)

lemma recordAudit_trace: "\<exists>t. w_trace (recordAudit env deps evt w) = w_trace w @ t \<and> harmless t"
  by (auto simp: recordAudit_def Audit_Write_def split: option.splits prod.splits)

lemma recordAudit_harmless [audit_frame]: "extends harmless w (recordAudit env deps evt w)"
  using recordAudit_trace by (simp add: extends_def)

lemma harmless_then_audit [audit_frame]:
  "extends harmless w w1 \<Longrightarrow> extends harmless w (recordAudit env deps evt w1)"
  by (rule extends_trans [OF _ recordAudit_harmless]) auto

lemma verifyApproval_trace:
  assumes "verifyApproval env deps reference candidate w = (w1, result, outcome, ok)"
  shows "extends harmless w w1" and "w_audit w1 = w_audit w"
    and "ok \<Longrightarrow> \<exists>st. w_trace w1 = w_trace w @ [StoreGet reference (Inr st)] \<and> usable candidate st"
proof -
  show "extends harmless w w1" and "w_audit w1 = w_audit w"
    using assms
    by (auto simp: verifyApproval_def Approvals_Get_def extends_def
             split: option.splits prod.splits sum.splits if_splits)
  assume ok
  then show "\<exists>st. w_trace w1 = w_trace w @ [StoreGet reference (Inr st)] \<and> usable candidate st"
    using assms
    by (auto simp: verifyApproval_def Approvals_Get_def judge_status_def usable_def
             split: option.splits prod.splits sum.splits if_splits)
qed

lemma gate_trace:
  assumes "gateAuditForWrite env deps evt w = (w1, result, ok)"
  shows "extends harmless w w1"
    and "ok \<Longrightarrow> extends (attempt_recorded (w_audit w \<noteq> None) (ev_ApprovalID evt)) w w1"
  using assms
  by (auto simp: gateAuditForWrite_def Audit_Write_def extends_def attempt_recorded_def stamp_def Let_def
           split: option.splits prod.splits if_splits)

lemma consumeApproval_trace:
  assumes "consumeApproval env deps reference w = (w1, result, outcome, ok)"
  shows "ok \<Longrightarrow> w_trace w1 = w_trace w @ [StoreConsume reference (Inr ())]"
    and "\<not> ok \<Longrightarrow> extends harmless w w1"
  using assms
  by (auto simp: consumeApproval_def Approvals_Consume_def extends_def
           split: option.splits prod.splits sum.splits)

lemma extends_harmless_gated: "extends harmless w w' \<Longrightarrow> extends (gated a r c ok) w w'"
  by (erule extends_mono) (auto simp: gated_def)

lemma extends_full:
  assumes "w_trace w1 = w_trace w @ [StoreGet r (Inr st)]" and "usable c st"
    and "extends (attempt_recorded a r) w1 w2" and "extends harmless w2 w3"
    and "w_trace w4 = w_trace w3 @ [StoreConsume r (Inr ())]" and "extends ok w4 w5"
  shows "extends (gated a r c ok) w w5"
proof -
  obtain att mid rest where "w_trace w2 = w_trace w1 @ att" "attempt_recorded a r att"
    "w_trace w3 = w_trace w2 @ mid" "harmless mid" "w_trace w5 = w_trace w4 @ rest" "ok rest"
    using assms(3,4,6) by (auto simp: extends_def)
  then have "w_trace w5 = w_trace w @ (StoreGet r (Inr st) # att @ mid @ StoreConsume r (Inr ()) # rest)
      \<and> gated a r c ok (StoreGet r (Inr st) # att @ mid @ StoreConsume r (Inr ()) # rest)"
    using assms(1,2,5) unfolding gated_def by auto
  then show ?thesis unfolding extends_def by blast
qed

lemma approved_write_gated:
  assumes run: "approved_write env deps reference candidate operation ev reqReason scopeReady preflight out exec w = (w', r)"
    and pre: "\<And>w w' r. preflight w = (w', r) \<Longrightarrow> extends harmless w w'"
    and ex: "\<And>client w w' r. d_WriteClient deps = Some client \<Longrightarrow> exec w = (w', r) \<Longrightarrow> extends ok w w'"
  shows "extends (gated (w_audit w \<noteq> None) reference candidate ok) w w'"
proof -
  define evA where "evA = ev\<lparr>ev_RequestReason := reqReason, ev_ApprovalID := reference\<rparr>"
  note body = run [unfolded approved_write_def Let_def, folded evA_def]
  obtain w1 res1 out1 ok1 where v: "verifyApproval env deps reference candidate w = (w1, res1, out1, ok1)"
    by (metis prod_cases4)
  obtain w2 res2 ok2 where g: "gateAuditForWrite env deps evA w1 = (w2, res2, ok2)" by (metis prod_cases3)
  obtain w3 pr where p: "preflight w2 = (w3, pr)" by fastforce
  obtain w4 res4 out4 ok4 where c: "consumeApproval env deps reference w3 = (w4, res4, out4, ok4)"
    by (metis prod_cases4)
  note vt = verifyApproval_trace [OF v] and gt = gate_trace [OF g] and pt = pre [OF p]
    and ct = consumeApproval_trace [OF c]
  have h2: "extends harmless w w2" by (rule extends_trans [OF vt(1) gt(1)]) auto
  have h3: "extends harmless w w3" by (rule extends_trans [OF h2 pt]) auto
  show ?thesis
  proof (cases "ok1 \<and> rs_Status (backendOperationReady env (d_WriteClient deps) operation) = StatusUnset
      \<and> rs_Status scopeReady = StatusUnset \<and> ok2 \<and> pr = None \<and> ok4")
    case True
    then have exec: "exec w4 = (w', r)" using body v g p c by simp
    obtain client where client: "d_WriteClient deps = Some client"
      using True by (auto simp: backendOperationReady_def ErrorResult_def split: option.splits)
    obtain st where st: "w_trace w1 = w_trace w @ [StoreGet reference (Inr st)]" "usable candidate st"
      using vt(3) True by blast
    have "extends (attempt_recorded (w_audit w \<noteq> None) reference) w1 w2"
      using gt(2) True vt(2) by (simp add: evA_def)
    from extends_full [OF st this pt _ ex [OF client exec]] ct(1) True show ?thesis by blast
  next
    case False
    have "\<not> ok4 \<Longrightarrow> extends harmless w w4" by (rule extends_trans [OF h3 ct(2)]) auto
    then have "extends harmless w w'"
      using body v g p c False vt(1) h2 h3
      by (auto split: if_splits option.splits intro: harmless_then_audit)
    then show ?thesis by (rule extends_harmless_gated)
  qed
qed

abbreviation all_pass :: "'o refusal option list \<Rightarrow> bool" where
  "all_pass checks \<equiv> list_all (\<lambda>c. c = None) checks"

lemma first_refusal_None_iff: "first_refusal checks = None \<longleftrightarrow> all_pass checks"
  by (induction checks rule: first_refusal.induct) auto

lemma refuse_if_None [simp]: "refuse_if bad evt err = None \<longleftrightarrow> \<not> bad"
  by (simp add: refuse_if_def)

lemma check_None [simp]: "check v evt err = None \<longleftrightarrow> v = None"
  by (simp add: check_def split: option.splits)

text \<open>A call that fails a check has only harmless effects; otherwise it is its body's run.\<close>

lemma guarded_cases:
  assumes "guarded env deps checks body w = (w', r)"
  shows "extends harmless w w' \<or> all_pass checks \<and> body w = (w', r)"
  using assms
  by (auto simp: guarded_def first_refusal_None_iff [symmetric]
           split: option.splits prod.splits intro: recordAudit_harmless extends_refl)

lemma guarded_gated:
  assumes "guarded env deps checks body w = (w', r)"
    and "\<And>w' r. all_pass checks \<Longrightarrow> body w = (w', r) \<Longrightarrow> extends (gated a ref c ok) w w'"
  shows "extends (\<lambda>t. harmless t \<or> all_pass checks \<and> gated a ref c ok t) w w'"
proof -
  consider "extends harmless w w'" | "all_pass checks" "body w = (w', r)"
    using guarded_cases [OF assms(1)] by blast
  then show ?thesis
  proof cases
    case 1
    then show ?thesis by (rule extends_mono) simp
  next
    case 2
    from assms(2) [OF 2] show ?thesis by (rule extends_mono) (use 2 in auto)
  qed
qed

text \<open>The calls a trace makes, in order.\<close>

fun calls :: "effect list \<Rightarrow> write_call list" where
  "calls [] = []"
| "calls (Called c # t) = c # calls t"
| "calls (x # t) = calls t"

lemma calls_append [simp]: "calls (s @ t) = calls s @ calls t"
  by (induction s rule: calls.induct) auto

lemma harmless_calls [simp]: "harmless t \<Longrightarrow> calls t = []"
  by (induction t rule: calls.induct) auto

lemma attempt_calls [simp]: "attempt_recorded a r t \<Longrightarrow> calls t = []"
  by (auto simp: attempt_recorded_def split: if_splits)

text \<open>
  \<open>authorised\<close> is what a reader of the log wants to know of a call \<open>c\<close>: before it, in this order,
  a usable approval for the request was read, the attempt was recorded, and the approval was
  consumed.
\<close>

definition authorised :: "bool \<Rightarrow> string \<Rightarrow> Request \<Rightarrow> effect list \<Rightarrow> bool" where
  "authorised audited reference candidate t \<longleftrightarrow>
     (\<forall>before c after. t = before @ Called c # after \<longrightarrow>
        (\<exists>st att mid rest. before = StoreGet reference (Inr st) # att @ mid @ StoreConsume reference (Inr ()) # rest
           \<and> usable candidate st \<and> attempt_recorded audited reference att \<and> harmless mid))"

lemma harmless_no_call: "harmless t \<Longrightarrow> t = before @ Called c # after \<Longrightarrow> False"
  by simp

lemma attempt_harmless: "attempt_recorded a r t \<Longrightarrow> harmless t"
  by (auto simp: attempt_recorded_def split: if_splits)

lemma prefix_before_call:
  assumes "xs @ y # rest = before @ Called c # after" and "harmless xs" and "y \<noteq> Called c"
  shows "\<exists>rest'. before = xs @ y # rest'"
  using assms
proof (induction xs arbitrary: before)
  case Nil
  then show ?case by (cases before) auto
next
  case (Cons x xs)
  then show ?case by (cases before) auto
qed

lemma gated_authorised: "gated a r c ok t \<Longrightarrow> authorised a r c t"
  unfolding gated_def
proof (elim disjE exE conjE)
  assume "harmless t"
  then show ?thesis unfolding authorised_def using harmless_no_call by blast
next
  fix st att mid rest
  assume t: "t = StoreGet r (Inr st) # att @ mid @ StoreConsume r (Inr ()) # rest"
    and u: "usable c st" and a: "attempt_recorded a r att" and m: "harmless mid"
  show ?thesis unfolding authorised_def
  proof (intro allI impI)
    fix before call after assume "t = before @ Called call # after"
    then have "(StoreGet r (Inr st) # att @ mid) @ StoreConsume r (Inr ()) # rest = before @ Called call # after"
      using t by simp
    moreover have "harmless (StoreGet r (Inr st) # att @ mid)" using attempt_harmless [OF a] m by simp
    ultimately obtain rest' where "before = (StoreGet r (Inr st) # att @ mid) @ StoreConsume r (Inr ()) # rest'"
      using prefix_before_call by blast
    then have "before = StoreGet r (Inr st) # att @ mid @ StoreConsume r (Inr ()) # rest'" by simp
    with u a m show "\<exists>st att mid rest. before = StoreGet r (Inr st) # att @ mid @ StoreConsume r (Inr ()) # rest
        \<and> usable c st \<and> attempt_recorded a r att \<and> harmless mid" by blast
  qed
qed

text \<open>The effects one call of a handler adds.\<close>

definition effects_of :: "(world \<Rightarrow> world \<times> 'r) \<Rightarrow> world \<Rightarrow> effect list" where
  "effects_of h w = drop (length (w_trace w)) (w_trace (fst (h w)))"

lemma effects_ofI:
  assumes "\<And>w' r. h w = (w', r) \<Longrightarrow> extends P w w'" shows "P (effects_of h w)"
proof (cases "h w")
  case (Pair w' r)
  then show ?thesis using assms [OF Pair] by (auto simp: extends_def effects_of_def)
qed

text \<open>
  The form in which the handlers' theorems use the above: a handler made of checks and an
  approved write either has harmless effects, or all its checks passed, its trace is gated,
  and its execution did what \<open>ok\<close> says.
\<close>

lemma handler_gated_full:
  fixes checks :: "'o refusal option list"
  assumes h: "\<And>w. h w = guarded env deps checks (approved_write env deps reference candidate operation ev
      reqReason scopeReady preflight out exec) w"
    and pre: "\<And>w w' r. preflight w = (w', r) \<Longrightarrow> extends harmless w w'"
    and ex: "\<And>client w w' r. all_pass checks \<Longrightarrow> d_WriteClient deps = Some client \<Longrightarrow> exec w = (w', r) \<Longrightarrow> extends ok w w'"
  shows "authorised (w_audit w \<noteq> None) reference candidate (effects_of h w)
    \<and> (harmless (effects_of h w) \<or> all_pass checks \<and> (\<exists>before rest. harmless before \<and> ok rest
         \<and> effects_of h w = before @ StoreConsume reference (Inr ()) # rest))"
proof -
  have "harmless t \<or> all_pass checks \<and> gated (w_audit w \<noteq> None) reference candidate ok t"
    if "t = effects_of h w" for t
    unfolding that
  proof (rule effects_ofI)
    fix w' r assume "h w = (w', r)"
    then have g: "guarded env deps checks (approved_write env deps reference candidate operation ev
        reqReason scopeReady preflight out exec) w = (w', r)" by (simp add: h)
    show "extends (\<lambda>t. harmless t \<or> all_pass checks \<and> gated (w_audit w \<noteq> None) reference candidate ok t) w w'"
      by (rule guarded_gated [OF g]) (rule approved_write_gated, assumption, rule pre, assumption, rule ex)
  qed
  then have g: "gated (w_audit w \<noteq> None) reference candidate ok (effects_of h w)"
    and d: "harmless (effects_of h w) \<or> all_pass checks \<and> gated (w_audit w \<noteq> None) reference candidate ok (effects_of h w)"
    by (auto simp: gated_def)
  have "\<exists>before rest. harmless before \<and> ok rest \<and> effects_of h w = before @ StoreConsume reference (Inr ()) # rest"
    if nh: "\<not> harmless (effects_of h w)"
  proof -
    obtain st att mid rest where t: "effects_of h w = StoreGet reference (Inr st) # att @ mid @ StoreConsume reference (Inr ()) # rest"
      and "attempt_recorded (w_audit w \<noteq> None) reference att" "harmless mid" "ok rest"
      using g nh by (auto simp: gated_def)
    then have "harmless (StoreGet reference (Inr st) # att @ mid)" using attempt_harmless by simp
    with t \<open>ok rest\<close> show ?thesis by (intro exI [of _ "StoreGet reference (Inr st) # att @ mid"] exI [of _ rest]) simp
  qed
  with d gated_authorised [OF g] show ?thesis by blast
qed

lemma handler_gated:
  fixes checks :: "'o refusal option list"
  assumes "\<And>w. h w = guarded env deps checks (approved_write env deps reference candidate operation ev
      reqReason scopeReady preflight out exec) w"
    and "\<And>w w' r. preflight w = (w', r) \<Longrightarrow> extends harmless w w'"
    and "\<And>client w w' r. all_pass checks \<Longrightarrow> d_WriteClient deps = Some client \<Longrightarrow> exec w = (w', r) \<Longrightarrow> extends ok w w'"
  shows "authorised (w_audit w \<noteq> None) reference candidate (effects_of h w)
    \<and> (harmless (effects_of h w) \<or> all_pass checks \<and> (\<exists>rest. ok rest \<and> calls (effects_of h w) = calls rest))"
proof -
  have "authorised (w_audit w \<noteq> None) reference candidate (effects_of h w)
    \<and> (harmless (effects_of h w) \<or> all_pass checks \<and> (\<exists>before rest. harmless before \<and> ok rest
         \<and> effects_of h w = before @ StoreConsume reference (Inr ()) # rest))"
    by (rule handler_gated_full [where h = h, OF assms(1)]) (erule assms(2), erule assms(3))
  then show ?thesis by (elim conjE disjE exE) auto
qed

subsection \<open>The gates open for a good approval\<close>

definition undisturbed :: "env \<Rightarrow> bool" where
  "undisturbed env \<longleftrightarrow> quiet (e_store env) \<and> (\<forall>t f. e_other env t f = f)"

definition sink_accepts :: "env \<Rightarrow> Sink option \<Rightarrow> bool" where
  "sink_accepts env sink \<longleftrightarrow> (case sink of None \<Rightarrow> True | Some s \<Rightarrow> \<forall>evt. snd (Sink_Write (e_audit env) evt s) = None)"

definition good_record :: "env \<Rightarrow> FileStore \<Rightarrow> Request \<Rightarrow> approval_record \<Rightarrow> bool" where
  "good_record env fs candidate rec \<longleftrightarrow> RequestFingerprint (rc_Request rec) = RequestFingerprint candidate
     \<and> (\<exists>d. rc_Decision rec = Some d \<and> dc_Approved d) \<and> \<not> rc_Consumed rec
     \<and> (\<forall>t. Since (se_now (e_store env) t) (rq_CreatedAt (rc_Request rec)) \<le> fst_ttl fs)"

lemma interfere_id: "undisturbed env \<Longrightarrow> interfere env w = w_store w"
  by (simp add: interfere_def undisturbed_def)

lemma verifyApproval_good:
  assumes "undisturbed env" "d_Approvals deps = Some fs" "holds m (w_store w)" "m reference = Some rec"
    "good_record env fs candidate rec"
  shows "\<exists>w'. verifyApproval env deps reference candidate w = (w', zeroResult, OutcomeSuccess, True)
    \<and> holds m (w_store w') \<and> w_audit w' = w_audit w"
proof -
  have q: "quiet (e_store env)" using assms(1) by (simp add: undisturbed_def)
  obtain s1 where s1: "holds m s1"
    "withLock (e_store env) fs (statusLocked (e_store env) fs reference) (w_store w) = statusLocked (e_store env) fs reference m s1"
    using withLock_quiet [OF q assms(3)] by blast
  obtain d where d: "rc_Decision rec = Some d" "dc_Approved d" using assms(5) by (auto simp: good_record_def)
  define st where "st = \<lparr>st_Request = rc_Request rec, st_Decision = Some d, st_Consumed = False, st_Expired = False\<rparr>"
  have fresh: "\<not> fst_ttl fs < Since (se_now (e_store env) t) (rq_CreatedAt (rc_Request rec))" for t
    using assms(5) by (simp add: good_record_def not_less)
  have "FileStore_Get (e_store env) fs reference (w_store w) = (s1, Inr st)"
    using s1(2) assms(4,5) d(1) by (simp add: FileStore_Get_def statusLocked_def st_def good_record_def fresh)
  moreover have "judge_status candidate st = (zeroResult, OutcomeSuccess, True)"
    using assms(5) d by (simp add: judge_status_def st_def good_record_def)
  ultimately show ?thesis using assms(2) s1(1)
    by (simp add: verifyApproval_def Approvals_Get_def interfere_id [OF assms(1)])
qed

lemma gate_accepts:
  assumes "sink_accepts env (w_audit w)"
  shows "\<exists>w' res. gateAuditForWrite env deps evt w = (w', res, True) \<and> w_store w' = w_store w"
proof (cases "w_audit w")
  case (Some sink)
  let ?evt = "stamp env deps (evt\<lparr>ev_Outcome := OutcomeAttempt\<rparr>) w"
  have "snd (Sink_Write (e_audit env) ?evt sink) = None" using assms Some by (simp add: sink_accepts_def)
  then obtain sink' where "Sink_Write (e_audit env) ?evt sink = (sink', None)"
    by (cases "Sink_Write (e_audit env) ?evt sink") simp
  then show ?thesis using Some by (simp add: gateAuditForWrite_def Audit_Write_def)
qed (simp add: gateAuditForWrite_def)

lemma consumeApproval_good:
  assumes "undisturbed env" "d_Approvals deps = Some fs" "holds m (w_store w)" "m reference = Some rec" "\<not> rc_Consumed rec"
  shows "\<exists>w'. consumeApproval env deps reference w = (w', zeroResult, OutcomeSuccess, True)
    \<and> holds (m(reference \<mapsto> rec\<lparr>rc_Consumed := True\<rparr>)) (w_store w')"
proof -
  have q: "quiet (e_store env)" using assms(1) by (simp add: undisturbed_def)
  obtain s' where "FileStore_Consume (e_store env) fs reference (w_store w) = (s', Inr ())"
    "holds (m(reference \<mapsto> rec\<lparr>rc_Consumed := True\<rparr>)) s'"
    using Consume_quiet [OF q assms(3,4), of fs] assms(5) by auto
  then show ?thesis using assms(2)
    by (simp add: consumeApproval_def Approvals_Consume_def interfere_id [OF assms(1)])
qed

lemma approved_write_runs:
  assumes "undisturbed env" "d_Approvals deps = Some fs" "holds m (w_store w)" "m reference = Some rec"
    "good_record env fs candidate rec" "sink_accepts env (w_audit w)"
    "rs_Status (backendOperationReady env (d_WriteClient deps) operation) = StatusUnset" "rs_Status scopeReady = StatusUnset"
  shows "\<exists>w4. approved_write env deps reference candidate operation ev reqReason scopeReady no_preflight out exec w = exec w4
    \<and> holds (m(reference \<mapsto> rec\<lparr>rc_Consumed := True\<rparr>)) (w_store w4)"
proof -
  define evA where "evA = ev\<lparr>ev_RequestReason := reqReason, ev_ApprovalID := reference\<rparr>"
  obtain w1 where 1: "verifyApproval env deps reference candidate w = (w1, zeroResult, OutcomeSuccess, True)"
    "holds m (w_store w1)" "w_audit w1 = w_audit w"
    using verifyApproval_good [OF assms(1-5)] by blast
  obtain w2 res where 2: "gateAuditForWrite env deps evA w1 = (w2, res, True)" "w_store w2 = w_store w1"
    using gate_accepts [of env w1 deps evA] assms(6) 1(3) by auto
  have nc: "\<not> rc_Consumed rec" using assms(5) by (simp add: good_record_def)
  have h2: "holds m (w_store w2)" using 1(2) 2(2) by simp
  obtain w4 where 4: "consumeApproval env deps reference w2 = (w4, zeroResult, OutcomeSuccess, True)"
    "holds (m(reference \<mapsto> rec\<lparr>rc_Consumed := True\<rparr>)) (w_store w4)"
    using consumeApproval_good [OF assms(1,2) h2 assms(4) nc] by blast
  have "approved_write env deps reference candidate operation ev reqReason scopeReady no_preflight out exec w = exec w4"
    unfolding approved_write_def Let_def evA_def [symmetric] using 1(1) 2(1) 4(1) assms(7,8) by simp
  with 4(2) show ?thesis by blast
qed

lemma guarded_pass: "all_pass checks \<Longrightarrow> guarded env deps checks body w = body w"
  by (simp add: guarded_def first_refusal_None_iff [symmetric])

lemma recordAudit_store [simp]: "w_store (recordAudit env deps evt w) = w_store w"
  by (auto simp: recordAudit_def Audit_Write_def split: option.splits prod.splits)

text \<open>An environment without interference in which every operating-system call succeeds.\<close>

definition sample_env :: env where
  "sample_env = \<lparr>e_store = calm_env, e_audit = calm_audit, e_other = (\<lambda>t f. f), e_now = (\<lambda>t. 1000),
     e_os = (\<lambda>t. None), e_rand = (\<lambda>t. Inr (replicate 8 0)), e_partial = (\<lambda>t. None), e_quote = (\<lambda>s. s),
     e_marshal = (\<lambda>r. Inr (concat (map fst r))), e_sprint = (\<lambda>r. []),
     e_lowerU = (\<lambda>s. s), e_trimU = (\<lambda>s. s)\<rparr>"

end
