(* ===== verification/Read_Tools.thy ===== *)
theory Read_Tools
  imports Server
begin

text \<open>
  The shape the read-only tools of \<^verbatim>\<open>internal/mcpserver\<close> share, and the contract they keep: after
  validation a tool answers from its input in mock mode, reports a missing client, or makes one
  call on the read client, and in every case records one terminal audit event. The contract is
  the locale \<open>read_only_tool\<close>; every read handler interprets it in the theory that defines it.
\<close>

subsection \<open>The shape of a read handler\<close>

text \<open>
  \<open>ev\<close> is the event with the tool name and its identifiers, \<open>mock\<close> and \<open>absent\<close> the answers
  without a client, \<open>onErr\<close> and \<open>onOk\<close> what the handler makes of the client's answer.
\<close>

definition read_tool ::
  "env \<Rightarrow> Deps \<Rightarrow> Event \<Rightarrow> string \<Rightarrow> 'o \<Rightarrow> 'o \<Rightarrow> read_call \<Rightarrow> (read_client \<Rightarrow> nat \<Rightarrow> gerror + 'a) \<Rightarrow>
   (gerror \<Rightarrow> 'o) \<Rightarrow> ('a \<Rightarrow> Event \<times> 'o) \<Rightarrow> world \<Rightarrow> world \<times> (gerror + 'o)" where
  "read_tool env deps ev mockReason mock absent call query onErr onOk w =
     (if d_VelociraptorReadMode deps \<noteq> VelociraptorModeReal
      then (recordAudit env deps (ev\<lparr>ev_Outcome := OutcomeSuccess, ev_Reason := mockReason\<rparr>) w, Inr mock)
      else case d_ReadClient deps of
        None \<Rightarrow> (recordAudit env deps (failed ev ''VelociraptorReadMode is real but ReadClient is nil'') w, Inr absent)
      | Some client \<Rightarrow>
          (case query client (w_tick w) of
             Inl err \<Rightarrow> (recordAudit env deps (failed ev (err_text env err)) (emit (Queried call) w), Inr (onErr err))
           | Inr a \<Rightarrow> (recordAudit env deps ((fst (onOk a))\<lparr>ev_Outcome := OutcomeSuccess\<rparr>) (emit (Queried call) w), Inr (snd (onOk a)))))"

definition mockNoCall :: string where
  "mockNoCall = ''mock mode, no Velociraptor call made''"

definition mockMessage :: string where
  "mockMessage = ''MCP server is running in mock mode (velociraptor.read_api_config_path is not configured); no Velociraptor call was made''"

definition absentMessage :: string where
  "absentMessage = ''real mode is configured but no Velociraptor client is available''"

subsection \<open>The contract\<close>

fun reads :: "effect list \<Rightarrow> read_call list" where
  "reads [] = []"
| "reads (Queried c # t) = c # reads t"
| "reads (x # t) = reads t"

fun audits :: "effect list \<Rightarrow> Event list" where
  "audits [] = []"
| "audits (Audited evt ok # t) = evt # audits t"
| "audits (x # t) = audits t"

lemma reads_append [simp]: "reads (s @ t) = reads s @ reads t"
  by (induction s rule: reads.induct) auto

lemma audits_append [simp]: "audits (s @ t) = audits s @ audits t"
  by (induction s rule: audits.induct) auto

definition one_audit :: "bool \<Rightarrow> effect list \<Rightarrow> bool" where
  "one_audit audited t \<longleftrightarrow>
     (if audited then \<exists>evt ok. t = [Audited evt ok] \<and> ev_Outcome evt \<noteq> OutcomeAttempt else t = [])"

definition read_trace :: "bool \<Rightarrow> bool \<Rightarrow> read_call \<Rightarrow> effect list \<Rightarrow> bool" where
  "read_trace audited valid call t \<longleftrightarrow>
     (\<exists>q a. t = q @ a \<and> (q = [] \<or> valid \<and> q = [Queried call]) \<and> one_audit audited a)"

text \<open>What a read leaves of the world: the approval store, and whether there is an audit sink.\<close>

definition read_only_step :: "bool \<Rightarrow> read_call \<Rightarrow> world \<Rightarrow> world \<Rightarrow> bool" where
  "read_only_step valid call w w' \<longleftrightarrow> w_store w' = w_store w \<and> (w_audit w' = None \<longleftrightarrow> w_audit w = None)
     \<and> extends (read_trace (w_audit w \<noteq> None) valid call) w w'"

lemma read_trace_harmless: "read_trace a v c t \<Longrightarrow> harmless t"
  by (auto simp: read_trace_def one_audit_def split: if_splits)

lemma read_trace_reads: "read_trace a v c t \<Longrightarrow> reads t = [] \<or> v \<and> reads t = [c]"
  by (auto simp: read_trace_def one_audit_def split: if_splits)

lemma read_trace_audits: "read_trace a v c t \<Longrightarrow> length (audits t) = (if a then 1 else 0)"
  by (auto simp: read_trace_def one_audit_def split: if_splits)

lemma recordAudit_one:
  assumes "ev_Outcome evt \<noteq> OutcomeAttempt"
  shows "extends (one_audit (w_audit w \<noteq> None)) w (recordAudit env deps evt w)"
    and "w_store (recordAudit env deps evt w) = w_store w"
    and "w_audit (recordAudit env deps evt w) = None \<longleftrightarrow> w_audit w = None"
  using assms
  by (auto simp: recordAudit_def Audit_Write_def extends_def one_audit_def stamp_def Let_def split: option.splits prod.splits)

lemma read_only_audit:
  assumes "ev_Outcome evt \<noteq> OutcomeAttempt" and "w1 = w \<or> v \<and> w1 = emit (Queried call) w"
  shows "read_only_step v call w (recordAudit env deps evt w1)"
proof -
  have audit: "w_audit w1 = w_audit w" "w_store w1 = w_store w" using assms(2) by auto
  obtain a where a: "w_trace (recordAudit env deps evt w1) = w_trace w1 @ a" "one_audit (w_audit w \<noteq> None) a"
    using recordAudit_one(1) [OF assms(1), of w1] audit by (auto simp: extends_def)
  obtain q where q: "w_trace w1 = w_trace w @ q" "q = [] \<or> v \<and> q = [Queried call]" using assms(2) by auto
  have "read_trace (w_audit w \<noteq> None) v call (q @ a)" unfolding read_trace_def using q(2) a(2) by blast
  then show ?thesis
    using a(1) q(1) recordAudit_one(2,3) [OF assms(1), of _ _ w1] audit
    by (simp add: read_only_step_def extends_def)
qed

lemma read_tool_step:
  assumes "read_tool env deps ev reason mock absent call query onErr onOk w = (w', r)"
  shows "read_only_step True call w w'"
  using assms unfolding read_tool_def
  by (auto simp del: emit_trace split: if_splits option.splits sum.splits intro!: read_only_audit)

text \<open>Refusals of a read tool are always recorded, as blocked or failed.\<close>

definition recorded_refusals :: "'o refusal option list \<Rightarrow> bool" where
  "recorded_refusals checks \<longleftrightarrow>
     list_all (\<lambda>c. case c of Some (Some evt, r) \<Rightarrow> ev_Outcome evt \<noteq> OutcomeAttempt | Some (None, r) \<Rightarrow> False | None \<Rightarrow> True) checks"

lemma recorded_refusals_simps [simp]:
  "recorded_refusals []"
  "recorded_refusals (refuse_if b evt err # cs) \<longleftrightarrow> (b \<longrightarrow> ev_Outcome evt \<noteq> OutcomeAttempt) \<and> recorded_refusals cs"
  "recorded_refusals (check v f g # cs) \<longleftrightarrow>
     (case v of None \<Rightarrow> True | Some e \<Rightarrow> (case f e of None \<Rightarrow> False | Some evt \<Rightarrow> ev_Outcome evt \<noteq> OutcomeAttempt))
     \<and> recorded_refusals cs"
  by (auto simp: recorded_refusals_def refuse_if_def check_def split: option.splits)

lemma first_refusal_recorded:
  "recorded_refusals checks \<Longrightarrow> first_refusal checks = Some (e, r) \<Longrightarrow> \<exists>evt. e = Some evt \<and> ev_Outcome evt \<noteq> OutcomeAttempt"
  by (induction checks rule: first_refusal.induct) (auto simp: recorded_refusals_def split: option.splits)

lemma guarded_read_step:
  assumes "guarded env deps checks body w = (w', r)" and "recorded_refusals checks"
    and "\<And>w w' r. all_pass checks \<Longrightarrow> body w = (w', r) \<Longrightarrow> read_only_step v call w w'"
  shows "read_only_step v call w w'"
proof (cases "first_refusal checks")
  case None
  then have "all_pass checks" by (simp add: first_refusal_None_iff)
  moreover have "body w = (w', r)" using assms(1) None by (simp add: guarded_def)
  ultimately show ?thesis by (rule assms(3))
next
  case (Some er)
  obtain e r' where er: "er = (e, r')" by (cases er)
  obtain evt where "e = Some evt" "ev_Outcome evt \<noteq> OutcomeAttempt"
    using first_refusal_recorded [OF assms(2)] Some er by auto
  then show ?thesis using assms(1) Some er by (auto simp: guarded_def intro!: read_only_audit)
qed

lemma read_only_step_mono: "read_only_step True call w w' \<Longrightarrow> v \<Longrightarrow> read_only_step v call w w'"
  by simp

text \<open>Refusals that end the call with an error, and what a read handler may then answer.\<close>

definition error_refusals :: "'o refusal option list \<Rightarrow> bool" where
  "error_refusals checks \<longleftrightarrow> list_all (\<lambda>c. case c of Some (e, Inr out) \<Rightarrow> False | _ \<Rightarrow> True) checks"

lemma error_refusals_simps [simp]:
  "error_refusals []"
  "error_refusals (refuse_if b evt err # cs) \<longleftrightarrow> error_refusals cs"
  "error_refusals (check v f g # cs) \<longleftrightarrow> error_refusals cs"
  by (auto simp: error_refusals_def refuse_if_def check_def split: option.splits)

lemma first_refusal_error: "error_refusals checks \<Longrightarrow> first_refusal checks = Some (e, r) \<Longrightarrow> \<exists>err. r = Inl err"
  by (induction checks rule: first_refusal.induct) (auto simp: error_refusals_def split: sum.splits)

lemma read_tool_answers:
  assumes "read_tool env deps ev reason mock absent call query onErr onOk w = (w', Inr out)"
  shows "out = mock \<or> out = absent \<or> (\<exists>err. out = onErr err)
    \<or> (\<exists>client a. d_VelociraptorReadMode deps = VelociraptorModeReal \<and> d_ReadClient deps = Some client
         \<and> query client (w_tick w) = Inr a \<and> out = snd (onOk a))"
  using assms by (auto simp: read_tool_def split: if_splits option.splits sum.splits)

lemma read_tool_cases:
  assumes "guarded env deps checks (read_tool env deps ev reason mock absent call query onErr onOk) w = (w', Inr out)"
    and "error_refusals checks"
  shows "out = mock \<or> out = absent \<or> (\<exists>err. out = onErr err)
    \<or> (\<exists>client a. d_VelociraptorReadMode deps = VelociraptorModeReal \<and> d_ReadClient deps = Some client
         \<and> query client (w_tick w) = Inr a \<and> out = snd (onOk a))"
proof (cases "first_refusal checks")
  case None
  then have "read_tool env deps ev reason mock absent call query onErr onOk w = (w', Inr out)"
    using assms(1) by (simp add: guarded_def)
  then show ?thesis by (rule read_tool_answers)
next
  case (Some er)
  obtain e r where er: "er = (e, r)" by (cases er)
  then obtain err where "r = Inl err" using first_refusal_error [OF assms(2)] Some by auto
  then show ?thesis using assms(1) Some er by (auto simp: guarded_def split: option.splits)
qed

text \<open>The read calls of the shared shape, exactly.\<close>

lemma recordAudit_no_reads: "extends (\<lambda>t. reads t = []) w (recordAudit env deps evt w)"
  by (auto simp: recordAudit_def Audit_Write_def extends_def split: option.splits prod.splits)

definition asks_client :: "Deps \<Rightarrow> bool" where
  "asks_client deps \<longleftrightarrow> d_VelociraptorReadMode deps = VelociraptorModeReal \<and> d_ReadClient deps \<noteq> None"

lemma read_tool_reads:
  "extends (\<lambda>t. reads t = (if asks_client deps then [call] else [])) w
     (fst (read_tool env deps ev reason mock absent call query onErr onOk w))"
proof -
  have q: "extends (\<lambda>t. reads t = [call]) w (recordAudit env deps evt (emit (Queried call) w))" for evt
    by (rule extends_trans [OF _ recordAudit_no_reads, where P = "\<lambda>t. reads t = [call]"]) (auto simp: extends_def)
  show ?thesis
    using recordAudit_no_reads q
    by (auto simp: read_tool_def asks_client_def split: option.splits sum.splits)
qed

lemma effects_of_extends: "extends P w (fst (h w)) \<Longrightarrow> P (effects_of h w)"
  by (auto simp: extends_def effects_of_def)

lemma read_tool_reads_eq:
  "reads (effects_of (read_tool env deps ev reason mock absent call query onErr onOk) w) = (if asks_client deps then [call] else [])"
  by (rule effects_of_extends [OF read_tool_reads])

lemma guarded_read_tool_reads:
  "reads (effects_of (guarded env deps checks (read_tool env deps ev reason mock absent call query onErr onOk)) w)
     = (if all_pass checks \<and> asks_client deps then [call] else [])"
proof (rule effects_of_extends)
  show "extends (\<lambda>t. reads t = (if all_pass checks \<and> asks_client deps then [call] else [])) w
    (fst (guarded env deps checks (read_tool env deps ev reason mock absent call query onErr onOk) w))"
  proof (cases "first_refusal checks")
    case None
    then have "all_pass checks" by (simp add: first_refusal_None_iff)
    then show ?thesis
      using read_tool_reads [of deps call w env ev reason mock absent query onErr onOk] None by (simp add: guarded_def)
  next
    case (Some er)
    then have "\<not> all_pass checks" using first_refusal_None_iff [of checks] by simp
    then show ?thesis using Some recordAudit_no_reads
      by (cases er) (auto simp: guarded_def extends_refl split: option.splits)
  qed
qed

text \<open>A handler, the one call it may make, and when its input is acceptable.\<close>

locale read_only_tool =
  fixes handler :: "env \<Rightarrow> Deps \<Rightarrow> 'i \<Rightarrow> world \<Rightarrow> world \<times> (gerror + 'o)"
    and request :: "Deps \<Rightarrow> 'i \<Rightarrow> read_call"
    and valid :: "Deps \<Rightarrow> 'i \<Rightarrow> bool"
  assumes reads_only: "handler env deps i w = (w', r) \<Longrightarrow> read_only_step (valid deps i) (request deps i) w w'"
begin

lemma effects: "read_trace (w_audit w \<noteq> None) (valid deps i) (request deps i) (effects_of (handler env deps i) w)"
  by (rule effects_ofI) (use reads_only in \<open>auto simp: read_only_step_def\<close>)

lemma never_writes: "harmless (effects_of (handler env deps i) w)"
  using read_trace_harmless [OF effects] .

lemma at_most_one_read:
  "reads (effects_of (handler env deps i) w) = []
   \<or> valid deps i \<and> reads (effects_of (handler env deps i) w) = [request deps i]"
  using read_trace_reads [OF effects] .

lemma audited_once: "length (audits (effects_of (handler env deps i) w)) = (if w_audit w \<noteq> None then 1 else 0)"
  using read_trace_audits [OF effects] .

lemma keeps_store: "w_store (fst (handler env deps i w)) = w_store w"
  using reads_only [of env deps i w "fst (handler env deps i w)" "snd (handler env deps i w)"]
  by (simp add: read_only_step_def)

end

end
