(* ===== verification/Tools_Collection.thy ===== *)
theory Tools_Collection
  imports Server
begin

text \<open>
  \<^verbatim>\<open>internal/mcpserver/tools_collection.go\<close>: the handlers that collect one artifact, collect the
  artifacts of a profile, and cancel a flow on one client. For each, the exact calls it may make
  and what must have passed before (\<open>collect_artifact_authorised\<close> and its siblings).
\<close>

definition validateApprovalFields :: "string \<Rightarrow> string \<Rightarrow> string \<Rightarrow> string \<Rightarrow> string \<Rightarrow> gerror option" where
  "validateApprovalFields clientID caseID reason requester reference =
     (if ClientID clientID \<noteq> None then Some (Errorf [Lit ''invalid client id '', Quo clientID])
      else case CaseID caseID of
        Some err \<Rightarrow> Some err
      | None \<Rightarrow>
      (case Reason reason of
         Some err \<Rightarrow> Some err
       | None \<Rightarrow>
      (case Requester requester of
         Some err \<Rightarrow> Some err
       | None \<Rightarrow> ApprovalReference reference)))"

definition policy_allows :: "Deps \<Rightarrow> (Engine \<Rightarrow> bool) \<Rightarrow> bool" where
  "policy_allows deps f = (case d_Policy deps of None \<Rightarrow> False | Some p \<Rightarrow> f p)"

subsection \<open>velo\_collect\_artifact\_with\_approval\<close>

record CollectArtifactInput =
  ci_ClientID :: string
  ci_Artifact :: string
  ci_Parameters :: "string gomap"
  ci_CaseID :: string
  ci_Reason :: string
  ci_Requester :: string
  ci_ApprovalReference :: string

record CollectArtifactOutput =
  co_Result :: Result
  co_ClientID :: string
  co_Artifact :: string
  co_FlowID :: string
  co_State :: string
  co_CreatedAt :: string

definition collect_candidate :: "CollectArtifactInput \<Rightarrow> Request" where
  "collect_candidate i = zeroRequest\<lparr>rq_Operation := OperationCollectArtifact, rq_CaseID := ci_CaseID i,
     rq_ClientID := ci_ClientID i, rq_Artifact := ci_Artifact i, rq_Parameters := ci_Parameters i\<rparr>"

definition collect_event :: "CollectArtifactInput \<Rightarrow> Event" where
  "collect_event i = zeroEvent\<lparr>ev_Tool := ''velo_collect_artifact_with_approval'', ev_ClientID := ci_ClientID i,
     ev_Artifact := ci_Artifact i, ev_CaseID := ci_CaseID i\<rparr>"

definition collect_out :: "CollectArtifactInput \<Rightarrow> Result \<Rightarrow> CollectArtifactOutput" where
  "collect_out i result = \<lparr>co_Result = result, co_ClientID = ci_ClientID i, co_Artifact = ci_Artifact i,
     co_FlowID = [], co_State = [], co_CreatedAt = []\<rparr>"

definition collect_checks :: "env \<Rightarrow> Deps \<Rightarrow> CollectArtifactInput \<Rightarrow> CollectArtifactOutput refusal option list" where
  "collect_checks env deps i =
     (let ev = collect_event i in
      [refuse_if (\<not> fst (writePilotEnabled deps)) (blocked ev (snd (writePilotEnabled deps))) (errorf (snd (writePilotEnabled deps))),
       check (validateApprovalFields (ci_ClientID i) (ci_CaseID i) (ci_Reason i) (ci_Requester i) (ci_ApprovalReference i))
         (\<lambda>e. Some (blocked ev (err_text env e))) id,
       check (ArtifactName (ci_Artifact i)) (\<lambda>e. Some (blocked ev ''invalid artifact name syntax''))
         (\<lambda>e. Errorf [Lit ''invalid artifact name '', Quo (ci_Artifact i)]),
       check (CollectionParameters (ci_Parameters i)) (\<lambda>e. Some (blocked ev (err_text env e))) id,
       refuse_if (\<not> policy_allows deps (\<lambda>p. ArtifactAllowed p (ci_Artifact i))) (blocked ev ''artifact not in allowlist'')
         (Errorf [Lit ''artifact '', Quo (ci_Artifact i), Lit '' is not in the configured allowlist''])])"

definition collect_exec :: "env \<Rightarrow> Deps \<Rightarrow> CollectArtifactInput \<Rightarrow> world \<Rightarrow> world \<times> (gerror + CollectArtifactOutput)" where
  "collect_exec env deps i w =
     (case d_WriteClient deps of
        None \<Rightarrow> (w, Inl (errorf ''nil write client''))
      | Some client \<Rightarrow>
          let ev = (collect_event i)\<lparr>ev_ApprovalID := ci_ApprovalReference i\<rparr>;
              req = \<lparr>cr_ClientID = ci_ClientID i, cr_Artifact = ci_Artifact i, cr_Parameters = ci_Parameters i\<rparr>;
              w1 = emit (Called (CollectArtifactCall req)) w in
          (case wc_CollectArtifact client (w_tick w) req of
             Inl err \<Rightarrow>
               (recordAudit env deps (failed ev (err_text env err)) w1,
                Inr (collect_out i (ErrorResult (err_text env err))))
           | Inr summary \<Rightarrow>
               (recordAudit env deps (ev\<lparr>ev_Outcome := OutcomeSuccess, ev_RequestReason := ci_Reason i, ev_FlowID := fl_FlowID summary\<rparr>) w1,
                Inr ((collect_out i (Success []))\<lparr>co_FlowID := fl_FlowID summary, co_State := fl_State summary,
                       co_CreatedAt := fl_CreatedAt summary\<rparr>))))"

definition newCollectArtifactHandler :: "env \<Rightarrow> Deps \<Rightarrow> CollectArtifactInput \<Rightarrow> world \<Rightarrow> world \<times> (gerror + CollectArtifactOutput)" where
  "newCollectArtifactHandler env deps i w =
     guarded env deps (collect_checks env deps i)
       (approved_write env deps (ci_ApprovalReference i) (collect_candidate i) BackendOpCollectArtifact
          (collect_event i) (ci_Reason i) zeroResult no_preflight (collect_out i) (collect_exec env deps i)) w"

subsection \<open>velo\_collect\_dfir\_profile\_with\_approval\<close>

record CollectDFIRProfileInput =
  dp_ClientID :: string
  dp_Profile :: string
  dp_CaseID :: string
  dp_Reason :: string
  dp_Requester :: string
  dp_ApprovalReference :: string

record CollectedFlow =
  cf_Artifact :: string
  cf_FlowID :: string
  cf_State :: string
  cf_Error :: string

record CollectDFIRProfileOutput =
  do_Result :: Result
  do_ClientID :: string
  do_Profile :: string
  do_Flows :: "CollectedFlow list"

definition profile_candidate :: "CollectDFIRProfileInput \<Rightarrow> Request" where
  "profile_candidate i = zeroRequest\<lparr>rq_Operation := OperationCollectDFIRProfile, rq_CaseID := dp_CaseID i,
     rq_ClientID := dp_ClientID i, rq_Profile := dp_Profile i\<rparr>"

definition profile_event :: "CollectDFIRProfileInput \<Rightarrow> Event" where
  "profile_event i = zeroEvent\<lparr>ev_Tool := ''velo_collect_dfir_profile_with_approval'', ev_ClientID := dp_ClientID i,
     ev_Profile := dp_Profile i, ev_CaseID := dp_CaseID i\<rparr>"

definition profile_out :: "CollectDFIRProfileInput \<Rightarrow> Result \<Rightarrow> CollectDFIRProfileOutput" where
  "profile_out i result = \<lparr>do_Result = result, do_ClientID = dp_ClientID i, do_Profile = dp_Profile i, do_Flows = []\<rparr>"

definition lookup_profile :: "Deps \<Rightarrow> string \<Rightarrow> Profile option" where
  "lookup_profile deps name = (case d_Profiles deps of None \<Rightarrow> None | Some r \<Rightarrow> Registry_Get r name)"

definition validate_profile :: "Deps \<Rightarrow> string \<Rightarrow> gerror option" where
  "validate_profile deps name =
     (case (lookup_profile deps name, d_Policy deps) of
        (Some p, Some pol) \<Rightarrow> ValidateProfile p (ArtifactAllowed pol)
      | _ \<Rightarrow> None)"

definition profile_checks :: "env \<Rightarrow> Deps \<Rightarrow> CollectDFIRProfileInput \<Rightarrow> CollectDFIRProfileOutput refusal option list" where
  "profile_checks env deps i =
     (let ev = profile_event i in
      [refuse_if (\<not> fst (writePilotEnabled deps)) (blocked ev (snd (writePilotEnabled deps))) (errorf (snd (writePilotEnabled deps))),
       check (ClientID (dp_ClientID i)) (\<lambda>e. Some (blocked ev ''invalid client id syntax''))
         (\<lambda>e. Errorf [Lit ''invalid client id '', Quo (dp_ClientID i)]),
       check (CaseID (dp_CaseID i)) (\<lambda>e. Some (blocked (ev\<lparr>ev_CaseID := []\<rparr>) (err_text env e))) id,
       check (Reason (dp_Reason i)) (\<lambda>e. Some (blocked ev (err_text env e))) id,
       check (Requester (dp_Requester i)) (\<lambda>e. Some (blocked ev (err_text env e))) id,
       check (ApprovalReference (dp_ApprovalReference i)) (\<lambda>e. Some (blocked ev (err_text env e))) id,
       check (DFIRProfileName (dp_Profile i)) (\<lambda>e. Some (blocked ev ''invalid profile name syntax''))
         (\<lambda>e. Errorf [Lit ''invalid dfir profile name '', Quo (dp_Profile i)]),
       refuse_if (\<not> policy_allows deps (\<lambda>p. ProfileAllowed p (dp_Profile i))) (blocked ev ''profile not in allowlist'')
         (Errorf [Lit ''dfir profile '', Quo (dp_Profile i), Lit '' is not in the configured allowlist'']),
       refuse_if (d_Profiles deps = None) (failed ev ''dfir profile registry not configured'')
         (errorf ''dfir profile registry is not configured''),
       refuse_if (lookup_profile deps (dp_Profile i) = None) (blocked ev ''profile not found'')
         (Errorf [Lit ''dfir profile '', Quo (dp_Profile i), Lit '' not found'']),
       check (validate_profile deps (dp_Profile i)) (\<lambda>e. Some (blocked ev (err_text env e)))
         (\<lambda>e. Errorf [Lit ''dfir profile '', Quo (dp_Profile i), Lit '' fails artifact allowlist validation: '', Wrap e])])"

text \<open>The loop over the profile's artifacts, stopping at the first failure.\<close>

fun collect_profile_loop ::
  "env \<Rightarrow> write_client \<Rightarrow> string \<Rightarrow> ProfileArtifact list \<Rightarrow> CollectedFlow list \<Rightarrow> world \<Rightarrow>
   world \<times> CollectedFlow list \<times> gerror option" where
  "collect_profile_loop env client clientID [] flows w = (w, flows, None)"
| "collect_profile_loop env client clientID (a # as) flows w =
     (let req = \<lparr>cr_ClientID = clientID, cr_Artifact = pf_artName a, cr_Parameters = pf_Parameters a\<rparr>;
          w1 = emit (Called (CollectArtifactCall req)) w in
      case wc_CollectArtifact client (w_tick w) req of
        Inl err \<Rightarrow> (w1, flows @ [\<lparr>cf_Artifact = pf_artName a, cf_FlowID = [], cf_State = [], cf_Error = err_text env err\<rparr>], Some err)
      | Inr summary \<Rightarrow>
          collect_profile_loop env client clientID as
            (flows @ [\<lparr>cf_Artifact = pf_artName a, cf_FlowID = fl_FlowID summary, cf_State = fl_State summary, cf_Error = []\<rparr>]) w1)"

definition profile_exec :: "env \<Rightarrow> Deps \<Rightarrow> CollectDFIRProfileInput \<Rightarrow> world \<Rightarrow> world \<times> (gerror + CollectDFIRProfileOutput)" where
  "profile_exec env deps i w =
     (case (d_WriteClient deps, lookup_profile deps (dp_Profile i)) of
        (Some client, Some profile) \<Rightarrow>
          let ev = (profile_event i)\<lparr>ev_RequestReason := dp_Reason i, ev_ApprovalID := dp_ApprovalReference i\<rparr> in
          (case collect_profile_loop env client (dp_ClientID i) (pf_Artifacts profile) [] w of
             (w1, flows, Some err) \<Rightarrow>
               (recordAudit env deps ((failed ev (err_text env err))\<lparr>ev_RowCount := int (length flows)\<rparr>) w1,
                Inr ((profile_out i (ErrorResult (''profile collection stopped after '' @ FormatInt (int (length flows) - 1) @ ''/''
                        @ Itoa (length (pf_Artifacts profile)) @ '' artifacts: '' @ err_text env err)))\<lparr>do_Flows := flows\<rparr>))
           | (w1, flows, None) \<Rightarrow>
               (recordAudit env deps (ev\<lparr>ev_Outcome := OutcomeSuccess, ev_RowCount := int (length flows)\<rparr>) w1,
                Inr ((profile_out i (Success []))\<lparr>do_Flows := flows\<rparr>)))
      | _ \<Rightarrow> (w, Inl (errorf ''nil write client'')))"

definition newCollectDFIRProfileHandler :: "env \<Rightarrow> Deps \<Rightarrow> CollectDFIRProfileInput \<Rightarrow> world \<Rightarrow> world \<times> (gerror + CollectDFIRProfileOutput)" where
  "newCollectDFIRProfileHandler env deps i w =
     guarded env deps (profile_checks env deps i)
       (approved_write env deps (dp_ApprovalReference i) (profile_candidate i) BackendOpCollectArtifact
          (profile_event i) (dp_Reason i) zeroResult no_preflight (profile_out i) (profile_exec env deps i)) w"

subsection \<open>velo\_cancel\_flow\_with\_approval\<close>

record CancelFlowInput =
  cfi_ClientID :: string
  cfi_FlowID :: string
  cfi_CaseID :: string
  cfi_Reason :: string
  cfi_Requester :: string
  cfi_ApprovalReference :: string

record CancelFlowOutput =
  cfo_Result :: Result
  cfo_ClientID :: string
  cfo_FlowID :: string

definition cancel_flow_candidate :: "CancelFlowInput \<Rightarrow> Request" where
  "cancel_flow_candidate i = zeroRequest\<lparr>rq_Operation := OperationCancelFlow, rq_CaseID := cfi_CaseID i,
     rq_ClientID := cfi_ClientID i, rq_FlowID := cfi_FlowID i\<rparr>"

definition cancel_flow_event :: "CancelFlowInput \<Rightarrow> Event" where
  "cancel_flow_event i = zeroEvent\<lparr>ev_Tool := ''velo_cancel_flow_with_approval'', ev_ClientID := cfi_ClientID i,
     ev_FlowID := cfi_FlowID i, ev_CaseID := cfi_CaseID i\<rparr>"

definition cancel_flow_out :: "CancelFlowInput \<Rightarrow> Result \<Rightarrow> CancelFlowOutput" where
  "cancel_flow_out i result = \<lparr>cfo_Result = result, cfo_ClientID = cfi_ClientID i, cfo_FlowID = cfi_FlowID i\<rparr>"

definition cancel_flow_checks :: "env \<Rightarrow> Deps \<Rightarrow> CancelFlowInput \<Rightarrow> CancelFlowOutput refusal option list" where
  "cancel_flow_checks env deps i =
     (let ev = cancel_flow_event i in
      [refuse_if (\<not> fst (writePilotEnabled deps)) (blocked ev (snd (writePilotEnabled deps))) (errorf (snd (writePilotEnabled deps))),
       check (validateApprovalFields (cfi_ClientID i) (cfi_CaseID i) (cfi_Reason i) (cfi_Requester i) (cfi_ApprovalReference i))
         (\<lambda>e. Some (blocked ev (err_text env e))) id,
       check (FlowID (cfi_FlowID i)) (\<lambda>e. Some (blocked ev ''invalid flow id syntax''))
         (\<lambda>e. Errorf [Lit ''invalid flow id '', Quo (cfi_FlowID i)])])"

definition cancel_flow_exec :: "env \<Rightarrow> Deps \<Rightarrow> CancelFlowInput \<Rightarrow> world \<Rightarrow> world \<times> (gerror + CancelFlowOutput)" where
  "cancel_flow_exec env deps i w =
     (case d_WriteClient deps of
        None \<Rightarrow> (w, Inl (errorf ''nil write client''))
      | Some client \<Rightarrow>
          let ev = (cancel_flow_event i)\<lparr>ev_ApprovalID := cfi_ApprovalReference i\<rparr>;
              w1 = emit (Called (CancelFlowCall (cfi_ClientID i) (cfi_FlowID i))) w in
          (case wc_CancelFlow client (w_tick w) (cfi_ClientID i) (cfi_FlowID i) of
             Some err \<Rightarrow>
               (recordAudit env deps (failed ev (err_text env err)) w1,
                Inr (cancel_flow_out i (ErrorResult (err_text env err))))
           | None \<Rightarrow>
               (recordAudit env deps (ev\<lparr>ev_Outcome := OutcomeSuccess, ev_RequestReason := cfi_Reason i\<rparr>) w1,
                Inr (cancel_flow_out i (Success [])))))"

definition newCancelFlowHandler :: "env \<Rightarrow> Deps \<Rightarrow> CancelFlowInput \<Rightarrow> world \<Rightarrow> world \<times> (gerror + CancelFlowOutput)" where
  "newCancelFlowHandler env deps i w =
     guarded env deps (cancel_flow_checks env deps i)
       (approved_write env deps (cfi_ApprovalReference i) (cancel_flow_candidate i) BackendOpCancelFlow
          (cancel_flow_event i) (cfi_Reason i) zeroResult no_preflight (cancel_flow_out i) (cancel_flow_exec env deps i)) w"

subsection \<open>What the handlers may do\<close>

lemma pilot_enabled_iff:
  "fst (writePilotEnabled deps) \<longleftrightarrow> policy_allows deps (\<lambda>p. \<not> ReadOnly p) \<and> d_Approvals deps \<noteq> None"
  by (auto simp: writePilotEnabled_def policy_allows_def split: option.splits)

lemma validateApprovalFields_None_iff:
  "validateApprovalFields c i r q a = None \<longleftrightarrow>
     ClientID c = None \<and> CaseID i = None \<and> Reason r = None \<and> Requester q = None \<and> ApprovalReference a = None"
  by (simp add: validateApprovalFields_def split: option.splits)

text \<open>An execution that emits its calls and then records one event.\<close>

lemma extends_call_audit:
  "extends (\<lambda>t. calls t = cs) w w1 \<Longrightarrow> extends (\<lambda>t. calls t = cs) w (recordAudit env deps evt w1)"
  by (rule extends_trans [OF _ recordAudit_harmless]) auto

lemma extends_emit_call: "extends (\<lambda>t. calls t = [c]) w (emit (Called c) w)"
  by (simp add: extends_def)

lemma collect_exec_calls:
  "d_WriteClient deps = Some client \<Longrightarrow> collect_exec env deps i w = (w', r) \<Longrightarrow>
   extends (\<lambda>t. calls t = [CollectArtifactCall \<lparr>cr_ClientID = ci_ClientID i, cr_Artifact = ci_Artifact i,
     cr_Parameters = ci_Parameters i\<rparr>]) w w'"
  by (auto simp: collect_exec_def Let_def split: sum.splits intro!: extends_call_audit extends_emit_call)

lemma cancel_flow_exec_calls:
  "d_WriteClient deps = Some client \<Longrightarrow> cancel_flow_exec env deps i w = (w', r) \<Longrightarrow>
   extends (\<lambda>t. calls t = [CancelFlowCall (cfi_ClientID i) (cfi_FlowID i)]) w w'"
  by (auto simp: cancel_flow_exec_def Let_def split: option.splits intro!: extends_call_audit extends_emit_call)

definition profile_calls :: "string \<Rightarrow> ProfileArtifact list \<Rightarrow> write_call list" where
  "profile_calls clientID as = map (\<lambda>a. CollectArtifactCall \<lparr>cr_ClientID = clientID, cr_Artifact = pf_artName a,
     cr_Parameters = pf_Parameters a\<rparr>) as"

text \<open>The loop calls for a prefix of the artifacts, all of them when it reports no error, and
  reports one flow per call.\<close>

lemma collect_profile_loop_calls:
  "collect_profile_loop env client clientID as flows w = (w', flows', e) \<Longrightarrow>
   \<exists>n. extends (\<lambda>t. calls t = profile_calls clientID (take n as)) w w'
     \<and> n \<le> length as \<and> (e = None \<longrightarrow> n = length as) \<and> (as \<noteq> [] \<longrightarrow> 0 < n) \<and> length flows' = length flows + n"
proof (induction env client clientID as flows w rule: collect_profile_loop.induct)
  case (1 env client clientID flows w)
  then show ?case by (auto simp: profile_calls_def intro: extends_refl)
next
  case (2 env client clientID a as flows w)
  let ?req = "\<lparr>cr_ClientID = clientID, cr_Artifact = pf_artName a, cr_Parameters = pf_Parameters a\<rparr>"
  let ?w1 = "emit (Called (CollectArtifactCall ?req)) w"
  show ?case
  proof (cases "wc_CollectArtifact client (w_tick w) ?req")
    case (Inl err)
    then have "w' = ?w1" "e = Some err" "length flows' = length flows + 1" using 2(2) by auto
    then show ?thesis
      by (intro exI [of _ 1]) (simp add: profile_calls_def extends_emit_call)
  next
    case (Inr s)
    then obtain n where n: "extends (\<lambda>t. calls t = profile_calls clientID (take n as)) ?w1 w'"
      "n \<le> length as" "e = None \<longrightarrow> n = length as" "length flows' = length flows + Suc n"
      using 2(1) [OF refl refl Inr] 2(2) by auto
    have "extends (\<lambda>t. calls t = profile_calls clientID (take (Suc n) (a # as))) w w'"
      by (rule extends_trans [OF extends_emit_call n(1)]) (simp add: profile_calls_def)
    with n show ?thesis by (intro exI [of _ "Suc n"]) simp
  qed
qed

lemma profile_exec_calls:
  assumes "d_WriteClient deps = Some client" "lookup_profile deps (dp_Profile i) = Some p"
    and "profile_exec env deps i w = (w', r)"
  shows "extends (\<lambda>t. \<exists>n \<le> length (pf_Artifacts p). calls t = profile_calls (dp_ClientID i) (take n (pf_Artifacts p))
      \<and> (pf_Artifacts p \<noteq> [] \<longrightarrow> 0 < n)) w w'"
proof -
  obtain w1 flows e where loop: "collect_profile_loop env client (dp_ClientID i) (pf_Artifacts p) [] w = (w1, flows, e)"
    by (metis prod_cases3)
  obtain n where n: "extends (\<lambda>t. calls t = profile_calls (dp_ClientID i) (take n (pf_Artifacts p))) w w1"
    "n \<le> length (pf_Artifacts p)" "pf_Artifacts p \<noteq> [] \<longrightarrow> 0 < n"
    using collect_profile_loop_calls [OF loop] by blast
  have "\<exists>evt. w' = recordAudit env deps evt w1"
    using assms loop by (cases e) (auto simp: profile_exec_def Let_def)
  then have "extends (\<lambda>t. calls t = profile_calls (dp_ClientID i) (take n (pf_Artifacts p))) w w'"
    using extends_call_audit [OF n(1)] by blast
  then show ?thesis by (rule extends_mono) (use n in blast)
qed

lemma collect_artifact_shape:
  "authorised (w_audit w \<noteq> None) (ci_ApprovalReference i) (collect_candidate i)
      (effects_of (newCollectArtifactHandler env deps i) w)
   \<and> (harmless (effects_of (newCollectArtifactHandler env deps i) w)
      \<or> calls (effects_of (newCollectArtifactHandler env deps i) w)
          = [CollectArtifactCall \<lparr>cr_ClientID = ci_ClientID i, cr_Artifact = ci_Artifact i, cr_Parameters = ci_Parameters i\<rparr>]
        \<and> policy_allows deps (\<lambda>p. \<not> ReadOnly p \<and> ArtifactAllowed p (ci_Artifact i))
        \<and> ClientID (ci_ClientID i) = None \<and> ArtifactName (ci_Artifact i) = None
        \<and> CollectionParameters (ci_Parameters i) = None \<and> ApprovalReference (ci_ApprovalReference i) = None)"
proof -
  let ?checks = "collect_checks env deps i" and ?t = "effects_of (newCollectArtifactHandler env deps i) w"
  have "all_pass ?checks \<Longrightarrow> policy_allows deps (\<lambda>p. \<not> ReadOnly p \<and> ArtifactAllowed p (ci_Artifact i))
      \<and> ClientID (ci_ClientID i) = None \<and> ArtifactName (ci_Artifact i) = None
      \<and> CollectionParameters (ci_Parameters i) = None \<and> ApprovalReference (ci_ApprovalReference i) = None"
    by (auto simp: collect_checks_def Let_def pilot_enabled_iff validateApprovalFields_None_iff policy_allows_def
             split: option.splits)
  moreover have "authorised (w_audit w \<noteq> None) (ci_ApprovalReference i) (collect_candidate i) ?t
    \<and> (harmless ?t \<or> all_pass ?checks \<and> (\<exists>rest. calls rest = [CollectArtifactCall
         \<lparr>cr_ClientID = ci_ClientID i, cr_Artifact = ci_Artifact i, cr_Parameters = ci_Parameters i\<rparr>] \<and> calls ?t = calls rest))"
    by (rule handler_gated [OF newCollectArtifactHandler_def])
       (erule no_preflight_harmless, erule (1) collect_exec_calls)
  ultimately show ?thesis by auto
qed

text \<open>
  Property C3 (safety). A call of the collection tool either touches nothing (no Velociraptor
  call, no approval consumed), or makes exactly one collection call, for exactly the client,
  artifact and parameters of the input, with the write pilot on, the artifact allowlisted and
  every field validated, and only after an approval for this very request was found usable, the
  attempt was recorded and the approval consumed. This holds whatever the store, the audit
  sink, the backend and other processes do.
\<close>

theorem collect_artifact_authorised:
  "authorised (w_audit w \<noteq> None) (ci_ApprovalReference i) (collect_candidate i)
      (effects_of (newCollectArtifactHandler env deps i) w)
   \<and> (harmless (effects_of (newCollectArtifactHandler env deps i) w)
      \<or> calls (effects_of (newCollectArtifactHandler env deps i) w)
          = [CollectArtifactCall \<lparr>cr_ClientID = ci_ClientID i, cr_Artifact = ci_Artifact i, cr_Parameters = ci_Parameters i\<rparr>]
        \<and> policy_allows deps (\<lambda>p. \<not> ReadOnly p \<and> ArtifactAllowed p (ci_Artifact i))
        \<and> ClientID (ci_ClientID i) = None \<and> ArtifactName (ci_Artifact i) = None
        \<and> CollectionParameters (ci_Parameters i) = None \<and> ApprovalReference (ci_ApprovalReference i) = None)"
  by (rule collect_artifact_shape)


text \<open>
  The flow-cancellation tool cancels only the one flow of the one client it
  was asked about, under the same gates.
\<close>

theorem cancel_flow_authorised:
  "authorised (w_audit w \<noteq> None) (cfi_ApprovalReference i) (cancel_flow_candidate i)
      (effects_of (newCancelFlowHandler env deps i) w)
   \<and> (harmless (effects_of (newCancelFlowHandler env deps i) w)
      \<or> calls (effects_of (newCancelFlowHandler env deps i) w) = [CancelFlowCall (cfi_ClientID i) (cfi_FlowID i)]
        \<and> policy_allows deps (\<lambda>p. \<not> ReadOnly p) \<and> ClientID (cfi_ClientID i) = None \<and> FlowID (cfi_FlowID i) = None)"
proof -
  let ?checks = "cancel_flow_checks env deps i" and ?t = "effects_of (newCancelFlowHandler env deps i) w"
  have "all_pass ?checks \<Longrightarrow> policy_allows deps (\<lambda>p. \<not> ReadOnly p) \<and> ClientID (cfi_ClientID i) = None
      \<and> FlowID (cfi_FlowID i) = None"
    by (simp add: cancel_flow_checks_def Let_def pilot_enabled_iff validateApprovalFields_None_iff)
  moreover have "authorised (w_audit w \<noteq> None) (cfi_ApprovalReference i) (cancel_flow_candidate i) ?t
    \<and> (harmless ?t \<or> all_pass ?checks \<and> (\<exists>rest. calls rest = [CancelFlowCall (cfi_ClientID i) (cfi_FlowID i)]
         \<and> calls ?t = calls rest))"
    by (rule handler_gated [OF newCancelFlowHandler_def])
       (erule no_preflight_harmless, erule (1) cancel_flow_exec_calls)
  ultimately show ?thesis by auto
qed

lemma collect_runs:
  assumes "undisturbed env" "d_Approvals deps = Some fs" "d_Policy deps = Some pol" "\<not> ReadOnly pol"
    "ArtifactAllowed pol (ci_Artifact i)" "CollectionParameters (ci_Parameters i) = None"
    "validateApprovalFields (ci_ClientID i) (ci_CaseID i) (ci_Reason i) (ci_Requester i) (ci_ApprovalReference i) = None"
    "ArtifactName (ci_Artifact i) = None"
    "holds m (w_store w)" "m (ci_ApprovalReference i) = Some rec" "good_record env fs (collect_candidate i) rec"
    "sink_accepts env (w_audit w)" "d_WriteClient deps = Some client" "wc_Supports client = None"
  shows "\<exists>w4. newCollectArtifactHandler env deps i w = collect_exec env deps i w4
    \<and> consumed_in (records_at (w_store w4)) (ci_ApprovalReference i)"
proof -
  have pass: "all_pass (collect_checks env deps i)"
    using assms by (simp add: collect_checks_def Let_def pilot_enabled_iff policy_allows_def)
  have ready: "rs_Status (backendOperationReady env (d_WriteClient deps) BackendOpCollectArtifact) = StatusUnset"
    using assms by (simp add: backendOperationReady_def zeroResult_def)
  have zero: "rs_Status zeroResult = StatusUnset" by (simp add: zeroResult_def)
  obtain w4 where run: "newCollectArtifactHandler env deps i w = collect_exec env deps i w4"
    and h: "holds (m(ci_ApprovalReference i \<mapsto> rec\<lparr>rc_Consumed := True\<rparr>)) (w_store w4)"
    using approved_write_runs [OF assms(1,2,9,10,11,12) ready zero, of "collect_event i" "ci_Reason i"
        "collect_out i" "collect_exec env deps i"]
    by (auto simp: newCollectArtifactHandler_def guarded_pass [OF pass])
  have "consumed_in (records_at (w_store w4)) (ci_ApprovalReference i)"
    using h by (auto simp: holds_def records_at_def consumed_in_def)
  with run show ?thesis by blast
qed

text \<open>
  The gates do open: with the pilot on, an allowlisted artifact, valid
  fields, an approved, unconsumed, unexpired approval for exactly this request, a working
  store, audit sink and backend, the call collects the artifact, reports the flow, and leaves
  the approval consumed.
\<close>

theorem collect_artifact_executes:
  assumes "undisturbed env" and "d_Approvals deps = Some fs" and "d_Policy deps = Some pol" and "\<not> ReadOnly pol"
    and "ArtifactAllowed pol (ci_Artifact i)" and "CollectionParameters (ci_Parameters i) = None"
    and "validateApprovalFields (ci_ClientID i) (ci_CaseID i) (ci_Reason i) (ci_Requester i) (ci_ApprovalReference i) = None"
    and "ArtifactName (ci_Artifact i) = None"
    and "holds m (w_store w)" and "m (ci_ApprovalReference i) = Some rec" and "good_record env fs (collect_candidate i) rec"
    and "sink_accepts env (w_audit w)" and "d_WriteClient deps = Some client" and "wc_Supports client = None"
    and "\<forall>t req. wc_CollectArtifact client t req = Inr summary"
  shows "\<exists>w'. newCollectArtifactHandler env deps i w =
      (w', Inr ((collect_out i (Success []))\<lparr>co_FlowID := fl_FlowID summary, co_State := fl_State summary,
                       co_CreatedAt := fl_CreatedAt summary\<rparr>))
    \<and> consumed_in (records_at (w_store w')) (ci_ApprovalReference i)"
  using collect_runs [OF assms(1-14)] assms(13,15) by (auto simp: collect_exec_def Let_def)

text \<open>A deployment in controlled mode with one approval on file.\<close>

definition sample_client :: write_client where
  "sample_client = placeholderClient\<lparr>wc_Supports := None,
     wc_CollectArtifact := (\<lambda>t r. Inr \<lparr>fl_FlowID = ''F.1234'', fl_ClientID = [], fl_Artifact = [],
        fl_State = ''running'', fl_CreatedAt = []\<rparr>)\<rparr>"

definition sample_deps :: Deps where
  "sample_deps = \<lparr>d_Config = Some Default,
     d_Policy = Some (NewEngine ((c_Policy Default)\<lparr>pc_Mode := PolicyModeControlled\<rparr>)),
     d_Approvals = Some \<lparr>fst_path = ''p'', fst_ttl = 900\<rparr>, d_Profiles = None, d_ReadClient = None,
     d_VelociraptorReadMode = VelociraptorModeMock, d_WriteClient = Some sample_client,
     d_VelociraptorWriteMode = VelociraptorModeMock\<rparr>"

definition sample_world :: world where
  "sample_world = \<lparr>w_store = sample_store, w_audit = Some NopSink, w_tick = 0, w_trace = []\<rparr>"

definition sample_input :: CollectArtifactInput where
  "sample_input = \<lparr>ci_ClientID = ''C.0123456789abcdef'', ci_Artifact = ''Windows.System.Pslist'', ci_Parameters = [],
     ci_CaseID = ''CASE-7'', ci_Reason = ''triage'', ci_Requester = ''analyst'', ci_ApprovalReference = ''REF-1''\<rparr>"

lemma sample_fields_valid:
  "validateApprovalFields (ci_ClientID sample_input) (ci_CaseID sample_input) (ci_Reason sample_input)
     (ci_Requester sample_input) (ci_ApprovalReference sample_input) = None"
  "ArtifactName (ci_Artifact sample_input) = None"
  by code_simp+

lemma sample_undisturbed: "undisturbed sample_env"
  by (simp add: undisturbed_def sample_env_def calm_env_def quiet_def)

lemma sample_holds: "holds [''REF-1'' \<mapsto> sample_record] (w_store sample_world)"
  by (simp add: holds_def sample_world_def sample_store_def perm_too_open_def)

lemma sample_good: "good_record sample_env \<lparr>fst_path = ''p'', fst_ttl = 900\<rparr> (collect_candidate sample_input) sample_record"
  by (simp add: good_record_def sample_record_def sample_decision_def sample_env_def calm_env_def Since_def
      minInt64_def maxInt64_def RequestFingerprint_def fingerprint_preimage_def collect_candidate_def
      sample_input_def sample_request_def zeroRequest_def)

theorem collect_artifact_executes_witness:
  "\<exists>w' out. newCollectArtifactHandler sample_env sample_deps sample_input sample_world = (w', Inr out)
    \<and> co_FlowID out = ''F.1234'' \<and> consumed_in (records_at (w_store w')) ''REF-1''"
proof -
  let ?pol = "NewEngine ((c_Policy Default)\<lparr>pc_Mode := PolicyModeControlled\<rparr>)"
  let ?sum = "\<lparr>fl_FlowID = ''F.1234'', fl_ClientID = [], fl_Artifact = [], fl_State = ''running'', fl_CreatedAt = []\<rparr>"
  have "\<exists>w'. newCollectArtifactHandler sample_env sample_deps sample_input sample_world =
      (w', Inr ((collect_out sample_input (Success []))\<lparr>co_FlowID := fl_FlowID ?sum, co_State := fl_State ?sum,
         co_CreatedAt := fl_CreatedAt ?sum\<rparr>)) \<and> consumed_in (records_at (w_store w')) (ci_ApprovalReference sample_input)"
    by (rule collect_artifact_executes [OF sample_undisturbed _ _ _ _ _ sample_fields_valid sample_holds _ sample_good,
          where pol = ?pol and client = sample_client])
       (simp_all add: sample_deps_def sample_input_def ReadOnly_def NewEngine_def PolicyModeControlled_def
          PolicyModeReadOnly_def ArtifactAllowed_def Default_def CollectionParameters_def maxCollectionParams_def
          sample_world_def sink_accepts_def Sink_Write_def sample_client_def)
  then show ?thesis by (auto simp: sample_input_def)
qed

end
