(* ===== verification/Tools_Hunts.thy ===== *)
theory Tools_Hunts
  imports Tools_Collection
begin

text \<open>
  \<^verbatim>\<open>internal/mcpserver/tools_hunts.go\<close>, the write tools and their helpers: starting a hunt for
  one artifact or for a profile, and cancelling a hunt. The theorems bound what a hunt may target: the scope is the approved one,
  exactly one scope mode, all clients only where policy allows it, and never more clients than
  the configured cap.
\<close>

subsection \<open>Helpers\<close>

definition validateHuntScopeInput :: "string list \<Rightarrow> string \<Rightarrow> bool \<Rightarrow> gerror option" where
  "validateHuntScopeInput clientIDs label all =
     ValidateHuntScope \<lparr>hs_ClientIDs = clientIDs, hs_Label = label, hs_All = all\<rparr>"

definition validateHuntWriteInput :: "Deps \<Rightarrow> string \<Rightarrow> string \<Rightarrow> string \<Rightarrow> string \<Rightarrow> gerror option" where
  "validateHuntWriteInput deps caseID reason requester approvalID =
     (case CaseID caseID of
        Some err \<Rightarrow> Some err
      | None \<Rightarrow>
      (case Reason reason of
         Some err \<Rightarrow> Some err
       | None \<Rightarrow>
      (case Requester requester of
         Some err \<Rightarrow> Some err
       | None \<Rightarrow>
      (case ApprovalReference approvalID of
         Some err \<Rightarrow> Some err
       | None \<Rightarrow>
          if d_Approvals deps = None
          then Some (errorf ''approval store not configured; approval workflow is unavailable'') else None))))"

definition huntScopeBackendReady :: "env \<Rightarrow> Deps \<Rightarrow> string list \<Rightarrow> Result" where
  "huntScopeBackendReady env deps clientIDs =
     (if d_VelociraptorWriteMode deps = VelociraptorModeReal \<and> length clientIDs > 0
      then ErrorResult (err_text env (Sentinel ErrHuntScopeClientIDsUnsupported)) else zeroResult)"

definition configuredMaxHuntClients :: "Deps \<Rightarrow> int" where
  "configuredMaxHuntClients deps =
     (case d_Policy deps of
        Some p \<Rightarrow> if MaxHuntClients p > 0 then MaxHuntClients p else 100
      | None \<Rightarrow> 100)"

text \<open>The two lines every hunt handler has after its policy checks.\<close>

definition huntMaxClients :: "Deps \<Rightarrow> int \<Rightarrow> int" where
  "huntMaxClients deps asked =
     (let maxClients = configuredMaxHuntClients deps in
      if asked > 0 \<and> asked < maxClients then asked else maxClients)"

definition describeScope :: "env \<Rightarrow> string list \<Rightarrow> string \<Rightarrow> bool \<Rightarrow> string" where
  "describeScope env clientIDs label all =
     (if length clientIDs > 0 then Itoa (length clientIDs) @ '' explicit client(s)''
      else if label \<noteq> [] then ''label '' @ e_quote env label
      else if all then ''all clients'' else ''unknown'')"

subsection \<open>velo\_start\_hunt\_with\_approval\<close>

record StartHuntInput =
  sh_CaseID :: string
  sh_Reason :: string
  sh_Requester :: string
  sh_ApprovalID :: string
  sh_Artifact :: string
  sh_Parameters :: "string gomap"
  sh_ClientIDs :: "string list"
  sh_Label :: string
  sh_All :: bool
  sh_MaxClients :: int

record StartHuntOutput =
  sho_Result :: Result
  sho_Mode :: string
  sho_HuntID :: string
  sho_Artifact :: string
  sho_State :: string
  sho_ScopeDesc :: string

definition start_hunt_candidate :: "StartHuntInput \<Rightarrow> Request" where
  "start_hunt_candidate i = zeroRequest\<lparr>rq_Operation := OperationStartHunt, rq_CaseID := sh_CaseID i,
     rq_Artifact := sh_Artifact i, rq_Parameters := sh_Parameters i, rq_ClientIDs := sh_ClientIDs i,
     rq_Label := sh_Label i, rq_TargetAll := sh_All i\<rparr>"

definition start_hunt_tool :: Event where
  "start_hunt_tool = zeroEvent\<lparr>ev_Tool := ''velo_start_hunt_with_approval''\<rparr>"

definition start_hunt_event :: "StartHuntInput \<Rightarrow> Event" where
  "start_hunt_event i = start_hunt_tool\<lparr>ev_Artifact := sh_Artifact i, ev_CaseID := sh_CaseID i\<rparr>"

definition start_hunt_out :: "StartHuntInput \<Rightarrow> Result \<Rightarrow> StartHuntOutput" where
  "start_hunt_out i result = \<lparr>sho_Result = result, sho_Mode = [], sho_HuntID = [], sho_Artifact = sh_Artifact i,
     sho_State = [], sho_ScopeDesc = []\<rparr>"

definition start_hunt_checks :: "env \<Rightarrow> Deps \<Rightarrow> StartHuntInput \<Rightarrow> StartHuntOutput refusal option list" where
  "start_hunt_checks env deps i =
     (let tool = start_hunt_tool; evArt = tool\<lparr>ev_Artifact := sh_Artifact i\<rparr> in
      [refuse_if (\<not> fst (writePilotEnabled deps)) (blocked (start_hunt_event i) (snd (writePilotEnabled deps)))
         (errorf (snd (writePilotEnabled deps))),
       check (validateHuntWriteInput deps (sh_CaseID i) (sh_Reason i) (sh_Requester i) (sh_ApprovalID i)) (\<lambda>e. None) id,
       check (validateHuntScopeInput (sh_ClientIDs i) (sh_Label i) (sh_All i)) (\<lambda>e. Some (blocked tool (err_text env e))) id,
       check (ArtifactName (sh_Artifact i)) (\<lambda>e. Some (blocked evArt (err_text env e))) id,
       refuse_if (\<not> policy_allows deps (\<lambda>p. ArtifactAllowed p (sh_Artifact i))) (blocked evArt ''artifact not in allowlist'')
         (Errorf [Lit ''artifact '', Quo (sh_Artifact i), Lit '' is not in the configured allowlist'']),
       refuse_if (sh_All i \<and> \<not> policy_allows deps TargetAllAllowed) (blocked tool ''target_all is disabled by policy'')
         (errorf ''target_all is disabled by policy'')])"

definition start_hunt_request :: "Deps \<Rightarrow> StartHuntInput \<Rightarrow> HuntRequest" where
  "start_hunt_request deps i = \<lparr>hr_Artifact = sh_Artifact i, hr_Parameters = sh_Parameters i,
     hr_Scope = \<lparr>sr_ClientIDs = sh_ClientIDs i, sr_Label = sh_Label i, sr_All = sh_All i\<rparr>,
     hr_MaxClients = huntMaxClients deps (sh_MaxClients i)\<rparr>"

definition start_hunt_exec :: "env \<Rightarrow> Deps \<Rightarrow> StartHuntInput \<Rightarrow> world \<Rightarrow> world \<times> (gerror + StartHuntOutput)" where
  "start_hunt_exec env deps i w =
     (case d_WriteClient deps of
        None \<Rightarrow> (w, Inl (errorf ''nil write client''))
      | Some client \<Rightarrow>
          let req = start_hunt_request deps i; w1 = emit (Called (StartHuntCall req)) w in
          (case wc_StartHunt client (w_tick w) req of
             Inl err \<Rightarrow>
               (recordAudit env deps (failed (start_hunt_tool\<lparr>ev_Artifact := sh_Artifact i\<rparr>) (err_text env err)) w1,
                Inr ((start_hunt_out i (ErrorResult (err_text env err)))\<lparr>sho_Mode := VelociraptorModeReal\<rparr>))
           | Inr hunt \<Rightarrow>
               (recordAudit env deps ((start_hunt_event i)\<lparr>ev_Outcome := OutcomeSuccess, ev_HuntID := hu_HuntID hunt, ev_ApprovalID := sh_ApprovalID i\<rparr>) w1,
                Inr ((start_hunt_out i (Success ''hunt started''))\<lparr>sho_Mode := VelociraptorModeReal, sho_HuntID := hu_HuntID hunt,
                       sho_State := hu_State hunt, sho_ScopeDesc := describeScope env (sh_ClientIDs i) (sh_Label i) (sh_All i)\<rparr>))))"

definition newStartHuntHandler :: "env \<Rightarrow> Deps \<Rightarrow> StartHuntInput \<Rightarrow> world \<Rightarrow> world \<times> (gerror + StartHuntOutput)" where
  "newStartHuntHandler env deps i w =
     guarded env deps (start_hunt_checks env deps i)
       (approved_write env deps (sh_ApprovalID i) (start_hunt_candidate i) BackendOpStartHunt (start_hunt_event i)
          (sh_Reason i) (huntScopeBackendReady env deps (sh_ClientIDs i)) no_preflight (start_hunt_out i)
          (start_hunt_exec env deps i)) w"

subsection \<open>velo\_start\_dfir\_hunt\_with\_approval\<close>

record StartDFIRHuntInput =
  sd_CaseID :: string
  sd_Reason :: string
  sd_Requester :: string
  sd_ApprovalID :: string
  sd_Profile :: string
  sd_ClientIDs :: "string list"
  sd_Label :: string
  sd_All :: bool
  sd_MaxClients :: int

record StartDFIRHuntOutput =
  sdo_Result :: Result
  sdo_Mode :: string
  sdo_HuntID :: string
  sdo_Profile :: string
  sdo_State :: string
  sdo_ScopeDesc :: string

definition dfir_hunt_candidate :: "StartDFIRHuntInput \<Rightarrow> Request" where
  "dfir_hunt_candidate i = zeroRequest\<lparr>rq_Operation := OperationStartDFIRHunt, rq_CaseID := sd_CaseID i,
     rq_Profile := sd_Profile i, rq_ClientIDs := sd_ClientIDs i, rq_Label := sd_Label i, rq_TargetAll := sd_All i\<rparr>"

definition dfir_hunt_tool :: Event where
  "dfir_hunt_tool = zeroEvent\<lparr>ev_Tool := ''velo_start_dfir_hunt_with_approval''\<rparr>"

definition dfir_hunt_event :: "StartDFIRHuntInput \<Rightarrow> Event" where
  "dfir_hunt_event i = dfir_hunt_tool\<lparr>ev_Profile := sd_Profile i, ev_CaseID := sd_CaseID i\<rparr>"

definition dfir_hunt_out :: "StartDFIRHuntInput \<Rightarrow> Result \<Rightarrow> StartDFIRHuntOutput" where
  "dfir_hunt_out i result = \<lparr>sdo_Result = result, sdo_Mode = [], sdo_HuntID = [], sdo_Profile = sd_Profile i,
     sdo_State = [], sdo_ScopeDesc = []\<rparr>"

definition dfir_hunt_checks :: "env \<Rightarrow> Deps \<Rightarrow> StartDFIRHuntInput \<Rightarrow> StartDFIRHuntOutput refusal option list" where
  "dfir_hunt_checks env deps i =
     (let tool = dfir_hunt_tool; evP = tool\<lparr>ev_Profile := sd_Profile i\<rparr> in
      [refuse_if (\<not> fst (writePilotEnabled deps)) (blocked (dfir_hunt_event i) (snd (writePilotEnabled deps)))
         (errorf (snd (writePilotEnabled deps))),
       check (validateHuntWriteInput deps (sd_CaseID i) (sd_Reason i) (sd_Requester i) (sd_ApprovalID i)) (\<lambda>e. None) id,
       check (validateHuntScopeInput (sd_ClientIDs i) (sd_Label i) (sd_All i)) (\<lambda>e. Some (blocked tool (err_text env e))) id,
       check (DFIRProfileName (sd_Profile i)) (\<lambda>e. Some (blocked evP (err_text env e))) id,
       refuse_if (\<not> policy_allows deps (\<lambda>p. ProfileAllowed p (sd_Profile i))) (blocked evP ''profile not in allowlist'')
         (Errorf [Lit ''profile '', Quo (sd_Profile i), Lit '' is not in the configured allowlist'']),
       refuse_if (d_Profiles deps = None) (blocked evP ''profile registry not configured'')
         (errorf ''profile registry is not configured''),
       (if lookup_profile deps (sd_Profile i) = None
        then Some (Some (failed evP ''profile not found''),
               Inr ((dfir_hunt_out i (NotFound (''profile '' @ e_quote env (sd_Profile i) @ '' not found'')))\<lparr>sdo_Mode := VelociraptorModeReal\<rparr>))
        else None),
       check (validate_profile deps (sd_Profile i)) (\<lambda>e. Some (blocked evP (err_text env e))) id,
       refuse_if (sd_All i \<and> \<not> policy_allows deps TargetAllAllowed) (blocked tool ''target_all is disabled by policy'')
         (errorf ''target_all is disabled by policy'')])"

definition dfir_hunt_request :: "Deps \<Rightarrow> StartDFIRHuntInput \<Rightarrow> ProfileArtifact \<Rightarrow> HuntRequest" where
  "dfir_hunt_request deps i a = \<lparr>hr_Artifact = pf_artName a, hr_Parameters = pf_Parameters a,
     hr_Scope = \<lparr>sr_ClientIDs = sd_ClientIDs i, sr_Label = sd_Label i, sr_All = sd_All i\<rparr>,
     hr_MaxClients = huntMaxClients deps (sd_MaxClients i)\<rparr>"

definition zeroHuntSummary :: HuntSummary where
  "zeroHuntSummary = \<lparr>hu_HuntID = [], hu_Artifact = [], hu_State = [], hu_CreatedAt = [], hu_ClientCount = 0\<rparr>"

fun dfir_hunt_loop ::
  "Deps \<Rightarrow> write_client \<Rightarrow> StartDFIRHuntInput \<Rightarrow> ProfileArtifact list \<Rightarrow> HuntSummary \<Rightarrow> world \<Rightarrow>
   world \<times> HuntSummary \<times> gerror option" where
  "dfir_hunt_loop deps client i [] lastHunt w = (w, lastHunt, None)"
| "dfir_hunt_loop deps client i (a # as) lastHunt w =
     (let req = dfir_hunt_request deps i a; w1 = emit (Called (StartHuntCall req)) w in
      case wc_StartHunt client (w_tick w) req of
        Inl err \<Rightarrow> (w1, lastHunt, Some err)
      | Inr hunt \<Rightarrow> dfir_hunt_loop deps client i as hunt w1)"

definition dfir_hunt_exec :: "env \<Rightarrow> Deps \<Rightarrow> StartDFIRHuntInput \<Rightarrow> world \<Rightarrow> world \<times> (gerror + StartDFIRHuntOutput)" where
  "dfir_hunt_exec env deps i w =
     (case (d_WriteClient deps, lookup_profile deps (sd_Profile i)) of
        (Some client, Some prof) \<Rightarrow>
          (case dfir_hunt_loop deps client i (pf_Artifacts prof) zeroHuntSummary w of
             (w1, lastHunt, Some err) \<Rightarrow>
               (recordAudit env deps (failed (dfir_hunt_tool\<lparr>ev_Profile := sd_Profile i\<rparr>) (err_text env err)) w1,
                Inr ((dfir_hunt_out i (ErrorResult (err_text env err)))\<lparr>sdo_Mode := VelociraptorModeReal\<rparr>))
           | (w1, lastHunt, None) \<Rightarrow>
               (recordAudit env deps ((dfir_hunt_event i)\<lparr>ev_Outcome := OutcomeSuccess, ev_HuntID := hu_HuntID lastHunt, ev_ApprovalID := sd_ApprovalID i\<rparr>) w1,
                Inr ((dfir_hunt_out i (Success ''DFIR profile hunt started''))\<lparr>sdo_Mode := VelociraptorModeReal, sdo_HuntID := hu_HuntID lastHunt,
                       sdo_State := hu_State lastHunt, sdo_ScopeDesc := describeScope env (sd_ClientIDs i) (sd_Label i) (sd_All i)\<rparr>)))
      | _ \<Rightarrow> (w, Inl (errorf ''nil write client'')))"

definition newStartDFIRHuntHandler :: "env \<Rightarrow> Deps \<Rightarrow> StartDFIRHuntInput \<Rightarrow> world \<Rightarrow> world \<times> (gerror + StartDFIRHuntOutput)" where
  "newStartDFIRHuntHandler env deps i w =
     guarded env deps (dfir_hunt_checks env deps i)
       (approved_write env deps (sd_ApprovalID i) (dfir_hunt_candidate i) BackendOpStartHunt (dfir_hunt_event i)
          (sd_Reason i) (huntScopeBackendReady env deps (sd_ClientIDs i)) no_preflight (dfir_hunt_out i)
          (dfir_hunt_exec env deps i)) w"

subsection \<open>velo\_cancel\_hunt\_with\_approval\<close>

record CancelHuntInput =
  ch_CaseID :: string
  ch_Reason :: string
  ch_Requester :: string
  ch_ApprovalID :: string
  ch_HuntID :: string

record CancelHuntOutput =
  cho_Result :: Result
  cho_Mode :: string
  cho_HuntID :: string

definition cancel_hunt_candidate :: "CancelHuntInput \<Rightarrow> Request" where
  "cancel_hunt_candidate i = zeroRequest\<lparr>rq_Operation := OperationCancelHunt, rq_CaseID := ch_CaseID i, rq_HuntID := ch_HuntID i\<rparr>"

definition cancel_hunt_tool :: "CancelHuntInput \<Rightarrow> Event" where
  "cancel_hunt_tool i = zeroEvent\<lparr>ev_Tool := ''velo_cancel_hunt_with_approval'', ev_HuntID := ch_HuntID i\<rparr>"

definition cancel_hunt_event :: "CancelHuntInput \<Rightarrow> Event" where
  "cancel_hunt_event i = (cancel_hunt_tool i)\<lparr>ev_CaseID := ch_CaseID i\<rparr>"

definition cancel_hunt_out :: "CancelHuntInput \<Rightarrow> Result \<Rightarrow> CancelHuntOutput" where
  "cancel_hunt_out i result = \<lparr>cho_Result = result, cho_Mode = [], cho_HuntID = ch_HuntID i\<rparr>"

definition cancel_hunt_checks :: "env \<Rightarrow> Deps \<Rightarrow> CancelHuntInput \<Rightarrow> CancelHuntOutput refusal option list" where
  "cancel_hunt_checks env deps i =
     [refuse_if (\<not> fst (writePilotEnabled deps)) (blocked (cancel_hunt_event i) (snd (writePilotEnabled deps)))
        (errorf (snd (writePilotEnabled deps))),
      check (validateHuntWriteInput deps (ch_CaseID i) (ch_Reason i) (ch_Requester i) (ch_ApprovalID i)) (\<lambda>e. None) id,
      check (HuntID (ch_HuntID i)) (\<lambda>e. Some (blocked (cancel_hunt_tool i) ''invalid hunt id syntax''))
        (\<lambda>e. Errorf [Lit ''invalid hunt id '', Quo (ch_HuntID i)])]"

definition cancel_hunt_exec :: "env \<Rightarrow> Deps \<Rightarrow> CancelHuntInput \<Rightarrow> world \<Rightarrow> world \<times> (gerror + CancelHuntOutput)" where
  "cancel_hunt_exec env deps i w =
     (case d_WriteClient deps of
        None \<Rightarrow> (w, Inl (errorf ''nil write client''))
      | Some client \<Rightarrow>
          let w1 = emit (Called (CancelHuntCall (ch_HuntID i))) w in
          (case wc_CancelHunt client (w_tick w) (ch_HuntID i) of
             Some err \<Rightarrow>
               (recordAudit env deps (failed (cancel_hunt_tool i) (err_text env err)) w1,
                Inr ((cancel_hunt_out i (ErrorResult (err_text env err)))\<lparr>cho_Mode := VelociraptorModeReal\<rparr>))
           | None \<Rightarrow>
               (recordAudit env deps ((cancel_hunt_event i)\<lparr>ev_Outcome := OutcomeSuccess, ev_ApprovalID := ch_ApprovalID i\<rparr>) w1,
                Inr ((cancel_hunt_out i (Success ''hunt cancelled''))\<lparr>cho_Mode := VelociraptorModeReal\<rparr>))))"

definition newCancelHuntHandler :: "env \<Rightarrow> Deps \<Rightarrow> CancelHuntInput \<Rightarrow> world \<Rightarrow> world \<times> (gerror + CancelHuntOutput)" where
  "newCancelHuntHandler env deps i w =
     guarded env deps (cancel_hunt_checks env deps i)
       (approved_write env deps (ch_ApprovalID i) (cancel_hunt_candidate i) BackendOpCancelHunt (cancel_hunt_event i)
          (ch_Reason i) zeroResult no_preflight (cancel_hunt_out i) (cancel_hunt_exec env deps i)) w"

subsection \<open>What a hunt may target\<close>

lemma validateHuntWriteInput_None_iff:
  "validateHuntWriteInput deps c r q a = None \<longleftrightarrow>
     CaseID c = None \<and> Reason r = None \<and> Requester q = None \<and> ApprovalReference a = None \<and> d_Approvals deps \<noteq> None"
  by (simp add: validateHuntWriteInput_def split: option.splits)

lemma configuredMaxHuntClients_pos: "0 < configuredMaxHuntClients deps"
  by (simp add: configuredMaxHuntClients_def split: option.splits)

lemma huntMaxClients_bounds: "0 < huntMaxClients deps asked \<and> huntMaxClients deps asked \<le> configuredMaxHuntClients deps"
  using configuredMaxHuntClients_pos [of deps] by (simp add: huntMaxClients_def Let_def)

text \<open>
  \<open>scope_permitted\<close>: exactly one mode, well-formed ids, all clients only where policy says so,
  and a client cap between one and the configured maximum.
\<close>

definition scope_permitted :: "Deps \<Rightarrow> HuntRequest \<Rightarrow> bool" where
  "scope_permitted deps req \<longleftrightarrow>
     ValidateHuntScope \<lparr>hs_ClientIDs = sr_ClientIDs (hr_Scope req), hs_Label = sr_Label (hr_Scope req), hs_All = sr_All (hr_Scope req)\<rparr> = None
     \<and> (sr_All (hr_Scope req) \<longrightarrow> policy_allows deps TargetAllAllowed)
     \<and> 0 < hr_MaxClients req \<and> hr_MaxClients req \<le> configuredMaxHuntClients deps"

lemma start_hunt_exec_calls:
  "d_WriteClient deps = Some client \<Longrightarrow> start_hunt_exec env deps i w = (w', r) \<Longrightarrow>
   extends (\<lambda>t. calls t = [StartHuntCall (start_hunt_request deps i)]) w w'"
  by (auto simp: start_hunt_exec_def Let_def split: sum.splits intro!: extends_call_audit extends_emit_call)

lemma cancel_hunt_exec_calls:
  "d_WriteClient deps = Some client \<Longrightarrow> cancel_hunt_exec env deps i w = (w', r) \<Longrightarrow>
   extends (\<lambda>t. calls t = [CancelHuntCall (ch_HuntID i)]) w w'"
  by (auto simp: cancel_hunt_exec_def Let_def split: option.splits intro!: extends_call_audit extends_emit_call)

definition dfir_hunt_calls :: "Deps \<Rightarrow> StartDFIRHuntInput \<Rightarrow> ProfileArtifact list \<Rightarrow> write_call list" where
  "dfir_hunt_calls deps i as = map (\<lambda>a. StartHuntCall (dfir_hunt_request deps i a)) as"

lemma dfir_hunt_loop_calls:
  "dfir_hunt_loop deps client i as lh w = (w', lh', e) \<Longrightarrow>
   \<exists>n. extends (\<lambda>t. calls t = dfir_hunt_calls deps i (take n as)) w w'
     \<and> n \<le> length as \<and> (e = None \<longrightarrow> n = length as) \<and> (as \<noteq> [] \<longrightarrow> 0 < n)"
proof (induction deps client i as lh w rule: dfir_hunt_loop.induct)
  case (1 deps client i lh w)
  then show ?case by (auto simp: dfir_hunt_calls_def intro: extends_refl)
next
  case (2 deps client i a as lh w)
  let ?req = "dfir_hunt_request deps i a"
  let ?w1 = "emit (Called (StartHuntCall ?req)) w"
  show ?case
  proof (cases "wc_StartHunt client (w_tick w) ?req")
    case (Inl err)
    then have "w' = ?w1" "e = Some err" using 2(2) by auto
    then show ?thesis by (intro exI [of _ 1]) (simp add: dfir_hunt_calls_def extends_emit_call)
  next
    case (Inr s)
    then obtain n where n: "extends (\<lambda>t. calls t = dfir_hunt_calls deps i (take n as)) ?w1 w'"
      "n \<le> length as" "e = None \<longrightarrow> n = length as"
      using 2(1) [OF refl refl Inr] 2(2) by auto
    have "extends (\<lambda>t. calls t = dfir_hunt_calls deps i (take (Suc n) (a # as))) w w'"
      by (rule extends_trans [OF extends_emit_call n(1)]) (simp add: dfir_hunt_calls_def)
    with n show ?thesis by (intro exI [of _ "Suc n"]) simp
  qed
qed

lemma dfir_hunt_exec_calls:
  assumes "d_WriteClient deps = Some client" "lookup_profile deps (sd_Profile i) = Some p"
    and "dfir_hunt_exec env deps i w = (w', r)"
  shows "extends (\<lambda>t. \<exists>n \<le> length (pf_Artifacts p). calls t = dfir_hunt_calls deps i (take n (pf_Artifacts p))
      \<and> (pf_Artifacts p \<noteq> [] \<longrightarrow> 0 < n)) w w'"
proof -
  obtain w1 lh e where loop: "dfir_hunt_loop deps client i (pf_Artifacts p) zeroHuntSummary w = (w1, lh, e)"
    by (metis prod_cases3)
  obtain n where n: "extends (\<lambda>t. calls t = dfir_hunt_calls deps i (take n (pf_Artifacts p))) w w1"
    "n \<le> length (pf_Artifacts p)" "pf_Artifacts p \<noteq> [] \<longrightarrow> 0 < n"
    using dfir_hunt_loop_calls [OF loop] by blast
  have "\<exists>evt. w' = recordAudit env deps evt w1"
    using assms loop by (cases e) (auto simp: dfir_hunt_exec_def)
  then have "extends (\<lambda>t. calls t = dfir_hunt_calls deps i (take n (pf_Artifacts p))) w w'"
    using extends_call_audit [OF n(1)] by blast
  then show ?thesis by (rule extends_mono) (use n in blast)
qed


text \<open>
  The profile hunt tool starts hunts only under the gates, one per artifact
  of the approved profile in order up to the first failure, all of them allowlisted, every one
  within the same permitted scope.
\<close>

theorem start_dfir_hunt_authorised:
  "authorised (w_audit w \<noteq> None) (sd_ApprovalID i) (dfir_hunt_candidate i)
      (effects_of (newStartDFIRHuntHandler env deps i) w)
   \<and> (harmless (effects_of (newStartDFIRHuntHandler env deps i) w)
      \<or> (\<exists>p n pol. lookup_profile deps (sd_Profile i) = Some p \<and> d_Policy deps = Some pol
         \<and> \<not> ReadOnly pol \<and> ProfileAllowed pol (sd_Profile i)
         \<and> 0 < n \<and> n \<le> length (pf_Artifacts p)
         \<and> calls (effects_of (newStartDFIRHuntHandler env deps i) w)
             = dfir_hunt_calls deps i (take n (pf_Artifacts p))
         \<and> list_all (scope_permitted deps \<circ> dfir_hunt_request deps i) (pf_Artifacts p)
         \<and> pf_artName ` set (pf_Artifacts p) \<subseteq> set (pc_AllowedArtifacts (en_cfg pol))))"
proof -
  let ?checks = "dfir_hunt_checks env deps i" and ?t = "effects_of (newStartDFIRHuntHandler env deps i) w"
  define ok where "ok rest \<longleftrightarrow> (\<exists>p n. lookup_profile deps (sd_Profile i) = Some p \<and> n \<le> length (pf_Artifacts p)
      \<and> calls rest = dfir_hunt_calls deps i (take n (pf_Artifacts p))
      \<and> (pf_Artifacts p \<noteq> [] \<longrightarrow> 0 < n))" for rest
  have pass: "\<exists>p pol. lookup_profile deps (sd_Profile i) = Some p \<and> d_Policy deps = Some pol \<and> \<not> ReadOnly pol
      \<and> ProfileAllowed pol (sd_Profile i) \<and> ValidateProfile p (ArtifactAllowed pol) = None" if "all_pass ?checks"
    using that by (auto simp: dfir_hunt_checks_def Let_def pilot_enabled_iff policy_allows_def validate_profile_def
        split: option.splits if_splits)
  have scope: "scope_permitted deps (dfir_hunt_request deps i a)" if "all_pass ?checks" for a
    using that huntMaxClients_bounds [of deps "sd_MaxClients i"]
    by (auto simp: dfir_hunt_checks_def Let_def scope_permitted_def dfir_hunt_request_def validateHuntScopeInput_def)
  have exec: "extends ok v w'" if ap: "all_pass ?checks" and c: "d_WriteClient deps = Some client"
    and e: "dfir_hunt_exec env deps i v = (w', r)" for client v w' r
  proof -
    obtain p where p: "lookup_profile deps (sd_Profile i) = Some p" using pass [OF ap] by blast
    show ?thesis by (rule extends_mono [OF dfir_hunt_exec_calls [OF c p e]]) (use p in \<open>auto simp: ok_def\<close>)
  qed
  have g: "authorised (w_audit w \<noteq> None) (sd_ApprovalID i) (dfir_hunt_candidate i) ?t
    \<and> (harmless ?t \<or> all_pass ?checks \<and> (\<exists>rest. ok rest \<and> calls ?t = calls rest))"
    by (rule handler_gated [OF newStartDFIRHuntHandler_def]) (erule no_preflight_harmless, erule (2) exec)
  then show ?thesis
  proof (cases "harmless ?t")
    case False
    then obtain rest where ap: "all_pass ?checks" and rest: "ok rest" "calls ?t = calls rest" using g by blast
    obtain p pol where p: "lookup_profile deps (sd_Profile i) = Some p" "d_Policy deps = Some pol" "\<not> ReadOnly pol"
      "ProfileAllowed pol (sd_Profile i)" and v: "ValidateProfile p (ArtifactAllowed pol) = None"
      using pass [OF ap] by blast
    have "pf_Artifacts p \<noteq> []" using v by (simp add: ValidateProfile_None_iff)
    with rest p(1) obtain n where n: "0 < n" "n \<le> length (pf_Artifacts p)"
      "calls ?t = dfir_hunt_calls deps i (take n (pf_Artifacts p))" by (auto simp: ok_def)
    have "list_all (scope_permitted deps \<circ> dfir_hunt_request deps i) (pf_Artifacts p)"
      using scope [OF ap] by (simp add: list_all_iff)
    with n p engine_allow.validated_profile_grants [OF v] g show ?thesis by blast
  qed blast
qed

text \<open>
  The hunt-cancellation tool cancels only the hunt it was asked about, under
  the gates.
\<close>

theorem cancel_hunt_authorised:
  "authorised (w_audit w \<noteq> None) (ch_ApprovalID i) (cancel_hunt_candidate i)
      (effects_of (newCancelHuntHandler env deps i) w)
   \<and> (harmless (effects_of (newCancelHuntHandler env deps i) w)
      \<or> calls (effects_of (newCancelHuntHandler env deps i) w) = [CancelHuntCall (ch_HuntID i)]
        \<and> policy_allows deps (\<lambda>p. \<not> ReadOnly p) \<and> HuntID (ch_HuntID i) = None)"
proof -
  let ?checks = "cancel_hunt_checks env deps i" and ?t = "effects_of (newCancelHuntHandler env deps i) w"
  have "all_pass ?checks \<Longrightarrow> policy_allows deps (\<lambda>p. \<not> ReadOnly p) \<and> HuntID (ch_HuntID i) = None"
    by (simp add: cancel_hunt_checks_def pilot_enabled_iff)
  moreover have "authorised (w_audit w \<noteq> None) (ch_ApprovalID i) (cancel_hunt_candidate i) ?t
    \<and> (harmless ?t \<or> all_pass ?checks \<and> (\<exists>rest. calls rest = [CancelHuntCall (ch_HuntID i)] \<and> calls ?t = calls rest))"
    by (rule handler_gated [OF newCancelHuntHandler_def]) (erule no_preflight_harmless, erule (1) cancel_hunt_exec_calls)
  ultimately show ?thesis by auto
qed

text \<open>
  Where the documentation asks for one terminal audit event per tool call, the
  hunt tools record none for a call whose case id, reason, requester or approval reference is
  malformed: the call leaves the world, audit log included, exactly as it was.
\<close>

theorem hunt_field_errors_unaudited:
  assumes "fst (writePilotEnabled deps)"
    and "validateHuntWriteInput deps (sh_CaseID i) (sh_Reason i) (sh_Requester i) (sh_ApprovalID i) = Some err"
  shows "newStartHuntHandler env deps i w = (w, Inl err)"
  using assms by (simp add: newStartHuntHandler_def guarded_def start_hunt_checks_def Let_def refuse_if_def check_def)

definition sample_hunt_input :: StartHuntInput where
  "sample_hunt_input = \<lparr>sh_CaseID = [], sh_Reason = ''r'', sh_Requester = ''q'', sh_ApprovalID = ''REF-1'',
     sh_Artifact = ''Windows.System.Pslist'', sh_Parameters = [], sh_ClientIDs = [], sh_Label = ''win'', sh_All = False,
     sh_MaxClients = 0\<rparr>"

theorem hunt_field_errors_unaudited_witness:
  "newStartHuntHandler sample_env sample_deps sample_hunt_input sample_world
     = (sample_world, Inl (errorf ''validation: case_id is required''))"
  by (rule hunt_field_errors_unaudited)
     (simp_all add: sample_deps_def sample_hunt_input_def validateHuntWriteInput_def CaseID_def writePilotEnabled_def
        ReadOnly_def NewEngine_def PolicyModeControlled_def PolicyModeReadOnly_def)

end
