(* ===== verification/Vql.thy ===== *)
theory Vql
  imports Validation
begin

text \<open>
  \<^verbatim>\<open>internal/vql\<close>: the fixed template names and the binding of a validated indicator to an
  artifact parameter. No definition here builds query text: \<open>Bind\<close> yields an artifact name
  and a one-entry parameter map or an error (\<open>Bind_ok_iff\<close>, \<open>Bind_unsupported\<close>).
\<close>

type_synonym TemplateName = string
type_synonym Env = "string gomap"

definition TemplateIOCHashHunt :: TemplateName where
  "TemplateIOCHashHunt = ''ioc_hash_hunt''"
definition TemplateIOCIPHunt :: TemplateName where
  "TemplateIOCIPHunt = ''ioc_ip_hunt''"
definition TemplateIOCDomainHunt :: TemplateName where
  "TemplateIOCDomainHunt = ''ioc_domain_hunt''"
definition TemplateIOCProcessHunt :: TemplateName where
  "TemplateIOCProcessHunt = ''ioc_process_hunt''"
definition TemplateIOCPathHunt :: TemplateName where
  "TemplateIOCPathHunt = ''ioc_path_hunt''"

lemmas template_defs = TemplateIOCHashHunt_def TemplateIOCIPHunt_def TemplateIOCDomainHunt_def
  TemplateIOCProcessHunt_def TemplateIOCPathHunt_def

definition KnownTemplates :: "TemplateName list" where
  "KnownTemplates = [TemplateIOCHashHunt, TemplateIOCIPHunt, TemplateIOCDomainHunt,
                     TemplateIOCProcessHunt, TemplateIOCPathHunt]"

definition hashHunterArtifact :: string where
  "hashHunterArtifact = ''Generic.Detection.HashHunter''"

definition envValueKey :: string where
  "envValueKey = ''value''"

definition Env_Get :: "Env \<Rightarrow> string \<Rightarrow> string option" where
  "Env_Get e key = map_of e key"

definition hashListParam :: "string \<Rightarrow> gerror + string" where
  "hashListParam value =
     (case Hash value of
        Inl err \<Rightarrow> Inl (Errorf [Lit ''vql: cannot resolve hash list parameter: '', Wrap err])
      | Inr kind \<Rightarrow>
          if kind = ''md5'' then Inr ''MD5List''
          else if kind = ''sha1'' then Inr ''SHA1List''
          else if kind = ''sha256'' then Inr ''SHA256List''
          else Inl (Errorf [Lit ''vql: unrecognized hash kind '', Quo kind]))"

definition Bind :: "TemplateName \<Rightarrow> Env \<Rightarrow> gerror + (string \<times> string gomap)" where
  "Bind name env =
     (case Env_Get env envValueKey of
        None \<Rightarrow> Inl (Errorf [Lit ''vql: template '', Quo name, Lit '' requires a non-empty '',
                           Quo envValueKey, Lit '' env value''])
      | Some value \<Rightarrow>
          if value = [] then Inl (Errorf [Lit ''vql: template '', Quo name, Lit '' requires a non-empty '',
                           Quo envValueKey, Lit '' env value''])
          else if name = TemplateIOCHashHunt then
            (case hashListParam value of
               Inl err \<Rightarrow> Inl err
             | Inr paramKey \<Rightarrow> Inr (hashHunterArtifact, [(paramKey, value)]))
          else if name \<in> set [TemplateIOCIPHunt, TemplateIOCDomainHunt, TemplateIOCProcessHunt,
                              TemplateIOCPathHunt]
          then Inl (Errorf [Wrap (Sentinel ErrTemplateUnsupported), Lit '': ioc template '', Quo name])
          else Inl (Errorf [Wrap (Sentinel ErrUnknownTemplate), Lit '': '', Quo name]))"

lemma hashListParam_iff:
  "hashListParam v = Inr p \<longleftrightarrow>
   list_all is_hex v \<and> (length v, p) \<in> {(32, ''MD5List''), (40, ''SHA1List''), (64, ''SHA256List'')}"
  by (auto simp: hashListParam_def Hash_iff Hash_def hash_patterns split: sum.splits)

lemma Bind_ok_iff:
  "Bind name env = Inr (art, ps) \<longleftrightarrow>
   (\<exists>v p. name = TemplateIOCHashHunt \<and> map_of env ''value'' = Some v \<and> v \<noteq> []
      \<and> hashListParam v = Inr p \<and> art = hashHunterArtifact \<and> ps = [(p, v)])"
  by (auto simp: Bind_def Env_Get_def envValueKey_def split: option.splits sum.splits if_splits)

text \<open>A known template that is not the hash hunt is refused as unsupported, an unknown one as
  unknown, whatever the (non-empty) value.\<close>

lemma Bind_unsupported:
  assumes "map_of env ''value'' = Some v" and "v \<noteq> []" and "name \<noteq> TemplateIOCHashHunt"
  shows "\<exists>err. Bind name env = Inl err \<and>
    errors_Is (if name \<in> set KnownTemplates then ErrTemplateUnsupported else ErrUnknownTemplate) err"
  using assms by (auto simp: Bind_def Env_Get_def envValueKey_def KnownTemplates_def)

end
