(* ===== verification/Tools_IOC.thy ===== *)
theory Tools_IOC
  imports Tools_Hunts Vql
begin

text \<open>
  \<^verbatim>\<open>internal/mcpserver/tools_ioc.go\<close>: hunting for one validated indicator. The request is built
  by \<open>BuildHuntIOCApprovalRequest\<close>, which the approve command uses too, so an approval made there
  matches the call (\<open>approve_matches_calls\<close> of \<open>Approve_CLI\<close>); the only artifact an indicator can reach is the
  hash hunter (\<open>hunt_ioc_authorised\<close>).
\<close>

definition iocTemplateForKind :: "string \<Rightarrow> TemplateName option" where
  "iocTemplateForKind kind =
     (if kind = IOCKindHash then Some TemplateIOCHashHunt
      else if kind = IOCKindIP then Some TemplateIOCIPHunt
      else if kind = IOCKindDomain then Some TemplateIOCDomainHunt
      else if kind = IOCKindProcess then Some TemplateIOCProcessHunt
      else if kind = IOCKindPath then Some TemplateIOCPathHunt
      else None)"

definition BuildHuntIOCApprovalRequest ::
  "string \<Rightarrow> string \<Rightarrow> string \<Rightarrow> string \<Rightarrow> string \<Rightarrow> string list \<Rightarrow> string \<Rightarrow> bool \<Rightarrow> gerror + Request" where
  "BuildHuntIOCApprovalRequest caseID reason requester kind value clientIDs label all =
     (case ValidateHuntScope \<lparr>hs_ClientIDs = clientIDs, hs_Label = label, hs_All = all\<rparr> of
        Some err \<Rightarrow> Inl err
      | None \<Rightarrow>
     (case ValidateIOC kind value of
        Some err \<Rightarrow> Inl err
      | None \<Rightarrow>
     (case iocTemplateForKind kind of
        None \<Rightarrow> Inl (Errorf [Lit ''unsupported ioc kind '', Quo kind])
      | Some template \<Rightarrow>
     (case Bind template [(''value'', value)] of
        Inl err \<Rightarrow> Inl err
      | Inr (artifact, params) \<Rightarrow>
          Inr (zeroRequest\<lparr>rq_Operation := OperationHuntIOC, rq_CaseID := caseID, rq_Reason := reason,
                 rq_Requester := requester, rq_Artifact := artifact, rq_Parameters := params,
                 rq_ClientIDs := clientIDs, rq_Label := label, rq_TargetAll := all\<rparr>)))))"

record HuntIOCInput =
  hi_CaseID :: string
  hi_Reason :: string
  hi_Requester :: string
  hi_ApprovalID :: string
  hi_Kind :: string
  hi_Value :: string
  hi_ClientIDs :: "string list"
  hi_Label :: string
  hi_All :: bool
  hi_MaxClients :: int

record HuntIOCOutput =
  ho_Result :: Result
  ho_Mode :: string
  ho_HuntID :: string
  ho_Kind :: string
  ho_Artifact :: string
  ho_State :: string
  ho_ScopeDesc :: string

definition ioc_tool :: "HuntIOCInput \<Rightarrow> Event" where
  "ioc_tool i = zeroEvent\<lparr>ev_Tool := ''velo_hunt_ioc_with_approval'', ev_CaseID := hi_CaseID i, ev_IOCKind := hi_Kind i\<rparr>"

definition ioc_event :: "HuntIOCInput \<Rightarrow> Request \<Rightarrow> Event" where
  "ioc_event i cand = (ioc_tool i)\<lparr>ev_Artifact := rq_Artifact cand, ev_IOCValue := hi_Value i\<rparr>"

definition ioc_out :: "HuntIOCInput \<Rightarrow> Request \<Rightarrow> Result \<Rightarrow> HuntIOCOutput" where
  "ioc_out i cand result = \<lparr>ho_Result = result, ho_Mode = [], ho_HuntID = [], ho_Kind = hi_Kind i,
     ho_Artifact = rq_Artifact cand, ho_State = [], ho_ScopeDesc = []\<rparr>"

definition ioc_build :: "HuntIOCInput \<Rightarrow> gerror + Request" where
  "ioc_build i = BuildHuntIOCApprovalRequest (hi_CaseID i) (hi_Reason i) (hi_Requester i) (hi_Kind i) (hi_Value i)
     (hi_ClientIDs i) (hi_Label i) (hi_All i)"

text \<open>The checks before the candidate exists, and those that need it.\<close>

definition ioc_checks1 :: "env \<Rightarrow> Deps \<Rightarrow> HuntIOCInput \<Rightarrow> HuntIOCOutput refusal option list" where
  "ioc_checks1 env deps i =
     (let tool = ioc_tool i in
      [refuse_if (\<not> fst (writePilotEnabled deps)) (blocked tool (snd (writePilotEnabled deps))) (errorf (snd (writePilotEnabled deps))),
       check (validateHuntWriteInput deps (hi_CaseID i) (hi_Reason i) (hi_Requester i) (hi_ApprovalID i)) (\<lambda>e. None) id,
       check (validateHuntScopeInput (hi_ClientIDs i) (hi_Label i) (hi_All i)) (\<lambda>e. Some (blocked tool (err_text env e))) id,
       (case ioc_build i of Inl err \<Rightarrow> Some (Some (blocked tool (err_text env err)), Inl err) | Inr cand \<Rightarrow> None)])"

definition ioc_checks2 :: "env \<Rightarrow> Deps \<Rightarrow> HuntIOCInput \<Rightarrow> Request \<Rightarrow> HuntIOCOutput refusal option list" where
  "ioc_checks2 env deps i cand =
     (let evArt = (ioc_tool i)\<lparr>ev_Artifact := rq_Artifact cand\<rparr> in
      [refuse_if (\<not> policy_allows deps (\<lambda>p. ArtifactAllowed p (rq_Artifact cand))) (blocked evArt ''artifact not in allowlist'')
         (Errorf [Lit ''artifact '', Quo (rq_Artifact cand), Lit '' (resolved from ioc template) is not in the configured allowlist'']),
       refuse_if (hi_All i \<and> \<not> policy_allows deps TargetAllAllowed) (blocked evArt ''target_all is disabled by policy'')
         (errorf ''target_all is disabled by policy'')])"

definition ioc_request :: "Deps \<Rightarrow> HuntIOCInput \<Rightarrow> Request \<Rightarrow> HuntRequest" where
  "ioc_request deps i cand = \<lparr>hr_Artifact = rq_Artifact cand, hr_Parameters = rq_Parameters cand,
     hr_Scope = \<lparr>sr_ClientIDs = hi_ClientIDs i, sr_Label = hi_Label i, sr_All = hi_All i\<rparr>,
     hr_MaxClients = huntMaxClients deps (hi_MaxClients i)\<rparr>"

definition ioc_exec :: "env \<Rightarrow> Deps \<Rightarrow> HuntIOCInput \<Rightarrow> Request \<Rightarrow> world \<Rightarrow> world \<times> (gerror + HuntIOCOutput)" where
  "ioc_exec env deps i cand w =
     (case d_WriteClient deps of
        None \<Rightarrow> (w, Inl (errorf ''nil write client''))
      | Some client \<Rightarrow>
          let ev = (ioc_event i cand)\<lparr>ev_ApprovalID := hi_ApprovalID i\<rparr>;
              req = ioc_request deps i cand; w1 = emit (Called (StartHuntCall req)) w in
          (case wc_StartHunt client (w_tick w) req of
             Inl err \<Rightarrow>
               (recordAudit env deps (failed ev (err_text env err)) w1,
                Inr ((ioc_out i cand (ErrorResult (err_text env err)))\<lparr>ho_Mode := VelociraptorModeReal\<rparr>))
           | Inr hunt \<Rightarrow>
               (recordAudit env deps (ev\<lparr>ev_Outcome := OutcomeSuccess, ev_HuntID := hu_HuntID hunt\<rparr>) w1,
                Inr ((ioc_out i cand (Success ''ioc hunt started''))\<lparr>ho_Mode := VelociraptorModeReal, ho_HuntID := hu_HuntID hunt,
                       ho_State := hu_State hunt, ho_ScopeDesc := describeScope env (hi_ClientIDs i) (hi_Label i) (hi_All i)\<rparr>))))"

definition ioc_body :: "env \<Rightarrow> Deps \<Rightarrow> HuntIOCInput \<Rightarrow> Request \<Rightarrow> world \<Rightarrow> world \<times> (gerror + HuntIOCOutput)" where
  "ioc_body env deps i cand w =
     approved_write env deps (hi_ApprovalID i) cand BackendOpStartHunt (ioc_event i cand) (hi_Reason i)
       (huntScopeBackendReady env deps (hi_ClientIDs i)) no_preflight (ioc_out i cand) (ioc_exec env deps i cand) w"

definition newHuntIOCHandler :: "env \<Rightarrow> Deps \<Rightarrow> HuntIOCInput \<Rightarrow> world \<Rightarrow> world \<times> (gerror + HuntIOCOutput)" where
  "newHuntIOCHandler env deps i w =
     guarded env deps (ioc_checks1 env deps i)
       (\<lambda>w. case ioc_build i of
              Inl err \<Rightarrow> (w, Inl err)
            | Inr cand \<Rightarrow> guarded env deps (ioc_checks2 env deps i cand) (ioc_body env deps i cand) w) w"

subsection \<open>Lemmas\<close>

lemma Build_ok:
  assumes "BuildHuntIOCApprovalRequest caseID reason requester kind value clientIDs label all = Inr q"
  shows "\<exists>p. kind = IOCKindHash \<and> hashListParam value = Inr p
    \<and> ValidateHuntScope \<lparr>hs_ClientIDs = clientIDs, hs_Label = label, hs_All = all\<rparr> = None
    \<and> q = zeroRequest\<lparr>rq_Operation := OperationHuntIOC, rq_CaseID := caseID, rq_Reason := reason, rq_Requester := requester,
        rq_Artifact := hashHunterArtifact, rq_Parameters := [(p, value)],
        rq_ClientIDs := clientIDs, rq_Label := label, rq_TargetAll := all\<rparr>"
  using assms unfolding BuildHuntIOCApprovalRequest_def
  by (auto simp: Bind_ok_iff iocTemplateForKind_def template_defs split: option.splits sum.splits if_splits)

lemma ioc_exec_calls:
  "d_WriteClient deps = Some client \<Longrightarrow> ioc_exec env deps i cand w = (w', r) \<Longrightarrow>
   extends (\<lambda>t. calls t = [StartHuntCall (ioc_request deps i cand)]) w w'"
  by (auto simp: ioc_exec_def Let_def split: sum.splits intro!: extends_call_audit extends_emit_call)

lemma ioc_body_eq:
  "ioc_body env deps i cand = approved_write env deps (hi_ApprovalID i) cand BackendOpStartHunt (ioc_event i cand)
     (hi_Reason i) (huntScopeBackendReady env deps (hi_ClientIDs i)) no_preflight (ioc_out i cand) (ioc_exec env deps i cand)"
  by (rule ext) (rule ioc_body_def)

lemma newHuntIOCHandler_combined:
  assumes "ioc_build i = Inr cand"
  shows "newHuntIOCHandler env deps i w =
    guarded env deps (ioc_checks1 env deps i @ ioc_checks2 env deps i cand) (ioc_body env deps i cand) w"
proof -
  have "first_refusal (xs @ ys) = (case first_refusal xs of Some r \<Rightarrow> Some r | None \<Rightarrow> first_refusal ys)"
    for xs ys :: "HuntIOCOutput refusal option list"
    by (induction xs rule: first_refusal.induct) auto
  then show ?thesis using assms by (auto simp: newHuntIOCHandler_def guarded_def split: option.splits)
qed

text \<open>
  Property C27 (safety). The indicator tool starts at most one hunt, only under the gates and in a
  permitted scope, and the hunt is always the hash hunter with one parameter: the list for the
  hash's own length, holding exactly the given hash. No other indicator kind, and no value that
  is not a hexadecimal digest, can reach Velociraptor.
\<close>

theorem hunt_ioc_authorised:
  "harmless (effects_of (newHuntIOCHandler env deps i) w)
   \<or> (\<exists>cand p. ioc_build i = Inr cand
        \<and> authorised (w_audit w \<noteq> None) (hi_ApprovalID i) cand (effects_of (newHuntIOCHandler env deps i) w)
        \<and> calls (effects_of (newHuntIOCHandler env deps i) w) = [StartHuntCall (ioc_request deps i cand)]
        \<and> scope_permitted deps (ioc_request deps i cand)
        \<and> policy_allows deps (\<lambda>pol. \<not> ReadOnly pol \<and> ArtifactAllowed pol hashHunterArtifact)
        \<and> hr_Artifact (ioc_request deps i cand) = hashHunterArtifact
        \<and> hr_Parameters (ioc_request deps i cand) = [(p, hi_Value i)]
        \<and> list_all is_hex (hi_Value i)
        \<and> (length (hi_Value i), p) \<in> {(32, ''MD5List''), (40, ''SHA1List''), (64, ''SHA256List'')})"
proof (cases "ioc_build i")
  case (Inl err)
  then have no: "\<not> all_pass (ioc_checks1 env deps i)" by (simp add: ioc_checks1_def Let_def)
  have "harmless (effects_of (newHuntIOCHandler env deps i) w)"
  proof (rule effects_ofI)
    fix w' r assume "newHuntIOCHandler env deps i w = (w', r)"
    from guarded_cases [OF this [unfolded newHuntIOCHandler_def]] no show "extends harmless w w'" by blast
  qed
  then show ?thesis ..
next
  case (Inr cand)
  let ?checks = "ioc_checks1 env deps i @ ioc_checks2 env deps i cand" and ?t = "effects_of (newHuntIOCHandler env deps i) w"
  obtain p where b: "hashListParam (hi_Value i) = Inr p" "rq_Artifact cand = hashHunterArtifact"
    "rq_Parameters cand = [(p, hi_Value i)]"
    "ValidateHuntScope \<lparr>hs_ClientIDs = hi_ClientIDs i, hs_Label = hi_Label i, hs_All = hi_All i\<rparr> = None"
    using Build_ok [OF Inr [unfolded ioc_build_def]] by auto
  have pass: "all_pass ?checks \<Longrightarrow> policy_allows deps (\<lambda>pol. \<not> ReadOnly pol \<and> ArtifactAllowed pol hashHunterArtifact)
      \<and> scope_permitted deps (ioc_request deps i cand)"
    using b huntMaxClients_bounds [of deps "hi_MaxClients i"]
    by (auto simp: ioc_checks1_def ioc_checks2_def Let_def pilot_enabled_iff policy_allows_def scope_permitted_def
        ioc_request_def split: option.splits)
  have "authorised (w_audit w \<noteq> None) (hi_ApprovalID i) cand ?t
    \<and> (harmless ?t \<or> all_pass ?checks \<and> (\<exists>rest. calls rest = [StartHuntCall (ioc_request deps i cand)] \<and> calls ?t = calls rest))"
    by (rule handler_gated [OF newHuntIOCHandler_combined [OF Inr, unfolded ioc_body_eq]])
       (erule no_preflight_harmless, erule (1) ioc_exec_calls)
  then have "authorised (w_audit w \<noteq> None) (hi_ApprovalID i) cand ?t"
    and "harmless ?t \<or> all_pass ?checks \<and> calls ?t = [StartHuntCall (ioc_request deps i cand)]" by auto
  moreover have "hr_Artifact (ioc_request deps i cand) = hashHunterArtifact"
    "hr_Parameters (ioc_request deps i cand) = [(p, hi_Value i)]" using b by (simp_all add: ioc_request_def)
  ultimately show ?thesis using pass Inr b(1) [unfolded hashListParam_iff] by blast
qed

end
