(* ===== verification/Tools_Download.thy ===== *)
theory Tools_Download
  imports Tools_Collection
begin

text \<open>
  The download tool of \<^verbatim>\<open>internal/mcpserver/tools_flows.go\<close>: fetching the bytes of one flow upload
  into a file of the configured directory. \<open>downloadFilename_plain\<close> shows that the name, made of the client id, the flow id, a clock reading and
  random digits, is never a path, whatever the upload is called; \<open>download_authorised\<close> that nothing is fetched or
  written outside the gates, and the file directly in that directory.
\<close>

record DownloadFlowUploadInput =
  df_ClientID :: string
  df_FlowID :: string
  df_UploadName :: string
  df_CaseID :: string
  df_Reason :: string
  df_Requester :: string
  df_ApprovalReference :: string

record DownloadFlowUploadOutput =
  dfo_Result :: Result
  dfo_ClientID :: string
  dfo_FlowID :: string
  dfo_LocalPath :: string
  dfo_SizeBytes :: int
  dfo_SHA256 :: string
  dfo_Truncated :: bool

text \<open>\<open>suffix\<close> is what \<^verbatim>\<open>rand.Read\<close> put into the eight bytes, \<open>now\<close> the clock in nanoseconds.\<close>

definition downloadFilename :: "string \<Rightarrow> string \<Rightarrow> (gerror + 8 word list) \<Rightarrow> time \<Rightarrow> gerror + string" where
  "downloadFilename clientID flowID suffix now =
     (case suffix of
        Inl err \<Rightarrow> Inl (Errorf [Lit ''generate download filename: '', Wrap err])
      | Inr bytes \<Rightarrow> Inr (clientID @ ''_'' @ flowID @ ''_'' @ FormatInt now @ ''_'' @ EncodeToString (map uint bytes) @ ''.bin''))"

definition download_dir :: "Deps \<Rightarrow> string" where
  "download_dir deps = (case d_Config deps of None \<Rightarrow> [] | Some c \<Rightarrow> vc_DownloadDir (c_Velociraptor c))"

definition download_max :: "Deps \<Rightarrow> int" where
  "download_max deps = (case d_Config deps of None \<Rightarrow> 0 | Some c \<Rightarrow> vc_MaxUploadBytes (c_Velociraptor c))"

definition download_candidate :: "DownloadFlowUploadInput \<Rightarrow> Request" where
  "download_candidate i = zeroRequest\<lparr>rq_Operation := OperationDownloadFlowUpload, rq_CaseID := df_CaseID i,
     rq_ClientID := df_ClientID i, rq_FlowID := df_FlowID i, rq_UploadName := df_UploadName i\<rparr>"

definition download_event :: "DownloadFlowUploadInput \<Rightarrow> Event" where
  "download_event i = zeroEvent\<lparr>ev_Tool := ''velo_download_flow_upload_with_approval'', ev_ClientID := df_ClientID i,
     ev_FlowID := df_FlowID i, ev_CaseID := df_CaseID i\<rparr>"

definition download_out :: "DownloadFlowUploadInput \<Rightarrow> Result \<Rightarrow> DownloadFlowUploadOutput" where
  "download_out i result = \<lparr>dfo_Result = result, dfo_ClientID = df_ClientID i, dfo_FlowID = df_FlowID i,
     dfo_LocalPath = [], dfo_SizeBytes = 0, dfo_SHA256 = [], dfo_Truncated = False\<rparr>"

definition download_disabled :: string where
  "download_disabled = ''the controlled write pilot is disabled: velociraptor.download_dir is not configured''"

definition download_checks :: "env \<Rightarrow> Deps \<Rightarrow> DownloadFlowUploadInput \<Rightarrow> DownloadFlowUploadOutput refusal option list" where
  "download_checks env deps i =
     (let ev = download_event i in
      [refuse_if (\<not> fst (writePilotEnabled deps)) (blocked ev (snd (writePilotEnabled deps))) (errorf (snd (writePilotEnabled deps))),
       refuse_if (download_dir deps = []) (blocked ev download_disabled) (errorf download_disabled),
       check (validateApprovalFields (df_ClientID i) (df_CaseID i) (df_Reason i) (df_Requester i) (df_ApprovalReference i))
         (\<lambda>e. Some (blocked ev (err_text env e))) id,
       check (FlowID (df_FlowID i)) (\<lambda>e. Some (blocked ev ''invalid flow id syntax''))
         (\<lambda>e. Errorf [Lit ''invalid flow id '', Quo (df_FlowID i)]),
       check (UploadName (df_UploadName i)) (\<lambda>e. Some (blocked ev ''invalid upload name'')) id])"

text \<open>\<^verbatim>\<open>os.MkdirAll\<close> on the download directory, before the approval is spent.\<close>

definition download_preflight :: "env \<Rightarrow> Deps \<Rightarrow> DownloadFlowUploadInput \<Rightarrow> world \<Rightarrow> world \<times> (Event \<times> Result) option" where
  "download_preflight env deps i w =
     (case e_os env (w_tick w) of
        Some err \<Rightarrow>
          (w\<lparr>w_tick := Suc (w_tick w)\<rparr>,
           Some (failed ((download_event i)\<lparr>ev_ApprovalID := df_ApprovalReference i\<rparr>) (''download_dir not writable: '' @ err_text env err),
                 ErrorResult (''download_dir is not writable: '' @ err_text env err)))
      | None \<Rightarrow> (emit (MadeDir (download_dir deps)) w, None))"

text \<open>\<^verbatim>\<open>os.WriteFile\<close> may fail before creating the file or after writing some of the bytes
  (\<open>e_partial\<close>).\<close>

definition download_save ::
  "env \<Rightarrow> Deps \<Rightarrow> DownloadFlowUploadInput \<Rightarrow> string \<Rightarrow> world \<Rightarrow> world \<times> (gerror + DownloadFlowUploadOutput)" where
  "download_save env deps i data w =
     (let ev = (download_event i)\<lparr>ev_ApprovalID := df_ApprovalReference i\<rparr> in
      case downloadFilename (df_ClientID i) (df_FlowID i) (e_rand env (w_tick w)) (e_now env (w_tick w)) of
        Inl err \<Rightarrow>
          (recordAudit env deps (failed ev (err_text env err)) w, Inr (download_out i (ErrorResult (err_text env err))))
      | Inr filename \<Rightarrow>
          let localPath = Join (download_dir deps) filename in
          (case e_os env (w_tick w) of
             Some err \<Rightarrow>
               (recordAudit env deps (failed ev (err_text env err))
                  (case e_partial env (w_tick w) of
                     None \<Rightarrow> w | Some n \<Rightarrow> emit (WroteFile localPath (take n data)) w), Inr (download_out i (ErrorResult (err_text env err))))
           | None \<Rightarrow>
               (recordAudit env deps (ev\<lparr>ev_Outcome := OutcomeSuccess, ev_RequestReason := df_Reason i, ev_ByteCount := int (length data)\<rparr>)
                  (emit (WroteFile localPath data) w),
                Inr ((download_out i (Success []))\<lparr>dfo_LocalPath := localPath, dfo_SizeBytes := int (length data),
                       dfo_SHA256 := EncodeToString (Sum256 data),
                       dfo_Truncated := (download_max deps > 0 \<and> int (length data) \<ge> download_max deps)\<rparr>))))"

definition download_exec :: "env \<Rightarrow> Deps \<Rightarrow> DownloadFlowUploadInput \<Rightarrow> world \<Rightarrow> world \<times> (gerror + DownloadFlowUploadOutput)" where
  "download_exec env deps i w =
     (case d_WriteClient deps of
        None \<Rightarrow> (w, Inl (errorf ''nil write client''))
      | Some client \<Rightarrow>
          let ev = (download_event i)\<lparr>ev_ApprovalID := df_ApprovalReference i\<rparr>;
              w1 = emit (Called (DownloadCall (df_ClientID i) (df_FlowID i) (df_UploadName i) (download_max deps))) w in
          (case wc_DownloadFlowUpload client (w_tick w) (df_ClientID i) (df_FlowID i) (df_UploadName i) (download_max deps) of
             Inl err \<Rightarrow>
               (recordAudit env deps (failed ev (err_text env err)) w1,
                Inr (download_out i (if errors_Is ErrUploadNotFound err then NotFound (err_text env err)
                                     else ErrorResult (err_text env err))))
           | Inr data \<Rightarrow> download_save env deps i data w1))"

definition newDownloadFlowUploadHandler :: "env \<Rightarrow> Deps \<Rightarrow> DownloadFlowUploadInput \<Rightarrow> world \<Rightarrow> world \<times> (gerror + DownloadFlowUploadOutput)" where
  "newDownloadFlowUploadHandler env deps i w =
     guarded env deps (download_checks env deps i)
       (approved_write env deps (df_ApprovalReference i) (download_candidate i) BackendOpDownloadFlowUpload
          (download_event i) (df_Reason i) zeroResult (download_preflight env deps i) (download_out i)
          (download_exec env deps i)) w"

subsection \<open>Lemmas\<close>

fun writes :: "effect list \<Rightarrow> string list" where
  "writes [] = []"
| "writes (WroteFile p d # t) = p # writes t"
| "writes (x # t) = writes t"

lemma writes_append [simp]: "writes (s @ t) = writes s @ writes t"
  by (induction s rule: writes.induct) auto

text \<open>A name that no validator-accepted client and flow id can turn into a path.\<close>

definition safe_name_char :: "char \<Rightarrow> bool" where
  "safe_name_char c \<longleftrightarrow> id_char c \<or> c = CHR ''.''"

lemma hex_digit_safe: "0 \<le> b \<Longrightarrow> b < 16 \<Longrightarrow> safe_name_char (hex_digit b)"
  using of_char_hex_digit [of b]
  by (auto simp: safe_name_char_def id_char_def in_cls_def in_range_def split: if_splits)

lemma EncodeToString_safe: "list_all byte bs \<Longrightarrow> list_all safe_name_char (EncodeToString bs)"
  by (induction bs) (auto simp: EncodeToString_def byte_def intro!: hex_digit_safe)

lemma digit_safe: "is_digit c \<Longrightarrow> safe_name_char c"
  by (simp add: is_digit_def safe_name_char_def id_char_def in_cls_def in_range_def)

lemma FormatInt_safe: "list_all safe_name_char (FormatInt n)"
  by (auto simp: FormatInt_def list_all_iff dest: Itoa_digits intro: digit_safe)
     (simp add: safe_name_char_def id_char_def in_cls_def in_range_def)

lemma ClientID_safe: "ClientID s = None \<Longrightarrow> list_all safe_name_char s"
  unfolding ClientID_iff
  by (auto simp: list_all_iff safe_name_char_def id_char_def lower_hex_def in_cls_def in_range_def)

lemma FlowID_safe: "FlowID s = None \<Longrightarrow> list_all safe_name_char s"
  unfolding FlowID_iff
  by (auto simp: list_all_iff safe_name_char_def id_char_def in_cls_def in_range_def)

lemma downloadFilename_plain:
  assumes "ClientID c = None" "FlowID f = None" "downloadFilename c f suffix now = Inr name"
  shows "plain_name name"
proof -
  obtain bs where suf: "suffix = Inr bs" using assms(3) by (cases suffix) (auto simp: downloadFilename_def)
  have name: "name = c @ ''_'' @ f @ ''_'' @ FormatInt now @ ''_'' @ EncodeToString (map uint bs) @ ''.bin''"
    using assms(3) by (simp add: downloadFilename_def suf)
  have "list_all byte (map uint bs)" using uint_bounded [where ?'a = 8] by (auto simp: list_all_iff byte_def)
  then have "list_all safe_name_char name"
    using ClientID_safe [OF assms(1)] FlowID_safe [OF assms(2)] FormatInt_safe EncodeToString_safe
    by (simp add: name safe_name_char_def id_char_def in_cls_def in_range_def)
  then have "CHR ''/'' \<notin> set name"
    by (auto simp: list_all_iff safe_name_char_def id_char_def in_cls_def in_range_def)
  moreover have "hd name = CHR ''C''" using assms(1) unfolding ClientID_iff name by auto
  ultimately show ?thesis by (auto simp: plain_name_def name)
qed

lemma download_preflight_harmless:
  "download_preflight env deps i w = (w', r) \<Longrightarrow> extends (\<lambda>t. harmless t \<and> writes t = []) w w'"
  by (auto simp: download_preflight_def extends_def split: option.splits)

lemma recordAudit_no_writes: "extends (\<lambda>t. harmless t \<and> writes t = []) w (recordAudit env deps evt w)"
  by (auto simp: recordAudit_def Audit_Write_def extends_def split: option.splits prod.splits)

definition in_download_dir :: "Deps \<Rightarrow> string \<Rightarrow> bool" where
  "in_download_dir deps path \<longleftrightarrow> (\<exists>name. plain_name name \<and> path = Join (download_dir deps) name)"

definition download_effects :: "Deps \<Rightarrow> DownloadFlowUploadInput \<Rightarrow> effect list \<Rightarrow> bool" where
  "download_effects deps i t \<longleftrightarrow>
     calls t = [DownloadCall (df_ClientID i) (df_FlowID i) (df_UploadName i) (download_max deps)]
     \<and> list_all (in_download_dir deps) (writes t) \<and> length (writes t) \<le> 1"

lemma download_save_effects:
  assumes "ClientID (df_ClientID i) = None" "FlowID (df_FlowID i) = None" "download_save env deps i data w = (w', r)"
  shows "extends (\<lambda>t. calls t = [] \<and> list_all (in_download_dir deps) (writes t) \<and> length (writes t) \<le> 1) w w'"
proof (cases "downloadFilename (df_ClientID i) (df_FlowID i) (e_rand env (w_tick w)) (e_now env (w_tick w))")
  case (Inl err)
  then have "w' = recordAudit env deps (failed ((download_event i)\<lparr>ev_ApprovalID := df_ApprovalReference i\<rparr>) (err_text env err)) w"
    using assms(3) by (simp add: download_save_def Let_def)
  then show ?thesis using extends_mono [OF recordAudit_no_writes] by fastforce
next
  case (Inr name)
  have dir: "in_download_dir deps (Join (download_dir deps) name)"
    using downloadFilename_plain [OF assms(1,2) Inr] by (auto simp: in_download_dir_def)
  have "(\<exists>evt. w' = recordAudit env deps evt w)
      \<or> (\<exists>evt bytes. w' = recordAudit env deps evt (emit (WroteFile (Join (download_dir deps) name) bytes) w))"
    using assms(3) Inr by (auto simp: download_save_def Let_def split: option.splits)
  then consider evt where "w' = recordAudit env deps evt w"
    | evt bytes where "w' = recordAudit env deps evt (emit (WroteFile (Join (download_dir deps) name) bytes) w)"
    by blast
  then show ?thesis
  proof cases
    case 1
    then show ?thesis using extends_mono [OF recordAudit_no_writes] by fastforce
  next
    case 2
    have "extends (\<lambda>t. t = [WroteFile (Join (download_dir deps) name) bytes]) w
        (emit (WroteFile (Join (download_dir deps) name) bytes) w)" by (simp add: extends_def)
    from extends_trans [OF this recordAudit_no_writes] show ?thesis unfolding 2 using dir by simp
  qed
qed

lemma download_exec_effects:
  assumes "ClientID (df_ClientID i) = None" "FlowID (df_FlowID i) = None"
    and "d_WriteClient deps = Some client" "download_exec env deps i w = (w', r)"
  shows "extends (download_effects deps i) w w'"
proof -
  let ?c = "DownloadCall (df_ClientID i) (df_FlowID i) (df_UploadName i) (download_max deps)"
  have e: "extends (\<lambda>t. t = [Called ?c]) w (emit (Called ?c) w)" by (simp add: extends_def)
  have "extends (\<lambda>t. calls t = [] \<and> list_all (in_download_dir deps) (writes t) \<and> length (writes t) \<le> 1)
      (emit (Called ?c) w) w'"
    using assms(3,4) download_save_effects [OF assms(1,2)] extends_mono [OF recordAudit_no_writes]
    by (fastforce simp: download_exec_def Let_def split: sum.splits)
  from extends_trans [OF e this] show ?thesis by (simp add: download_effects_def)
qed

lemma harmless_writes [simp]: "harmless t \<Longrightarrow> writes t = []"
  by (induction t rule: writes.induct) auto

text \<open>
  Property C26 (safety). The download tool fetches exactly the upload of the input, with the
  configured size bound, only under the gates and with a download directory configured; it writes
  at most one file, after the approval was consumed, and that file lies directly in the
  download directory under a plain name, whatever the upload name is.
\<close>

theorem download_authorised:
  "authorised (w_audit w \<noteq> None) (df_ApprovalReference i) (download_candidate i)
      (effects_of (newDownloadFlowUploadHandler env deps i) w)
   \<and> (harmless (effects_of (newDownloadFlowUploadHandler env deps i) w)
      \<or> calls (effects_of (newDownloadFlowUploadHandler env deps i) w)
          = [DownloadCall (df_ClientID i) (df_FlowID i) (df_UploadName i) (download_max deps)]
        \<and> list_all (in_download_dir deps) (writes (effects_of (newDownloadFlowUploadHandler env deps i) w))
        \<and> length (writes (effects_of (newDownloadFlowUploadHandler env deps i) w)) \<le> 1
        \<and> download_dir deps \<noteq> [] \<and> policy_allows deps (\<lambda>p. \<not> ReadOnly p)
        \<and> ClientID (df_ClientID i) = None \<and> FlowID (df_FlowID i) = None \<and> UploadName (df_UploadName i) = None)"
proof -
  let ?checks = "download_checks env deps i" and ?t = "effects_of (newDownloadFlowUploadHandler env deps i) w"
  have pass: "all_pass ?checks \<Longrightarrow> download_dir deps \<noteq> [] \<and> policy_allows deps (\<lambda>p. \<not> ReadOnly p)
      \<and> ClientID (df_ClientID i) = None \<and> FlowID (df_FlowID i) = None \<and> UploadName (df_UploadName i) = None"
    by (simp add: download_checks_def Let_def pilot_enabled_iff validateApprovalFields_None_iff)
  have pre: "extends harmless v w'" if "download_preflight env deps i v = (w', r)" for v w' r
    by (rule extends_mono [OF download_preflight_harmless [OF that]]) simp
  have g: "authorised (w_audit w \<noteq> None) (df_ApprovalReference i) (download_candidate i) ?t
    \<and> (harmless ?t \<or> all_pass ?checks \<and> (\<exists>before rest. harmless before \<and> download_effects deps i rest
         \<and> ?t = before @ StoreConsume (df_ApprovalReference i) (Inr ()) # rest))"
    by (rule handler_gated_full [OF newDownloadFlowUploadHandler_def])
       (erule pre, rule download_exec_effects, use pass in auto)
  then show ?thesis using pass by (auto simp: download_effects_def)
qed

end
