(* ===== verification/Gated_Tools.thy ===== *)
theory Gated_Tools
  imports Read_Tools Tools_IOC Tools_Download
begin

text \<open>
  What the eight approval-gated handlers have in common, as a contract: \<open>gated_shape\<close> says that a
  handler is the sequence of checks and gates of \<open>approved_write\<close>, with a preparation and an execution
  that leave the approval store alone. The locale \<open>gated_tool\<close> derives from it what a whole session
  needs: a call with an effect has spent its approval (\<open>pays\<close>), a reference is spent at most once as
  long as other processes do not revive consumed approvals (\<open>accounts\<close>), nothing happens with the
  write pilot off (\<open>disabled\<close>) or a backend that supports nothing (\<open>unsupported\<close>). Every handler
  interprets it.
\<close>

subsection \<open>Accounting of approvals\<close>

fun spent :: "string \<Rightarrow> effect list \<Rightarrow> nat" where
  "spent i [] = 0"
| "spent i (StoreConsume j (Inr u) # t) = (if i = j then Suc (spent i t) else spent i t)"
| "spent i (x # t) = spent i t"

lemma spent_append [simp]: "spent i (s @ t) = spent i s + spent i t"
  by (induction i s rule: spent.induct) auto

lemma spent_harmless [simp]: "harmless t \<Longrightarrow> spent i t = 0"
  by (induction i t rule: spent.induct) auto

lemma spent_mem: "StoreConsume i (Inr u) \<in> set t \<Longrightarrow> 0 < spent i t"
  by (induction i t rule: spent.induct) auto

definition is_spent :: "string \<Rightarrow> store_state \<Rightarrow> nat" where
  "is_spent i s = (if consumed_in (records_at s) i then 1 else 0)"

text \<open>\<open>accounted\<close>: every consumption in the new part of the trace turned an unspent approval into a
  spent one, and none was revived.\<close>

definition accounted :: "world \<Rightarrow> world \<Rightarrow> bool" where
  "accounted w w' \<longleftrightarrow> (\<exists>t. w_trace w' = w_trace w @ t \<and> (\<forall>i. spent i t + is_spent i (w_store w) \<le> is_spent i (w_store w')))"

lemma accounted_refl [simp]: "accounted w w"
  by (simp add: accounted_def)

lemma accounted_trans: "accounted w w1 \<Longrightarrow> accounted w1 w2 \<Longrightarrow> accounted w w2"
proof -
  assume "accounted w w1" "accounted w1 w2"
  then obtain s t where "w_trace w1 = w_trace w @ s" "w_trace w2 = w_trace w1 @ t"
    and le: "\<And>i. spent i s + is_spent i (w_store w) \<le> is_spent i (w_store w1)" "\<And>i. spent i t + is_spent i (w_store w1) \<le> is_spent i (w_store w2)"
    unfolding accounted_def by blast
  moreover have "spent i (s @ t) + is_spent i (w_store w) \<le> is_spent i (w_store w2)" for i
    using le(1) [of i] le(2) [of i] by simp
  ultimately show ?thesis unfolding accounted_def by (metis append_assoc)
qed

text \<open>Other processes may do anything to the store file but make a consumed approval unconsumed.\<close>

definition lawful :: "env \<Rightarrow> bool" where
  "lawful env \<longleftrightarrow> (\<forall>t s i. consumed_in (records_at s) i \<longrightarrow> consumed_in (records_at (s\<lparr>ss_file := e_other env t (ss_file s)\<rparr>)) i)"

text \<open>\<open>idle\<close>: the approval store is as before and no consumption was added.\<close>

definition idle :: "world \<Rightarrow> world \<Rightarrow> bool" where
  "idle w w' \<longleftrightarrow> w_store w' = w_store w \<and> extends (\<lambda>t. \<forall>i. spent i t = 0) w w'"

lemma idle_refl [simp]: "idle w w"
  by (simp add: idle_def extends_def)

lemma idle_trans: "idle w w1 \<Longrightarrow> idle w1 w2 \<Longrightarrow> idle w w2"
  unfolding idle_def extends_def by (elim conjE exE) simp

lemma idle_emit: "(\<And>i. spent i [x] = 0) \<Longrightarrow> idle w (emit x w)"
  by (auto simp: idle_def extends_def)

lemma idle_audit: "idle w w1 \<Longrightarrow> idle w (recordAudit env deps evt w1)"
  by (rule idle_trans) (auto simp: idle_def intro: extends_mono [OF recordAudit_harmless])

lemma idle_call: "idle w (emit (Called c) w)"
  by (rule idle_emit) simp

lemma idle_accounted: "idle w w' \<Longrightarrow> accounted w w'"
  by (auto simp: idle_def accounted_def extends_def)

lemmas idle_intros = idle_refl idle_audit idle_call idle_emit

subsection \<open>Store operations are accounted for\<close>

lemma interfere_accounted: "lawful env \<Longrightarrow> is_spent i (w_store w) \<le> is_spent i (interfere env w)"
  by (simp add: is_spent_def interfere_def lawful_def)

lemma is_spent_cong: "ss_file s = ss_file s' \<Longrightarrow> is_spent i s = is_spent i s'"
  using records_at_cong [of s s'] by (simp add: is_spent_def)

lemma Approvals_Get_accounted:
  assumes "lawful env" "Approvals_Get env fs ref w = (w', r)" shows "accounted w w'"
proof -
  obtain s' where g: "FileStore_Get (e_store env) fs ref (interfere env w) = (s', r)" and w': "w' = emit (StoreGet ref r) (w\<lparr>w_store := s'\<rparr>)"
    using assms(2) by (auto simp: Approvals_Get_def split: prod.splits)
  have "is_spent i (w_store w) \<le> is_spent i s'" for i
    using interfere_accounted [OF assms(1), of i w] is_spent_cong [OF FileStore_Get_file [OF g]] by simp
  then show ?thesis by (simp add: w' accounted_def)
qed

lemma Consume_spends:
  assumes "FileStore_Consume env fs ref s = (s', r)"
  shows "spent i [StoreConsume ref r] + is_spent i s \<le> is_spent i s'"
proof (cases r)
  case (Inl e)
  then show ?thesis using FileStore_Consume_fail [of env fs ref s s' e] assms is_spent_cong [of s' s i] by simp
next
  case (Inr u)
  then have "FileStore_Consume env fs ref s = (s', Inr ())" using assms by simp
  from FileStore_Consume_ok [OF this] Inr show ?thesis by (auto simp: is_spent_def consumed_in_def)
qed

lemma Approvals_Consume_accounted:
  assumes "lawful env" "Approvals_Consume env fs ref w = (w', r)" shows "accounted w w'"
proof -
  obtain s' where c: "FileStore_Consume (e_store env) fs ref (interfere env w) = (s', r)"
    and w': "w' = emit (StoreConsume ref r) (w\<lparr>w_store := s'\<rparr>)"
    using assms(2) by (auto simp: Approvals_Consume_def split: prod.splits)
  have "spent i [StoreConsume ref r] + is_spent i (w_store w) \<le> is_spent i s'" for i
    using interfere_accounted [OF assms(1), of i w] Consume_spends [OF c, of i] by linarith
  then show ?thesis by (simp add: w' accounted_def)
qed

lemma verifyApproval_accounted:
  "lawful env \<Longrightarrow> verifyApproval env deps ref cand w = (w', r) \<Longrightarrow> accounted w w'"
  by (auto simp: verifyApproval_def split: option.splits prod.splits sum.splits if_splits dest: Approvals_Get_accounted)

lemma consumeApproval_accounted:
  "lawful env \<Longrightarrow> consumeApproval env deps ref w = (w', r) \<Longrightarrow> accounted w w'"
  by (auto simp: consumeApproval_def split: option.splits prod.splits sum.splits dest: Approvals_Consume_accounted)

lemma gate_idle: "gateAuditForWrite env deps evt w = (w', r) \<Longrightarrow> idle w w'"
  by (auto simp: gateAuditForWrite_def Audit_Write_def idle_def extends_def split: option.splits prod.splits)

lemma accounted_audit: "accounted w w1 \<Longrightarrow> accounted w (recordAudit env deps evt w1)"
  by (rule accounted_trans [OF _ idle_accounted [OF idle_audit [OF idle_refl]]])

lemma approved_write_accounted:
  assumes law: "lawful env"
    and run: "approved_write env deps reference candidate operation ev reqReason scopeReady preflight out exec w = (w', r)"
    and pre: "\<And>w w' r. preflight w = (w', r) \<Longrightarrow> idle w w'"
    and ex: "\<And>w w' r. exec w = (w', r) \<Longrightarrow> idle w w'"
  shows "accounted w w'"
proof -
  define evA where "evA = ev\<lparr>ev_RequestReason := reqReason, ev_ApprovalID := reference\<rparr>"
  note body = run [unfolded approved_write_def Let_def, folded evA_def]
  obtain w1 res1 out1 ok1 where v: "verifyApproval env deps reference candidate w = (w1, res1, out1, ok1)"
    by (metis prod_cases4)
  obtain w2 res2 ok2 where g: "gateAuditForWrite env deps evA w1 = (w2, res2, ok2)" by (metis prod_cases3)
  obtain w3 pr where p: "preflight w2 = (w3, pr)" by fastforce
  obtain w4 res4 out4 ok4 where c: "consumeApproval env deps reference w3 = (w4, res4, out4, ok4)"
    by (metis prod_cases4)
  obtain w5 r5 where e: "exec w4 = (w5, r5)" by fastforce
  have a1: "accounted w w1" by (rule verifyApproval_accounted [OF law v])
  have a2: "accounted w w2" by (rule accounted_trans [OF a1 idle_accounted [OF gate_idle [OF g]]])
  have a3: "accounted w w3" by (rule accounted_trans [OF a2 idle_accounted [OF pre [OF p]]])
  have a4: "accounted w w4" by (rule accounted_trans [OF a3 consumeApproval_accounted [OF law c]])
  have a5: "accounted w w5" by (rule accounted_trans [OF a4 idle_accounted [OF ex [OF e]]])
  show ?thesis using body v g p c e a1 a2 a3 a4 a5
    by (auto split: if_splits option.splits intro: accounted_audit)
qed

lemma guarded_accounted:
  assumes "guarded env deps checks body w = (w', r)" and "\<And>w' r. body w = (w', r) \<Longrightarrow> accounted w w'"
  shows "accounted w w'"
  using assms by (auto simp: guarded_def split: option.splits prod.splits intro: accounted_audit)

subsection \<open>The contract\<close>

definition gated_shape :: "env \<Rightarrow> Deps \<Rightarrow> string \<Rightarrow> (world \<Rightarrow> world \<times> (gerror + 'o)) \<Rightarrow> bool" where
  "gated_shape env deps reference h \<longleftrightarrow>
     (\<exists>evt err checks candidate operation ev reqReason scopeReady preflight out exec.
        (\<forall>w. h w = guarded env deps (refuse_if (\<not> fst (writePilotEnabled deps)) evt err # checks)
           (approved_write env deps reference candidate operation ev reqReason scopeReady preflight out exec) w)
        \<and> (\<forall>w. idle w (fst (preflight w)) \<and> extends harmless w (fst (preflight w))) \<and> (\<forall>w. idle w (fst (exec w))))"

lemma gated_shapeI:
  assumes "\<And>w. h w = guarded env deps (refuse_if (\<not> fst (writePilotEnabled deps)) evt err # checks)
      (approved_write env deps reference candidate operation ev reqReason scopeReady preflight out exec) w"
    and "\<And>w. idle w (fst (preflight w))" and "\<And>w. extends harmless w (fst (preflight w))" and "\<And>w. idle w (fst (exec w))"
  shows "gated_shape env deps reference h"
  unfolding gated_shape_def using assms by blast

lemma approved_write_unready:
  assumes "rs_Status (backendOperationReady env (d_WriteClient deps) operation) \<noteq> StatusUnset"
    and "approved_write env deps reference candidate operation ev reqReason scopeReady preflight out exec w = (w', r)"
  shows "extends harmless w w'"
proof -
  obtain w1 res1 out1 ok1 where v: "verifyApproval env deps reference candidate w = (w1, res1, out1, ok1)"
    by (metis prod_cases4)
  then show ?thesis using assms verifyApproval_trace(1) [OF v]
    by (auto simp: approved_write_def Let_def split: if_splits intro: harmless_then_audit)
qed

text \<open>A backend that supports no write operation, as the placeholder client of mock mode.\<close>

definition supports_nothing :: "Deps \<Rightarrow> bool" where
  "supports_nothing deps \<longleftrightarrow> (case d_WriteClient deps of None \<Rightarrow> True
     | Some c \<Rightarrow> (case wc_Supports c of Some supports \<Rightarrow> \<forall>op. \<not> supports op | None \<Rightarrow> False))"

lemma supports_nothing_unready:
  "supports_nothing deps \<Longrightarrow> rs_Status (backendOperationReady env (d_WriteClient deps) operation) \<noteq> StatusUnset"
  by (auto simp: supports_nothing_def backendOperationReady_def ErrorResult_def split: option.splits)

locale gated_tool =
  fixes handler :: "env \<Rightarrow> Deps \<Rightarrow> 'i \<Rightarrow> world \<Rightarrow> world \<times> (gerror + 'o)"
    and reference :: "'i \<Rightarrow> string"
  assumes shape: "gated_shape env deps (reference i) (handler env deps i)"
begin

lemma pays:
  "harmless (effects_of (handler env deps i) w)
   \<or> StoreConsume (reference i) (Inr ()) \<in> set (effects_of (handler env deps i) w)"
proof -
  obtain evt err checks candidate operation ev reqReason scopeReady preflight out exec where
    h: "\<And>w. handler env deps i w = guarded env deps (refuse_if (\<not> fst (writePilotEnabled deps)) evt err # checks)
      (approved_write env deps (reference i) candidate operation ev reqReason scopeReady preflight out exec) w"
    and pre: "\<And>w. extends harmless w (fst (preflight w))" and ex: "\<And>w. idle w (fst (exec w))"
    using shape unfolding gated_shape_def by metis
  have "authorised (w_audit w \<noteq> None) (reference i) candidate (effects_of (handler env deps i) w)
    \<and> (harmless (effects_of (handler env deps i) w) \<or> all_pass (refuse_if (\<not> fst (writePilotEnabled deps)) evt err # checks)
      \<and> (\<exists>before rest. harmless before \<and> (\<forall>j. spent j rest = 0)
         \<and> effects_of (handler env deps i) w = before @ StoreConsume (reference i) (Inr ()) # rest))"
  proof (rule handler_gated_full [where h = "handler env deps i", OF h])
    fix w w' r assume "preflight w = (w', r)"
    then show "extends harmless w w'" using pre [of w] by simp
  next
    fix w w' r assume "exec w = (w', r)"
    then show "extends (\<lambda>t. \<forall>j. spent j t = 0) w w'" using ex [of w] by (simp add: idle_def)
  qed
  then show ?thesis by auto
qed

lemma accounts: "lawful env \<Longrightarrow> accounted w (fst (handler env deps i w))"
proof -
  assume law: "lawful env"
  obtain evt err checks candidate operation ev reqReason scopeReady preflight out exec where
    h: "handler env deps i w = guarded env deps (refuse_if (\<not> fst (writePilotEnabled deps)) evt err # checks)
      (approved_write env deps (reference i) candidate operation ev reqReason scopeReady preflight out exec) w"
    and pre: "\<And>w. idle w (fst (preflight w))" and ex: "\<And>w. idle w (fst (exec w))"
    using shape unfolding gated_shape_def by metis
  have run: "guarded env deps (refuse_if (\<not> fst (writePilotEnabled deps)) evt err # checks)
      (approved_write env deps (reference i) candidate operation ev reqReason scopeReady preflight out exec) w
      = (fst (handler env deps i w), snd (handler env deps i w))" using h by simp
  show ?thesis
  proof (rule guarded_accounted [OF run])
    fix w' r assume "approved_write env deps (reference i) candidate operation ev reqReason scopeReady preflight out exec w = (w', r)"
    then show "accounted w w'"
      by (rule approved_write_accounted [OF law]) (use pre ex in \<open>metis fst_conv\<close>)+
  qed
qed

lemma disabled:
  "\<not> fst (writePilotEnabled deps) \<Longrightarrow> harmless (effects_of (handler env deps i) w)
    \<and> w_store (fst (handler env deps i w)) = w_store w"
proof -
  assume off: "\<not> fst (writePilotEnabled deps)"
  obtain evt where h: "fst (handler env deps i w) = recordAudit env deps evt w"
    using shape [of env deps i] off by (auto simp: gated_shape_def guarded_def refuse_if_def)
  then show ?thesis using effects_of_extends [of harmless w "handler env deps i"] recordAudit_harmless by simp
qed

lemma unsupported: "supports_nothing deps \<Longrightarrow> harmless (effects_of (handler env deps i) w)"
proof -
  assume no: "supports_nothing deps"
  obtain evt err checks candidate operation ev reqReason scopeReady preflight out exec where
    h: "\<And>w. handler env deps i w = guarded env deps (refuse_if (\<not> fst (writePilotEnabled deps)) evt err # checks)
      (approved_write env deps (reference i) candidate operation ev reqReason scopeReady preflight out exec) w"
    using shape unfolding gated_shape_def by metis
  show ?thesis
  proof (rule effects_ofI)
    fix w' r assume "handler env deps i w = (w', r)"
    from guarded_cases [OF this [unfolded h]] approved_write_unready [OF supports_nothing_unready [OF no]]
    show "extends harmless w w'" by blast
  qed
qed

end

subsection \<open>The eight handlers keep the contract\<close>

lemma no_preflight_idle: "idle w (fst (no_preflight w))" "extends harmless w (fst (no_preflight w))"
  by (simp_all add: extends_def)

lemma preflight_idle: "idle w (fst (download_preflight env deps i w))" "extends harmless w (fst (download_preflight env deps i w))"
  by (auto simp: download_preflight_def idle_def extends_def split: option.splits)

lemma collect_loop_idle: "idle w (fst (collect_profile_loop env client cid as flows w))"
proof (induction env client cid as flows w rule: collect_profile_loop.induct)
  case (2 env client cid a as flows w)
  then show ?case by (auto simp: Let_def split: sum.splits intro: idle_call idle_trans [OF idle_call])
qed simp

lemma dfir_loop_idle: "idle w (fst (dfir_hunt_loop deps client i as prev w))"
proof (induction deps client i as prev w rule: dfir_hunt_loop.induct)
  case (2 deps client i a as prev w)
  then show ?case by (auto simp: Let_def split: sum.splits intro: idle_call idle_trans [OF idle_call])
qed simp

lemma download_save_idle: "idle w (fst (download_save env deps i data w))"
  by (auto simp: download_save_def Let_def split: sum.splits option.splits intro!: idle_audit idle_emit)

lemma exec_idle:
  "idle w (fst (collect_exec env deps i1 w))" "idle w (fst (profile_exec env deps i2 w))" "idle w (fst (cancel_flow_exec env deps i3 w))"
  "idle w (fst (download_exec env deps i4 w))" "idle w (fst (start_hunt_exec env deps i5 w))" "idle w (fst (dfir_hunt_exec env deps i6 w))"
  "idle w (fst (cancel_hunt_exec env deps i7 w))" "idle w (fst (ioc_exec env deps i8 cand w))"
  subgoal by (auto simp: collect_exec_def Let_def split: option.splits sum.splits intro: idle_audit idle_call)
  subgoal using collect_loop_idle [of w env _ "dp_ClientID i2" _ "[]"]
    by (auto simp: profile_exec_def Let_def split: option.splits prod.splits intro!: idle_audit) (metis fst_conv)+
  subgoal by (auto simp: cancel_flow_exec_def Let_def split: option.splits intro: idle_audit idle_call)
  subgoal by (auto simp: download_exec_def Let_def split: option.splits sum.splits
      intro: idle_audit idle_call idle_trans [OF idle_call download_save_idle])
  subgoal by (auto simp: start_hunt_exec_def Let_def split: option.splits sum.splits intro: idle_audit idle_call)
  subgoal using dfir_loop_idle [of w deps _ i6 _ zeroHuntSummary]
    by (auto simp: dfir_hunt_exec_def Let_def split: option.splits prod.splits intro!: idle_audit) (metis fst_conv)+
  subgoal by (auto simp: cancel_hunt_exec_def Let_def split: option.splits intro: idle_audit idle_call)
  subgoal by (auto simp: ioc_exec_def Let_def split: option.splits sum.splits intro: idle_audit idle_call)
  done

interpretation collect_artifact: gated_tool newCollectArtifactHandler ci_ApprovalReference
  by unfold_locales (rule gated_shapeI [OF newCollectArtifactHandler_def [unfolded collect_checks_def Let_def]
      no_preflight_idle exec_idle(1)])

interpretation collect_dfir_profile: gated_tool newCollectDFIRProfileHandler dp_ApprovalReference
  by unfold_locales (rule gated_shapeI [OF newCollectDFIRProfileHandler_def [unfolded profile_checks_def Let_def]
      no_preflight_idle exec_idle(2)])

interpretation cancel_flow: gated_tool newCancelFlowHandler cfi_ApprovalReference
  by unfold_locales (rule gated_shapeI [OF newCancelFlowHandler_def [unfolded cancel_flow_checks_def Let_def]
      no_preflight_idle exec_idle(3)])

interpretation download_flow_upload: gated_tool newDownloadFlowUploadHandler df_ApprovalReference
  by unfold_locales (rule gated_shapeI [OF newDownloadFlowUploadHandler_def [unfolded download_checks_def Let_def]
      preflight_idle exec_idle(4)])

interpretation start_hunt: gated_tool newStartHuntHandler sh_ApprovalID
  by unfold_locales (rule gated_shapeI [OF newStartHuntHandler_def [unfolded start_hunt_checks_def Let_def]
      no_preflight_idle exec_idle(5)])

interpretation start_dfir_hunt: gated_tool newStartDFIRHuntHandler sd_ApprovalID
  by unfold_locales (rule gated_shapeI [OF newStartDFIRHuntHandler_def [unfolded dfir_hunt_checks_def Let_def]
      no_preflight_idle exec_idle(6)])

interpretation cancel_hunt: gated_tool newCancelHuntHandler ch_ApprovalID
  by unfold_locales (rule gated_shapeI [OF newCancelHuntHandler_def [unfolded cancel_hunt_checks_def]
      no_preflight_idle exec_idle(7)])

text \<open>The indicator handler builds its request between two groups of checks; without a request the
  first group already refuses, whatever would follow.\<close>

lemma ioc_no_request:
  assumes "ioc_build i = Inl err"
  shows "newHuntIOCHandler env deps i w = guarded env deps (ioc_checks1 env deps i) body w"
proof -
  have "first_refusal (ioc_checks1 env deps i) \<noteq> None"
    using assms by (simp add: first_refusal_None_iff ioc_checks1_def Let_def)
  then show ?thesis by (auto simp: newHuntIOCHandler_def guarded_def split: option.splits)
qed

interpretation hunt_ioc: gated_tool newHuntIOCHandler hi_ApprovalID
proof unfold_locales
  fix env deps i
  show "gated_shape env deps (hi_ApprovalID i) (newHuntIOCHandler env deps i)"
  proof (cases "ioc_build i")
    case (Inl err)
    show ?thesis
      by (rule gated_shapeI [OF ioc_no_request [OF Inl, unfolded ioc_checks1_def Let_def] no_preflight_idle exec_idle(8)])
  next
    case (Inr cand)
    show ?thesis
      by (rule gated_shapeI [OF newHuntIOCHandler_combined [OF Inr, unfolded ioc_body_eq ioc_checks1_def Let_def append_Cons]
          no_preflight_idle exec_idle(8)])
  qed
qed

end
