(* ===== verification/Approve_CLI.thy ===== *)
theory Approve_CLI
  imports Tools_IOC Tools_Download
begin

text \<open>
  The \<^verbatim>\<open>approve\<close> subcommand of \<^verbatim>\<open>cmd/agentic-velociraptor-mcp/main.go\<close>: the operator's way to create
  and decide an approval. The flags are a record, as \<^verbatim>\<open>flag.Parse\<close> leaves them; \<open>Command_Line\<close> models the
  parsing. Printed messages are not modelled; the exit code is.

  \<open>approve_matches_calls\<close>: a request made here has the fingerprint of the tool call it is meant
  for, for all eight operations. \<open>approve_outcome\<close>: what each exit code means for the store.
  \<open>approve_without_approver\<close>: leaving out the approver spoils the reference.
\<close>

subsection \<open>Flags\<close>

text \<open>\<^verbatim>\<open>strings.Cut(s, "=")\<close>: \<^const>\<open>None\<close> when there is no separator.\<close>

fun Cut_eq :: "string \<Rightarrow> (string \<times> string) option" where
  "Cut_eq [] = None"
| "Cut_eq (c # cs) = (if c = CHR ''='' then Some ([], cs) else map_option (\<lambda>(k, v). (c # k, v)) (Cut_eq cs))"

definition paramMapFlag_Set :: "string gomap \<Rightarrow> string \<Rightarrow> gerror + string gomap" where
  "paramMapFlag_Set values s =
     (case Cut_eq s of
        None \<Rightarrow> Inl (Errorf [Lit ''expected key=value, got '', Quo s])
      | Some (k, v) \<Rightarrow> Inr (gomap_put k v values))"

definition stringSliceFlag_Set :: "string list \<Rightarrow> string \<Rightarrow> string list" where
  "stringSliceFlag_Set values s = values @ [s]"

record approve_flags =
  af_store :: string
  af_reference :: string
  af_operation :: string
  af_caseID :: string
  af_reason :: string
  af_requester :: string
  af_approvedBy :: string
  af_note :: string
  af_deny :: bool
  af_ttlSeconds :: int
  af_clientID :: string
  af_artifact :: string
  af_profile :: string
  af_flowID :: string
  af_uploadName :: string
  af_huntID :: string
  af_label :: string
  af_targetAll :: bool
  af_iocKind :: string
  af_iocValue :: string
  af_param :: "string gomap"
  af_huntClientID :: "string list"

subsection \<open>The request\<close>

definition approve_base :: "approve_flags \<Rightarrow> Request" where
  "approve_base f = zeroRequest\<lparr>rq_ID := af_reference f, rq_Operation := af_operation f, rq_CaseID := af_caseID f,
     rq_Reason := af_reason f, rq_Requester := af_requester f\<rparr>"

text \<open>The switch over the operation; \<^const>\<open>Inl\<close> is an exit with code 2.\<close>

definition approve_request :: "approve_flags \<Rightarrow> gerror + Request" where
  "approve_request f =
     (let req = approve_base f; op = af_operation f in
      if op = OperationCollectArtifact
      then Inr (req\<lparr>rq_ClientID := af_clientID f, rq_Artifact := af_artifact f, rq_Parameters := af_param f\<rparr>)
      else if op = OperationCollectDFIRProfile
      then Inr (req\<lparr>rq_ClientID := af_clientID f, rq_Profile := af_profile f\<rparr>)
      else if op = OperationCancelFlow
      then Inr (req\<lparr>rq_ClientID := af_clientID f, rq_FlowID := af_flowID f\<rparr>)
      else if op = OperationDownloadFlowUpload
      then Inr (req\<lparr>rq_ClientID := af_clientID f, rq_FlowID := af_flowID f, rq_UploadName := af_uploadName f\<rparr>)
      else if op = OperationStartHunt
      then Inr (req\<lparr>rq_Artifact := af_artifact f, rq_Parameters := af_param f, rq_ClientIDs := af_huntClientID f,
                   rq_Label := af_label f, rq_TargetAll := af_targetAll f\<rparr>)
      else if op = OperationStartDFIRHunt
      then Inr (req\<lparr>rq_Profile := af_profile f, rq_ClientIDs := af_huntClientID f, rq_Label := af_label f,
                   rq_TargetAll := af_targetAll f\<rparr>)
      else if op = OperationCancelHunt
      then Inr (req\<lparr>rq_HuntID := af_huntID f\<rparr>)
      else if op = OperationHuntIOC
      then (case BuildHuntIOCApprovalRequest (af_caseID f) (af_reason f) (af_requester f) (af_iocKind f) (af_iocValue f)
                   (af_huntClientID f) (af_label f) (af_targetAll f) of
              Inl err \<Rightarrow> Inl err
            | Inr built \<Rightarrow> Inr (built\<lparr>rq_ID := af_reference f\<rparr>))
      else Inl (Errorf [Lit ''--operation must be one of collect_artifact, collect_dfir_profile, cancel_flow, download_flow_upload, start_hunt, start_dfir_hunt, cancel_hunt, hunt_ioc (got '',
                        Quo op, Lit '')'']))"

subsection \<open>The command\<close>

definition approve_decision :: "approve_flags \<Rightarrow> string \<Rightarrow> Decision" where
  "approve_decision f requestID = \<lparr>dc_RequestID = requestID, dc_Approved = (\<not> af_deny f), dc_ApprovedBy = af_approvedBy f,
     dc_DecidedAt = zero_time, dc_Note = af_note f\<rparr>"

definition approve_ttl :: "approve_flags \<Rightarrow> int" where
  "approve_ttl f = wrap64 (af_ttlSeconds f * 1000000000)"

definition runApprove :: "store_env \<Rightarrow> approve_flags \<Rightarrow> store_state \<Rightarrow> store_state \<times> int" where
  "runApprove env f s =
     (case approve_request f of
        Inl err \<Rightarrow> (s, 2)
      | Inr req \<Rightarrow>
     if af_store f = [] then (s, 2)
     else (case NewFileStore env (af_store f) (approve_ttl f) s of
        (s1, Inl err) \<Rightarrow> (s1, 1)
      | (s1, Inr fileStore) \<Rightarrow>
     (case FileStore_Create env fileStore req s1 of
        (s2, Inl err) \<Rightarrow> (s2, 1)
      | (s2, Inr created) \<Rightarrow>
     (case FileStore_Decide env fileStore (approve_decision f (rq_ID created)) s2 of
        (s3, Inl err) \<Rightarrow> (s3, 1)
      | (s3, Inr _) \<Rightarrow> (s3, 0)))))"

subsection \<open>The request matches the call\<close>

lemma paramMapFlag_Set_wf: "paramMapFlag_Set m s = Inr m' \<Longrightarrow> wf_gomap m \<Longrightarrow> wf_gomap m'"
  by (auto simp: paramMapFlag_Set_def gomap_put_wf split: option.splits prod.splits)

text \<open>The calls that need an approval, and the request each handler compares with the stored one.\<close>

datatype gated_call =
    CallCollectArtifact CollectArtifactInput
  | CallCollectDFIRProfile CollectDFIRProfileInput
  | CallCancelFlow CancelFlowInput
  | CallDownloadFlowUpload DownloadFlowUploadInput
  | CallStartHunt StartHuntInput
  | CallStartDFIRHunt StartDFIRHuntInput
  | CallCancelHunt CancelHuntInput
  | CallHuntIOC HuntIOCInput

fun gated_candidate :: "gated_call \<Rightarrow> gerror + Request" where
  "gated_candidate (CallCollectArtifact i) = Inr (collect_candidate i)"
| "gated_candidate (CallCollectDFIRProfile i) = Inr (profile_candidate i)"
| "gated_candidate (CallCancelFlow i) = Inr (cancel_flow_candidate i)"
| "gated_candidate (CallDownloadFlowUpload i) = Inr (download_candidate i)"
| "gated_candidate (CallStartHunt i) = Inr (start_hunt_candidate i)"
| "gated_candidate (CallStartDFIRHunt i) = Inr (dfir_hunt_candidate i)"
| "gated_candidate (CallCancelHunt i) = Inr (cancel_hunt_candidate i)"
| "gated_candidate (CallHuntIOC i) = ioc_build i"

text \<open>The flags describe the call: same operation, case and target; parameters as maps, client ids
  up to order. \<open>m\<close> are the parsed parameters.\<close>

fun flags_describe :: "approve_flags \<Rightarrow> gated_call \<Rightarrow> bool" where
  "flags_describe f (CallCollectArtifact i) \<longleftrightarrow> af_operation f = OperationCollectArtifact
     \<and> af_caseID f = ci_CaseID i \<and> af_clientID f = ci_ClientID i \<and> af_artifact f = ci_Artifact i \<and> map_of (af_param f) = map_of (ci_Parameters i)"
| "flags_describe f (CallCollectDFIRProfile i) \<longleftrightarrow> af_operation f = OperationCollectDFIRProfile
     \<and> af_caseID f = dp_CaseID i \<and> af_clientID f = dp_ClientID i \<and> af_profile f = dp_Profile i"
| "flags_describe f (CallCancelFlow i) \<longleftrightarrow> af_operation f = OperationCancelFlow
     \<and> af_caseID f = cfi_CaseID i \<and> af_clientID f = cfi_ClientID i \<and> af_flowID f = cfi_FlowID i"
| "flags_describe f (CallDownloadFlowUpload i) \<longleftrightarrow> af_operation f = OperationDownloadFlowUpload
     \<and> af_caseID f = df_CaseID i \<and> af_clientID f = df_ClientID i \<and> af_flowID f = df_FlowID i \<and> af_uploadName f = df_UploadName i"
| "flags_describe f (CallStartHunt i) \<longleftrightarrow> af_operation f = OperationStartHunt
     \<and> af_caseID f = sh_CaseID i \<and> af_artifact f = sh_Artifact i \<and> map_of (af_param f) = map_of (sh_Parameters i)
     \<and> mset (af_huntClientID f) = mset (sh_ClientIDs i) \<and> af_label f = sh_Label i \<and> af_targetAll f = sh_All i"
| "flags_describe f (CallStartDFIRHunt i) \<longleftrightarrow> af_operation f = OperationStartDFIRHunt
     \<and> af_caseID f = sd_CaseID i \<and> af_profile f = sd_Profile i
     \<and> mset (af_huntClientID f) = mset (sd_ClientIDs i) \<and> af_label f = sd_Label i \<and> af_targetAll f = sd_All i"
| "flags_describe f (CallCancelHunt i) \<longleftrightarrow> af_operation f = OperationCancelHunt
     \<and> af_caseID f = ch_CaseID i \<and> af_huntID f = ch_HuntID i"
| "flags_describe f (CallHuntIOC i) \<longleftrightarrow> af_operation f = OperationHuntIOC
     \<and> af_caseID f = hi_CaseID i \<and> af_iocKind f = hi_Kind i \<and> af_iocValue f = hi_Value i
     \<and> mset (af_huntClientID f) = mset (hi_ClientIDs i) \<and> af_label f = hi_Label i \<and> af_targetAll f = hi_All i"

lemma same_target_fingerprint:
  "wf_gomap (rq_Parameters a) \<Longrightarrow> wf_gomap (rq_Parameters b) \<Longrightarrow> same_target a b \<Longrightarrow> RequestFingerprint a = RequestFingerprint b"
  using preimage_eq_iff [of a b] by (simp add: RequestFingerprint_def)

text \<open>What the command builds, one line per operation.\<close>

lemma approve_request_cases:
  assumes "approve_request f = Inr q"
  shows "rq_CaseID q = af_caseID f \<and> rq_Operation q = af_operation f \<and> rq_CreatedAt q = zero_time \<and> rq_ID q = af_reference f
    \<and> rq_Reason q = af_reason f \<and> rq_Requester q = af_requester f"
  using assms by (auto simp: approve_request_def approve_base_def zeroRequest_def Let_def
      split: if_splits sum.splits dest!: Build_ok)

lemma approve_request_wf: "approve_request f = Inr q \<Longrightarrow> wf_gomap (af_param f) \<Longrightarrow> wf_gomap (rq_Parameters q)"
  by (auto simp: approve_request_def approve_base_def zeroRequest_def Let_def wf_gomap_def
      split: if_splits sum.splits dest!: Build_ok)

lemmas candidate_defs = collect_candidate_def profile_candidate_def cancel_flow_candidate_def download_candidate_def
  start_hunt_candidate_def dfir_hunt_candidate_def cancel_hunt_candidate_def

lemma ioc_target_iff:
  assumes "BuildHuntIOCApprovalRequest c1 r1 u1 k1 v1 ids1 l1 a1 = Inr q" and "BuildHuntIOCApprovalRequest c2 r2 u2 k2 v2 ids2 l2 a2 = Inr cand"
  shows "same_target (q\<lparr>rq_ID := x\<rparr>) cand \<longleftrightarrow> c1 = c2 \<and> k1 = k2 \<and> v1 = v2 \<and> mset ids1 = mset ids2 \<and> l1 = l2 \<and> a1 = a2"
proof -
  obtain p1 where 1: "k1 = IOCKindHash" "hashListParam v1 = Inr p1"
    "q = zeroRequest\<lparr>rq_Operation := OperationHuntIOC, rq_CaseID := c1, rq_Reason := r1, rq_Requester := u1,
        rq_Artifact := hashHunterArtifact, rq_Parameters := [(p1, v1)], rq_ClientIDs := ids1, rq_Label := l1, rq_TargetAll := a1\<rparr>"
    using Build_ok [OF assms(1)] by blast
  obtain p2 where 2: "k2 = IOCKindHash" "hashListParam v2 = Inr p2"
    "cand = zeroRequest\<lparr>rq_Operation := OperationHuntIOC, rq_CaseID := c2, rq_Reason := r2, rq_Requester := u2,
        rq_Artifact := hashHunterArtifact, rq_Parameters := [(p2, v2)], rq_ClientIDs := ids2, rq_Label := l2, rq_TargetAll := a2\<rparr>"
    using Build_ok [OF assms(2)] by blast
  have "map_of [(p1, v1)] = map_of [(p2, v2)] \<longleftrightarrow> v1 = v2"
    using 1(2) 2(2) by (auto simp: fun_upd_def fun_eq_iff split: if_splits)
  then show ?thesis by (auto simp: 1 2 same_target_def zeroRequest_def)
qed

lemma approve_request_eqs:
  "af_operation f = OperationCollectArtifact \<Longrightarrow> approve_request f =
     Inr ((approve_base f)\<lparr>rq_ClientID := af_clientID f, rq_Artifact := af_artifact f, rq_Parameters := af_param f\<rparr>)"
  "af_operation f = OperationCollectDFIRProfile \<Longrightarrow> approve_request f =
     Inr ((approve_base f)\<lparr>rq_ClientID := af_clientID f, rq_Profile := af_profile f\<rparr>)"
  "af_operation f = OperationCancelFlow \<Longrightarrow> approve_request f =
     Inr ((approve_base f)\<lparr>rq_ClientID := af_clientID f, rq_FlowID := af_flowID f\<rparr>)"
  "af_operation f = OperationDownloadFlowUpload \<Longrightarrow> approve_request f =
     Inr ((approve_base f)\<lparr>rq_ClientID := af_clientID f, rq_FlowID := af_flowID f, rq_UploadName := af_uploadName f\<rparr>)"
  "af_operation f = OperationStartHunt \<Longrightarrow> approve_request f =
     Inr ((approve_base f)\<lparr>rq_Artifact := af_artifact f, rq_Parameters := af_param f, rq_ClientIDs := af_huntClientID f,
            rq_Label := af_label f, rq_TargetAll := af_targetAll f\<rparr>)"
  "af_operation f = OperationStartDFIRHunt \<Longrightarrow> approve_request f =
     Inr ((approve_base f)\<lparr>rq_Profile := af_profile f, rq_ClientIDs := af_huntClientID f, rq_Label := af_label f,
            rq_TargetAll := af_targetAll f\<rparr>)"
  "af_operation f = OperationCancelHunt \<Longrightarrow> approve_request f = Inr ((approve_base f)\<lparr>rq_HuntID := af_huntID f\<rparr>)"
  by (simp_all add: approve_request_def Let_def operation_defs)

lemma candidate_operation:
  "rq_Operation (collect_candidate i1) = OperationCollectArtifact" "rq_Operation (profile_candidate i2) = OperationCollectDFIRProfile"
  "rq_Operation (cancel_flow_candidate i3) = OperationCancelFlow" "rq_Operation (download_candidate i4) = OperationDownloadFlowUpload"
  "rq_Operation (start_hunt_candidate i5) = OperationStartHunt" "rq_Operation (dfir_hunt_candidate i6) = OperationStartDFIRHunt"
  "rq_Operation (cancel_hunt_candidate i7) = OperationCancelHunt"
  by (simp_all add: candidate_defs zeroRequest_def)

text \<open>Only a request for the call's own operation can match it.\<close>

lemma approve_target_split:
  assumes "approve_request f = Inr q" and "rq_Operation cand = op"
    and "af_operation f = op \<Longrightarrow> same_target q cand \<longleftrightarrow> P"
  shows "same_target q cand \<longleftrightarrow> af_operation f = op \<and> P"
  using assms approve_request_cases [OF assms(1)] by (auto simp: same_target_def)

lemma approve_target_each:
  assumes q: "approve_request f = Inr q"
  shows "same_target q (collect_candidate i1) \<longleftrightarrow> flags_describe f (CallCollectArtifact i1)"
    "same_target q (profile_candidate i2) \<longleftrightarrow> flags_describe f (CallCollectDFIRProfile i2)"
    "same_target q (cancel_flow_candidate i3) \<longleftrightarrow> flags_describe f (CallCancelFlow i3)"
    "same_target q (download_candidate i4) \<longleftrightarrow> flags_describe f (CallDownloadFlowUpload i4)"
    "same_target q (start_hunt_candidate i5) \<longleftrightarrow> flags_describe f (CallStartHunt i5)"
    "same_target q (dfir_hunt_candidate i6) \<longleftrightarrow> flags_describe f (CallStartDFIRHunt i6)"
    "same_target q (cancel_hunt_candidate i7) \<longleftrightarrow> flags_describe f (CallCancelHunt i7)"
  unfolding flags_describe.simps
  subgoal by (rule approve_target_split [OF q candidate_operation(1)])
      (use q in \<open>auto simp: approve_request_eqs(1) candidate_defs(1) same_target_def zeroRequest_def approve_base_def\<close>)
  subgoal by (rule approve_target_split [OF q candidate_operation(2)])
      (use q in \<open>auto simp: approve_request_eqs(2) candidate_defs(2) same_target_def zeroRequest_def approve_base_def\<close>)
  subgoal by (rule approve_target_split [OF q candidate_operation(3)])
      (use q in \<open>auto simp: approve_request_eqs(3) candidate_defs(3) same_target_def zeroRequest_def approve_base_def\<close>)
  subgoal by (rule approve_target_split [OF q candidate_operation(4)])
      (use q in \<open>auto simp: approve_request_eqs(4) candidate_defs(4) same_target_def zeroRequest_def approve_base_def\<close>)
  subgoal by (rule approve_target_split [OF q candidate_operation(5)])
      (use q in \<open>auto simp: approve_request_eqs(5) candidate_defs(5) same_target_def zeroRequest_def approve_base_def\<close>)
  subgoal by (rule approve_target_split [OF q candidate_operation(6)])
      (use q in \<open>auto simp: approve_request_eqs(6) candidate_defs(6) same_target_def zeroRequest_def approve_base_def\<close>)
  subgoal by (rule approve_target_split [OF q candidate_operation(7)])
      (use q in \<open>auto simp: approve_request_eqs(7) candidate_defs(7) same_target_def zeroRequest_def approve_base_def\<close>)
  done

lemma approve_target_iff:
  assumes q: "approve_request f = Inr q" and "gated_candidate c = Inr cand"
  shows "same_target q cand \<longleftrightarrow> flags_describe f c"
proof (cases c)
  case (CallHuntIOC i)
  have "same_target q cand \<longleftrightarrow> af_operation f = OperationHuntIOC \<and> (af_caseID f = hi_CaseID i \<and> af_iocKind f = hi_Kind i
     \<and> af_iocValue f = hi_Value i \<and> mset (af_huntClientID f) = mset (hi_ClientIDs i) \<and> af_label f = hi_Label i \<and> af_targetAll f = hi_All i)"
  proof (rule approve_target_split [OF q])
    show "rq_Operation cand = OperationHuntIOC"
      using assms(2) by (auto simp: CallHuntIOC ioc_build_def dest!: Build_ok)
    assume "af_operation f = OperationHuntIOC"
    then obtain built where "BuildHuntIOCApprovalRequest (af_caseID f) (af_reason f) (af_requester f) (af_iocKind f) (af_iocValue f)
        (af_huntClientID f) (af_label f) (af_targetAll f) = Inr built" "q = built\<lparr>rq_ID := af_reference f\<rparr>"
      using q by (auto simp: approve_request_def Let_def operation_defs split: sum.splits)
    then show "same_target q cand \<longleftrightarrow> (af_caseID f = hi_CaseID i \<and> af_iocKind f = hi_Kind i
     \<and> af_iocValue f = hi_Value i \<and> mset (af_huntClientID f) = mset (hi_ClientIDs i) \<and> af_label f = hi_Label i \<and> af_targetAll f = hi_All i)"
      using assms(2) ioc_target_iff by (simp add: CallHuntIOC ioc_build_def)
  qed
  then show ?thesis by (simp add: CallHuntIOC)
qed (use assms(2) approve_target_each [OF q] in auto)

subsection \<open>What the command does to the store\<close>

lemma write_empty_records:
  "write_empty env what s = (s', r) \<Longrightarrow> records_at s = Map.empty \<Longrightarrow> records_at s' = Map.empty"
  by (auto simp: write_empty_def io_step_def records_at_def split: option.splits prod.splits)

lemma NewFileStore_init_records: "NewFileStore_init env fs s = (s', r) \<Longrightarrow> records_at s' = records_at s"
proof -
  assume "NewFileStore_init env fs s = (s', r)"
  moreover obtain s1 r1 where 1: "io_steps env [''approval: lock store: ''] s = (s1, r1)" by fastforce
  moreover obtain s2 r2 where 2: "checkFilePermissionsLocked env fs s1 = (s2, r2)" by fastforce
  moreover obtain s3 r3 where 3: "os_Stat env s2 = (s3, r3)" by fastforce
  moreover obtain s4 r4 where 4: "write_empty env ''approval: init store: '' s3 = (s4, r4)" by fastforce
  moreover have f: "ss_file s1 = ss_file s" "ss_file s2 = ss_file s1" "ss_file s3 = ss_file s2"
    using io_steps_file [OF 1] check_file [OF 2] 3 by (auto simp: os_Stat_def io_step_def split: option.splits)
  moreover have "records_at s = Map.empty" if "r3 = StatOk sf" "sf_content sf = EmptyFile" for sf
    using that 3 f by (auto simp: os_Stat_def io_step_def records_at_def split: option.splits)
  ultimately show ?thesis
    using write_empty_records [OF 4] records_at_cong [OF f(1)] records_at_cong [OF f(2)] records_at_cong [OF f(3)]
    by (auto simp: NewFileStore_init_def split: option.splits stat_result.splits if_splits)
qed

text \<open>Opening the store never changes an approval.\<close>

lemma NewFileStore_records: "NewFileStore env path ttl s = (s', r) \<Longrightarrow> records_at s' = records_at s"
proof -
  assume "NewFileStore env path ttl s = (s', r)"
  moreover obtain s1 r1 where 1: "os_Stat env s = (s1, r1)" by fastforce
  moreover obtain s2 r2 where 2: "write_empty env ''approval: create store: '' s1 = (s2, r2)" by fastforce
  moreover have f: "ss_file s1 = ss_file s" "r1 = StatNotExist \<Longrightarrow> records_at s = Map.empty"
    using 1 by (auto simp: os_Stat_def io_step_def records_at_def split: option.splits)
  ultimately show ?thesis using write_empty_records [OF 2] records_at_cong [OF f(1)]
    by (auto simp: NewFileStore_def Let_def split: option.splits stat_result.splits if_splits dest!: NewFileStore_init_records)
qed

lemma NewFileStore_ok: "NewFileStore env path ttl s = (s', Inr fs) \<Longrightarrow> fs = \<lparr>fst_path = path, fst_ttl = ttl\<rparr> \<and> 0 < ttl"
  by (auto simp: NewFileStore_def NewFileStore_init_def Let_def split: option.splits stat_result.splits if_splits prod.splits)

lemma NewFileStore_quiet:
  assumes "quiet env" "holds m s" "path \<noteq> []" "0 < ttl"
  shows "\<exists>s'. NewFileStore env path ttl s = (s', Inr \<lparr>fst_path = path, fst_ttl = ttl\<rparr>) \<and> holds m s'"
  using assms by (auto simp: NewFileStore_def NewFileStore_init_def os_Stat_def checkFilePermissionsLocked_def
      io_step_quiet holds_def Let_def)

text \<open>The store operations of the command, once its flags are in order.\<close>

definition approve_store :: "store_env \<Rightarrow> approve_flags \<Rightarrow> Request \<Rightarrow> store_state \<Rightarrow> store_state \<times> int" where
  "approve_store env f q s =
     (case NewFileStore env (af_store f) (approve_ttl f) s of
        (s1, Inl err) \<Rightarrow> (s1, 1)
      | (s1, Inr fs) \<Rightarrow>
     (case FileStore_Create env fs q s1 of
        (s2, Inl err) \<Rightarrow> (s2, 1)
      | (s2, Inr created) \<Rightarrow>
     (case FileStore_Decide env fs (approve_decision f (rq_ID created)) s2 of
        (s3, Inl err) \<Rightarrow> (s3, 1)
      | (s3, Inr _) \<Rightarrow> (s3, 0))))"

lemma runApprove_eq:
  "runApprove env f s = (case approve_request f of Inl err \<Rightarrow> (s, 2)
     | Inr q \<Rightarrow> if af_store f = [] then (s, 2) else approve_store env f q s)"
  by (simp add: runApprove_def approve_store_def split: sum.splits)

text \<open>The records a run leaves, by how far it got: \<open>cli_created\<close> when only the creation took effect,
  \<open>cli_decided\<close> when the decision did too.\<close>

definition cli_created :: "Request \<Rightarrow> time \<Rightarrow> approval_record" where
  "cli_created q t = \<lparr>rc_Request = q\<lparr>rq_CreatedAt := t\<rparr>, rc_Decision = None, rc_Consumed = False\<rparr>"

definition cli_decided :: "approve_flags \<Rightarrow> Request \<Rightarrow> time \<Rightarrow> time \<Rightarrow> approval_record" where
  "cli_decided f q t t' = (cli_created q t)\<lparr>rc_Decision := Some \<lparr>dc_RequestID = rq_ID q, dc_Approved = (\<not> af_deny f),
     dc_ApprovedBy = af_approvedBy f, dc_DecidedAt = t', dc_Note = af_note f\<rparr>\<rparr>"

lemma approve_store_cases:
  assumes "approve_store env f q s = (s', code)"
  obtains (untouched) "code = 1" "records_at s' = records_at s"
  | (created) t where "code = 1" "records_at s (rq_ID q) = None" "records_at s' = (records_at s)(rq_ID q \<mapsto> cli_created q t)"
  | (decided) t t' where "code = 0" "af_approvedBy f \<noteq> []" "records_at s (rq_ID q) = None"
      "records_at s' = (records_at s)(rq_ID q \<mapsto> cli_decided f q t t')"
proof -
  obtain s1 r1 where 1: "NewFileStore env (af_store f) (approve_ttl f) s = (s1, r1)" by fastforce
  note rec1 = NewFileStore_records [OF 1]
  show ?thesis
  proof (cases r1)
    case (Inl err)
    then show ?thesis using untouched assms 1 rec1 by (simp add: approve_store_def)
  next
    case (Inr fs)
    obtain s2 r2 where 2: "FileStore_Create env fs q s1 = (s2, r2)" by fastforce
    show ?thesis
    proof (cases r2)
      case (Inl err)
      then show ?thesis using untouched assms 1 2 Inr rec1 records_at_cong [OF FileStore_Create_fail [of env fs q s1 s2 err]]
        by (simp add: approve_store_def)
    next
      case Inr2: (Inr q')
      obtain t where t: "records_at s (rq_ID q) = None" "q' = q\<lparr>rq_CreatedAt := t\<rparr>"
        "records_at s2 = (records_at s)(rq_ID q \<mapsto> cli_created q t)"
        using FileStore_Create_ok [of env fs q s1 s2 q'] 2 Inr2 rec1 by (auto simp: cli_created_def)
      obtain s3 r3 where 3: "FileStore_Decide env fs (approve_decision f (rq_ID q)) s2 = (s3, r3)" by fastforce
      show ?thesis
      proof (cases r3)
        case (Inl err)
        then show ?thesis
          using created [of t] assms 1 2 3 Inr Inr2 t records_at_cong [OF FileStore_Decide_fail [of env fs _ s2 s3 err]]
          by (simp add: approve_store_def)
      next
        case Inr3: (Inr u)
        have "\<exists>t'. records_at s3 = (records_at s)(rq_ID q \<mapsto> cli_decided f q t t') \<and> af_approvedBy f \<noteq> []"
          using FileStore_Decide_ok [of env fs "approve_decision f (rq_ID q)" s2 s3] 3 Inr3 t(3)
          by (auto simp: approve_decision_def cli_decided_def)
        then show ?thesis
          using decided [of t] assms 1 2 3 Inr Inr2 Inr3 t by (auto simp: approve_store_def)
      qed
    qed
  qed
qed

text \<open>
  What the exit code of the command means, under every pattern of
  failures. 2: the command line was refused and the store was not touched. 0: the reference was new
  and now holds exactly the request asked for, decided as asked, unconsumed, and nothing else
  changed. 1: either nothing changed, or the request was created and left undecided.
\<close>

theorem approve_outcome:
  "snd (runApprove env f s) = 2 \<and> fst (runApprove env f s) = s
   \<or> (\<exists>q. approve_request f = Inr q \<and> rq_ID q = af_reference f \<and>
       (snd (runApprove env f s) = 0 \<and> af_approvedBy f \<noteq> [] \<and> records_at s (af_reference f) = None
          \<and> (\<exists>t t'. records_at (fst (runApprove env f s)) = (records_at s)(af_reference f \<mapsto> cli_decided f q t t'))
        \<or> snd (runApprove env f s) = 1
          \<and> (records_at (fst (runApprove env f s)) = records_at s
             \<or> records_at s (af_reference f) = None
               \<and> (\<exists>t. records_at (fst (runApprove env f s)) = (records_at s)(af_reference f \<mapsto> cli_created q t)))))"
proof (cases "\<exists>q. approve_request f = Inr q \<and> af_store f \<noteq> []")
  case True
  then obtain q where q: "approve_request f = Inr q" "af_store f \<noteq> []" by blast
  obtain s' code where a: "approve_store env f q s = (s', code)" by fastforce
  have id: "rq_ID q = af_reference f" using approve_request_cases [OF q(1)] by simp
  have run: "runApprove env f s = (s', code)" using q a by (simp add: runApprove_eq)
  from a show ?thesis by (cases rule: approve_store_cases) (use q id run in auto)
next
  case False
  then show ?thesis by (auto simp: runApprove_eq split: sum.splits)
qed

lemma taken_reference_refused:
  assumes "records_at s (af_reference f) \<noteq> None" shows "snd (runApprove env f s) \<noteq> 0"
proof (cases "approve_request f")
  case (Inr q)
  obtain s' code where a: "approve_store env f q s = (s', code)" by fastforce
  have "code \<noteq> 0"
    using a by (cases rule: approve_store_cases) (use assms approve_request_cases [OF Inr] in auto)
  then show ?thesis using a Inr by (simp add: runApprove_eq)
qed (simp add: runApprove_eq)

lemma approve_store_quiet:
  assumes "quiet env" "holds m s" "approve_request f = Inr q" "m (af_reference f) = None" "af_store f \<noteq> []" "0 < approve_ttl f"
    "af_reference f \<noteq> []" "af_caseID f \<noteq> []" "af_reason f \<noteq> []" "af_requester f \<noteq> []"
  shows "\<exists>s2 t. runApprove env f s = (case FileStore_Decide env \<lparr>fst_path = af_store f, fst_ttl = approve_ttl f\<rparr>
        (approve_decision f (af_reference f)) s2 of (s3, Inl err) \<Rightarrow> (s3, 1) | (s3, Inr _) \<Rightarrow> (s3, 0))
    \<and> holds (m(af_reference f \<mapsto> cli_created q (se_now env t))) s2"
proof -
  let ?fs = "\<lparr>fst_path = af_store f, fst_ttl = approve_ttl f\<rparr>"
  note fields = approve_request_cases [OF assms(3)]
  obtain s1 where 1: "NewFileStore env (af_store f) (approve_ttl f) s = (s1, Inr ?fs)" "holds m s1"
    using NewFileStore_quiet [OF assms(1,2,5,6)] by blast
  obtain s2 t where 2: "FileStore_Create env ?fs q s1 = (s2, Inr (q\<lparr>rq_CreatedAt := se_now env t\<rparr>))"
    "holds (m(af_reference f \<mapsto> cli_created q (se_now env t))) s2"
    using Create_quiet [OF assms(1) 1(2), of q ?fs] fields assms(4,7-10) by (auto simp: cli_created_def)
  show ?thesis using 1(1) 2 assms(3,5) fields by (auto simp: runApprove_eq approve_store_def)
qed

text \<open>
  Leaving out the approver flag, whose description calls it required, is
  only noticed after the request was written: the command fails with exit code 1, the reference
  stays in the store undecided, and no later run of the command, with whatever flags, can
  approve or deny it.
\<close>

theorem approve_without_approver:
  assumes "quiet env" and "holds m s" and "approve_request f = Inr q" and "m (af_reference f) = None" and "af_store f \<noteq> []"
    and "0 < approve_ttl f" and "af_reference f \<noteq> []" and "af_caseID f \<noteq> []" and "af_reason f \<noteq> []" and "af_requester f \<noteq> []"
    and "af_approvedBy f = []"
  shows "\<exists>s' t. runApprove env f s = (s', 1) \<and> records_at s' (af_reference f) = Some (cli_created q t)
    \<and> (\<forall>env' f'. af_reference f' = af_reference f \<longrightarrow> snd (runApprove env' f' s') \<noteq> 0)"
proof -
  obtain s2 t where run: "runApprove env f s = (s2, 1)" and h: "holds (m(af_reference f \<mapsto> cli_created q (se_now env t))) s2"
    using approve_store_quiet [OF assms(1-10)] assms(11) by (auto simp: FileStore_Decide_def approve_decision_def)
  have rec: "records_at s2 (af_reference f) = Some (cli_created q (se_now env t))"
    using h by (auto simp: holds_def records_at_def)
  with run show ?thesis using taken_reference_refused [of s2] by fastforce
qed

text \<open>A complete command line, for the sample request.\<close>

definition sample_flags :: approve_flags where
  "sample_flags = \<lparr>af_store = ''p'', af_reference = ''REF-2'', af_operation = OperationCollectArtifact, af_caseID = ''CASE-7'',
     af_reason = ''triage'', af_requester = ''analyst'', af_approvedBy = ''lead'', af_note = [], af_deny = False,
     af_ttlSeconds = 900, af_clientID = ''C.0123456789abcdef'', af_artifact = ''Windows.System.Pslist'', af_profile = [],
     af_flowID = [], af_uploadName = [], af_huntID = [], af_label = [], af_targetAll = False, af_iocKind = [],
     af_iocValue = [], af_param = [(''ProcessRegex'', ''cmd'')], af_huntClientID = []\<rparr>"

lemma sample_approve_request:
  "approve_request sample_flags = Inr ((approve_base sample_flags)\<lparr>rq_ClientID := ''C.0123456789abcdef'',
     rq_Artifact := ''Windows.System.Pslist'', rq_Parameters := [(''ProcessRegex'', ''cmd'')]\<rparr>)"
  by (simp add: sample_flags_def approve_request_def Let_def)

theorem approve_without_approver_witness:
  "\<exists>s' t. runApprove calm_env (sample_flags\<lparr>af_approvedBy := []\<rparr>) sample_store = (s', 1)
    \<and> records_at s' ''REF-2'' = Some (cli_created ((approve_base sample_flags)\<lparr>rq_ClientID := ''C.0123456789abcdef'',
        rq_Artifact := ''Windows.System.Pslist'', rq_Parameters := [(''ProcessRegex'', ''cmd'')]\<rparr>) t)
    \<and> snd (runApprove calm_env sample_flags s') \<noteq> 0"
proof -
  let ?f = "sample_flags\<lparr>af_approvedBy := []\<rparr>"
  have q: "approve_request ?f = approve_request sample_flags"
    by (simp add: approve_request_def approve_base_def Let_def split: sum.split)
  have "quiet calm_env" "holds [''REF-1'' \<mapsto> sample_record] sample_store" "0 < approve_ttl ?f"
    by (simp_all add: quiet_def calm_env_def holds_def sample_store_def perm_too_open_def approve_ttl_def sample_flags_def wrap64_def)
  from approve_without_approver [OF this(1,2) q [unfolded sample_approve_request] _ _ this(3)]
  obtain s' t where r: "runApprove calm_env ?f sample_store = (s', 1)"
    "records_at s' (af_reference ?f) = Some (cli_created ((approve_base sample_flags)\<lparr>rq_ClientID := ''C.0123456789abcdef'',
        rq_Artifact := ''Windows.System.Pslist'', rq_Parameters := [(''ProcessRegex'', ''cmd'')]\<rparr>) t)"
    "\<forall>env' f'. af_reference f' = af_reference ?f \<longrightarrow> snd (runApprove env' f' s') \<noteq> 0"
    by (auto simp: sample_flags_def)
  have "snd (runApprove calm_env sample_flags s') \<noteq> 0" using r(3) by simp
  with r(1,2) show ?thesis by (auto simp: sample_flags_def)
qed

subsection \<open>An approval made by the command opens the tool\<close>

definition complete_flags :: "approve_flags \<Rightarrow> bool" where
  "complete_flags f \<longleftrightarrow> af_store f \<noteq> [] \<and> 0 < approve_ttl f \<and> af_reference f \<noteq> [] \<and> af_caseID f \<noteq> [] \<and> af_reason f \<noteq> []
     \<and> af_requester f \<noteq> [] \<and> af_approvedBy f \<noteq> [] \<and> \<not> af_deny f"

lemma approve_quiet:
  assumes "quiet env" "holds m s" "approve_request f = Inr q" "m (af_reference f) = None" "complete_flags f"
  shows "\<exists>s' t d. runApprove env f s = (s', 0) \<and> dc_Approved d
    \<and> holds (m(af_reference f \<mapsto> (cli_created q (se_now env t))\<lparr>rc_Decision := Some d\<rparr>)) s'"
proof -
  let ?fs = "\<lparr>fst_path = af_store f, fst_ttl = approve_ttl f\<rparr>"
  have c: "af_store f \<noteq> []" "0 < approve_ttl f" "af_reference f \<noteq> []" "af_caseID f \<noteq> []" "af_reason f \<noteq> []" "af_requester f \<noteq> []"
    using assms(5) by (simp_all add: complete_flags_def)
  obtain s2 t where run: "runApprove env f s = (case FileStore_Decide env ?fs
        (approve_decision f (af_reference f)) s2 of (s3, Inl err) \<Rightarrow> (s3, 1) | (s3, Inr _) \<Rightarrow> (s3, 0))"
    and h: "holds (m(af_reference f \<mapsto> cli_created q (se_now env t))) s2"
    using approve_store_quiet [OF assms(1-4) c] by blast
  obtain s3 d where "FileStore_Decide env ?fs (approve_decision f (af_reference f)) s2 = (s3, Inr ())" "dc_Approved d"
    "holds (m(af_reference f \<mapsto> (cli_created q (se_now env t))\<lparr>rc_Decision := Some d\<rparr>)) s3"
    using Decide_quiet [OF assms(1) h, of "approve_decision f (af_reference f)" _ ?fs] assms(5)
    by (force simp: approve_decision_def cli_created_def complete_flags_def)
  with run show ?thesis by auto
qed

text \<open>The creation time is not part of the fingerprint.\<close>

lemma fingerprint_created [simp]: "RequestFingerprint (q\<lparr>rq_CreatedAt := t\<rparr>) = RequestFingerprint q"
  by (simp add: RequestFingerprint_def fingerprint_preimage_def)

text \<open>
  Property C21 (equivalence). For each of the eight gated tools, a request made by the command
  has the hash preimage of a tool call exactly when the flags describe that call: the same operation, case
  and target, parameters as maps, client ids up to order. So such an approval
  has the call's fingerprint.
\<close>

theorem approve_matches_calls:
  assumes "wf_gomap (af_param f)" and "approve_request f = Inr q" and "gated_candidate c = Inr cand"
    and "wf_gomap (rq_Parameters cand)"
  shows "(fingerprint_preimage q = fingerprint_preimage cand \<longleftrightarrow> flags_describe f c)
    \<and> (flags_describe f c \<longrightarrow> RequestFingerprint q = RequestFingerprint cand)"
proof -
  have wf: "wf_gomap (rq_Parameters q)" using approve_request_wf [OF assms(2,1)] .
  show ?thesis
    using approve_target_iff [OF assms(2,3)] preimage_eq_iff [OF wf assms(4)] same_target_fingerprint [OF wf assms(4)] by blast
qed

definition sample_call :: CollectArtifactInput where
  "sample_call = sample_input\<lparr>ci_Parameters := [(''ProcessRegex'', ''cmd'')], ci_ApprovalReference := ''REF-2''\<rparr>"

lemma sample_describes: "flags_describe sample_flags (CallCollectArtifact sample_call)"
  by (simp add: sample_flags_def sample_call_def sample_input_def)

theorem approve_matches_calls_witness:
  "\<exists>q. approve_request sample_flags = Inr q \<and> RequestFingerprint q = RequestFingerprint (collect_candidate sample_call)
    \<and> fingerprint_preimage q \<noteq> fingerprint_preimage (collect_candidate (sample_call\<lparr>ci_Parameters := []\<rparr>))"
proof -
  have ps: "wf_gomap (af_param sample_flags)" by (simp add: sample_flags_def wf_gomap_def)
  obtain q where q: "approve_request sample_flags = Inr q" using sample_approve_request by blast
  have wf: "wf_gomap (rq_Parameters (collect_candidate sample_call))"
    "wf_gomap (rq_Parameters (collect_candidate (sample_call\<lparr>ci_Parameters := []\<rparr>)))"
    by (simp_all add: collect_candidate_def sample_call_def wf_gomap_def)
  have no: "\<not> flags_describe sample_flags (CallCollectArtifact (sample_call\<lparr>ci_Parameters := []\<rparr>))"
    by (simp add: sample_flags_def fun_eq_iff)
  have "RequestFingerprint q = RequestFingerprint (collect_candidate sample_call)"
    using approve_matches_calls [OF ps q _ wf(1), of "CallCollectArtifact sample_call"]
      sample_describes by simp
  moreover have "fingerprint_preimage q \<noteq> fingerprint_preimage (collect_candidate (sample_call\<lparr>ci_Parameters := []\<rparr>))"
    using approve_matches_calls [OF ps q _ wf(2),
        of "CallCollectArtifact (sample_call\<lparr>ci_Parameters := []\<rparr>)"] no by simp
  ultimately show ?thesis using q by blast
qed

text \<open>
  Property C22 (liveness). The two programs together: an operator runs the command for a new reference, with complete
  flags that describe a collection; the command exits with 0, and the server, on the store it leaves,
  executes exactly that collection under that reference and consumes the approval, provided the
  rest of its gates are open and the clock stays within the server's time to live.
\<close>

theorem approve_then_collect:
  assumes "undisturbed env" and "holds m s" and "m (af_reference f) = None" and "complete_flags f"
    and "wf_gomap (af_param f)" and "flags_describe f (CallCollectArtifact i)"
    and "wf_gomap (ci_Parameters i)" and "ci_ApprovalReference i = af_reference f"
    and "w_store w = fst (runApprove (e_store env) f s)"
    and "d_Approvals deps = Some fs" and "\<forall>t t'. Since (se_now (e_store env) t) (se_now (e_store env) t') \<le> fst_ttl fs"
    and "d_Policy deps = Some pol" and "\<not> ReadOnly pol" and "ArtifactAllowed pol (ci_Artifact i)"
    and "CollectionParameters (ci_Parameters i) = None" and "ArtifactName (ci_Artifact i) = None"
    and "validateApprovalFields (ci_ClientID i) (ci_CaseID i) (ci_Reason i) (ci_Requester i) (ci_ApprovalReference i) = None"
    and "sink_accepts env (w_audit w)" and "d_WriteClient deps = Some client" and "wc_Supports client = None"
    and "\<forall>t req. wc_CollectArtifact client t req = Inr summary"
  shows "snd (runApprove (e_store env) f s) = 0
    \<and> (\<exists>w'. newCollectArtifactHandler env deps i w =
        (w', Inr ((collect_out i (Success []))\<lparr>co_FlowID := fl_FlowID summary, co_State := fl_State summary,
                       co_CreatedAt := fl_CreatedAt summary\<rparr>))
      \<and> consumed_in (records_at (w_store w')) (af_reference f))"
proof -
  have q: "quiet (e_store env)" using assms(1) by (simp add: undisturbed_def)
  obtain r where r: "approve_request f = Inr r" using assms(6) by (auto simp: approve_request_eqs)
  obtain s' t d where run: "runApprove (e_store env) f s = (s', 0)" and d: "dc_Approved d"
    and h: "holds (m(af_reference f \<mapsto> (cli_created r (se_now (e_store env) t))\<lparr>rc_Decision := Some d\<rparr>)) s'"
    using approve_quiet [OF q assms(2) r assms(3,4)] by blast
  let ?rec = "(cli_created r (se_now (e_store env) t))\<lparr>rc_Decision := Some d\<rparr>"
  have wf: "wf_gomap (rq_Parameters r)" using approve_request_wf [OF r assms(5)] .
  have "same_target r (collect_candidate i)" using approve_target_each(1) [OF r] assms(6) by simp
  then have "RequestFingerprint r = RequestFingerprint (collect_candidate i)"
    by (rule same_target_fingerprint [OF wf, rotated]) (simp add: collect_candidate_def assms(7))
  then have good: "good_record env fs (collect_candidate i) ?rec"
    using d assms(11) by (simp add: good_record_def cli_created_def)
  have store: "holds (m(af_reference f \<mapsto> ?rec)) (w_store w)" using h run assms(9) by simp
  have ref: "(m(af_reference f \<mapsto> ?rec)) (ci_ApprovalReference i) = Some ?rec" by (simp add: assms(8))
  obtain w4 where w4: "newCollectArtifactHandler env deps i w = collect_exec env deps i w4"
    "consumed_in (records_at (w_store w4)) (af_reference f)"
    using collect_runs [OF assms(1,10,12-15,17,16) store ref good assms(18-20)] unfolding assms(8) by blast
  show ?thesis unfolding w4(1) run using w4(2) assms(19,21) by (simp add: collect_exec_def Let_def)
qed

text \<open>The sample command line and call, on the sample deployment.\<close>

lemma sample_call_valid:
  "validateApprovalFields (ci_ClientID sample_call) (ci_CaseID sample_call) (ci_Reason sample_call)
     (ci_Requester sample_call) (ci_ApprovalReference sample_call) = None"
  "ArtifactName (ci_Artifact sample_call) = None" "CollectionParameters (ci_Parameters sample_call) = None"
  by code_simp+

theorem approve_then_collect_witness:
  "\<exists>w' out. newCollectArtifactHandler sample_env sample_deps sample_call
      (sample_world\<lparr>w_store := fst (runApprove calm_env sample_flags sample_store)\<rparr>) = (w', Inr out)
    \<and> co_FlowID out = ''F.1234'' \<and> consumed_in (records_at (w_store w')) ''REF-2''"
proof -
  let ?w = "sample_world\<lparr>w_store := fst (runApprove calm_env sample_flags sample_store)\<rparr>"
  let ?pol = "NewEngine ((c_Policy Default)\<lparr>pc_Mode := PolicyModeControlled\<rparr>)"
  let ?sum = "\<lparr>fl_FlowID = ''F.1234'', fl_ClientID = [], fl_Artifact = [], fl_State = ''running'', fl_CreatedAt = []\<rparr>"
  let ?out = "(collect_out sample_call (Success []))\<lparr>co_FlowID := fl_FlowID ?sum, co_State := fl_State ?sum,
         co_CreatedAt := fl_CreatedAt ?sum\<rparr>"
  have h: "holds [''REF-1'' \<mapsto> sample_record] sample_store"
    by (simp add: holds_def sample_store_def perm_too_open_def)
  have c: "complete_flags sample_flags" by (simp add: complete_flags_def sample_flags_def approve_ttl_def wrap64_def)
  have "\<exists>w'. newCollectArtifactHandler sample_env sample_deps sample_call ?w = (w', Inr ?out)
      \<and> consumed_in (records_at (w_store w')) (af_reference sample_flags)"
    by (rule approve_then_collect [OF sample_undisturbed h _ c _ sample_describes,
          where fs = "\<lparr>fst_path = ''p'', fst_ttl = 900\<rparr>" and pol = ?pol and client = sample_client and summary = ?sum and deps = sample_deps and w = ?w, THEN conjunct2])
       (use sample_call_valid in \<open>simp_all add: sample_deps_def ReadOnly_def NewEngine_def PolicyModeControlled_def
          PolicyModeReadOnly_def ArtifactAllowed_def Default_def sample_flags_def sample_env_def calm_env_def
          sample_call_def sample_input_def wf_gomap_def Since_def minInt64_def maxInt64_def
          sample_world_def sink_accepts_def Sink_Write_def sample_client_def\<close>)
  then show ?thesis by (auto simp: sample_flags_def)
qed

end
