(* ===== verification/Paging.thy ===== *)
theory Paging
  imports Server
begin

text \<open>
  Limits and cursors of the tools that return lists: \<^verbatim>\<open>boundToolLimit\<close>, \<^verbatim>\<open>boundRowsByLimitAndBytes\<close>
  and \<^verbatim>\<open>nextOffsetCursor\<close> of \<^verbatim>\<open>internal/mcpserver/tools_flows.go\<close>, and the cursor functions of
  \<^verbatim>\<open>internal/velociraptor/table.go\<close> that read what the former prints.

  \<open>bound_rows_longest_prefix\<close> says which rows are returned, \<open>cursor_roundtrip\<close> that the offset a
  handler prints is the offset the client reads back.
\<close>

subsection \<open>Reading numerals (\<^verbatim>\<open>strconv.Atoi\<close>)\<close>

definition digit_val :: "char \<Rightarrow> int" where
  "digit_val c = int (of_char c) - 48"

fun digits_val :: "int \<Rightarrow> string \<Rightarrow> int" where
  "digits_val acc [] = acc"
| "digits_val acc (c # cs) = digits_val (10 * acc + digit_val c) cs"

definition numeral_in_range :: "(int \<Rightarrow> int) \<Rightarrow> string \<Rightarrow> int option" where
  "numeral_in_range sign ds =
     (let n = sign (digits_val 0 ds) in
      if ds \<noteq> [] \<and> list_all is_digit ds \<and> minInt64 \<le> n \<and> n \<le> maxInt64 then Some n else None)"

text \<open>\<^const>\<open>None\<close> for both errors of \<^verbatim>\<open>Atoi\<close>, bad syntax and out of range.\<close>

definition Atoi :: "string \<Rightarrow> int option" where
  "Atoi s =
     (case s of
        [] \<Rightarrow> None
      | c # ds \<Rightarrow>
          if c = CHR ''-'' then numeral_in_range uminus ds
          else if c = CHR ''+'' then numeral_in_range id ds
          else numeral_in_range id s)"

lemma digits_val_append: "digits_val acc (xs @ ys) = digits_val (digits_val acc xs) ys"
  by (induction xs arbitrary: acc) simp_all

lemma digits_val_Itoa: "digits_val 0 (Itoa n) = int n"
proof (induction n rule: Itoa.induct)
  case (1 n)
  show ?case
  proof (cases "n < 10")
    case True
    then show ?thesis by (simp add: Itoa.simps [of n] digit_val_def of_char_digit_char)
  next
    case False
    have "int n = 10 * int (n div 10) + int (n mod 10)" by (simp add: zdiv_int zmod_int)
    then show ?thesis
      using 1 [OF False] False
      by (simp add: Itoa.simps [of n] digits_val_append digit_val_def of_char_digit_char)
  qed
qed

lemma Itoa_no_sign: "Itoa n = c # cs \<Longrightarrow> c \<noteq> CHR ''-'' \<and> c \<noteq> CHR ''+''"
  using Itoa_digits [of c n] by (auto simp: is_digit_def)

lemma Atoi_Itoa:
  assumes "int n \<le> maxInt64" shows "Atoi (Itoa n) = Some (int n)"
proof -
  obtain c cs where n: "Itoa n = c # cs" using Itoa_ne by (metis list.exhaust)
  have "numeral_in_range id (Itoa n) = Some (int n)"
    unfolding numeral_in_range_def digits_val_Itoa Let_def
    using assms Itoa_digits [of _ n] by (auto simp: minInt64_def list_all_iff)
  then show ?thesis using Itoa_no_sign [OF n] by (simp add: Atoi_def n)
qed

lemma Atoi_FormatInt: "minInt64 \<le> i \<Longrightarrow> i \<le> maxInt64 \<Longrightarrow> Atoi (FormatInt i) = Some i"
proof (cases "i < 0")
  case True
  moreover assume "minInt64 \<le> i" "i \<le> maxInt64"
  ultimately show ?thesis
    using Itoa_digits [of _ "nat (- i)"]
    by (auto simp: FormatInt_def Atoi_def numeral_in_range_def digits_val_Itoa list_all_iff)
next
  case False
  moreover assume "i \<le> maxInt64"
  ultimately show ?thesis using Atoi_Itoa [of "nat i"] by (simp add: FormatInt_def)
qed

lemma Atoi_range: "Atoi s = Some i \<Longrightarrow> minInt64 \<le> i \<and> i \<le> maxInt64"
  by (auto simp: Atoi_def numeral_in_range_def Let_def split: list.splits if_splits)

subsection \<open>Limits (tools\_flows.go)\<close>

definition defaultToolMaxRows :: int where "defaultToolMaxRows = 100"
definition defaultToolMaxResultBytes :: int where "defaultToolMaxResultBytes = 1048576"

definition configuredMaxRows :: "Deps \<Rightarrow> int" where
  "configuredMaxRows deps =
     (case d_Config deps of
        Some c \<Rightarrow> if vc_MaxRows (c_Velociraptor c) > 0 then vc_MaxRows (c_Velociraptor c) else defaultToolMaxRows
      | None \<Rightarrow> defaultToolMaxRows)"

definition configuredMaxResultBytes :: "Deps \<Rightarrow> int" where
  "configuredMaxResultBytes deps =
     (case d_Config deps of
        Some c \<Rightarrow> if vc_MaxResultBytes (c_Velociraptor c) > 0 then vc_MaxResultBytes (c_Velociraptor c) else defaultToolMaxResultBytes
      | None \<Rightarrow> defaultToolMaxResultBytes)"

definition boundToolLimit :: "int \<Rightarrow> int \<Rightarrow> int" where
  "boundToolLimit requested ceiling0 =
     (let ceiling = (if ceiling0 \<le> 0 then defaultToolMaxRows else ceiling0) in
      if requested \<le> 0 \<or> requested > ceiling then ceiling else requested)"

text \<open>The size of a row is that of its JSON encoding, or of its printed form where encoding fails.\<close>

definition row_bytes :: "env \<Rightarrow> row \<Rightarrow> int" where
  "row_bytes env r = int (length (case e_marshal env r of Inl err \<Rightarrow> e_sprint env r | Inr b \<Rightarrow> b))"

fun bound_rows_loop ::
  "env \<Rightarrow> int \<Rightarrow> int \<Rightarrow> row list \<Rightarrow> row list \<Rightarrow> int \<Rightarrow> bool \<Rightarrow> row list \<times> int \<times> bool" where
  "bound_rows_loop env limit maxBytes [] out used truncated = (out, used, truncated)"
| "bound_rows_loop env limit maxBytes (r # rs) out used truncated =
     (if int (length out) \<ge> limit then (out, used, True)
      else let used' = wrap64 (used + row_bytes env r) in
           if used' > maxBytes then (out, used, True)
           else bound_rows_loop env limit maxBytes rs (out @ [r]) used' truncated)"

definition boundRowsByLimitAndBytes :: "env \<Rightarrow> row list \<Rightarrow> int \<Rightarrow> int \<Rightarrow> row list \<times> int \<times> bool" where
  "boundRowsByLimitAndBytes env rows limit0 maxBytes0 =
     (let limit = (if limit0 \<le> 0 then defaultToolMaxRows else limit0);
          maxBytes = (if maxBytes0 \<le> 0 then defaultToolMaxResultBytes else maxBytes0) in
      bound_rows_loop env limit maxBytes rows [] 0 (int (length rows) > limit))"

subsection \<open>Cursors (tools\_flows.go, table.go)\<close>

abbreviation offsetPrefix :: string where "offsetPrefix \<equiv> ''offset:''"

definition TrimPrefix :: "string \<Rightarrow> string \<Rightarrow> string" where
  "TrimPrefix s p = (if HasPrefix s p then drop (length p) s else s)"

definition nextOffsetCursor :: "string \<Rightarrow> int \<Rightarrow> bool \<Rightarrow> string" where
  "nextOffsetCursor cursor returned truncated =
     (if \<not> truncated \<or> returned = 0 then []
      else
        let offset =
          (if HasPrefix cursor offsetPrefix
           then (case Atoi (TrimPrefix cursor offsetPrefix) of
                   Some parsed \<Rightarrow> if parsed > 0 then parsed else 0 | None \<Rightarrow> 0)
           else 0)
        in offsetPrefix @ FormatInt (wrap64 (offset + returned)))"

definition parseOffsetCursor :: "string \<Rightarrow> int" where
  "parseOffsetCursor cursor =
     (if \<not> HasPrefix cursor offsetPrefix then 0
      else case Atoi (TrimPrefix cursor offsetPrefix) of
             None \<Rightarrow> 0
           | Some n \<Rightarrow> if n < 0 then 0 else n)"

definition offsetCursor :: "int \<Rightarrow> string" where
  "offsetCursor offset = offsetPrefix @ FormatInt offset"

subsection \<open>Lemmas\<close>

lemma boundToolLimit_bounds: "0 < boundToolLimit n (configuredMaxRows deps) \<and> boundToolLimit n (configuredMaxRows deps) \<le> configuredMaxRows deps"
  by (auto simp: boundToolLimit_def configuredMaxRows_def defaultToolMaxRows_def Let_def split: option.splits)

lemma configuredMaxResultBytes_pos: "0 < configuredMaxResultBytes deps"
  by (auto simp: configuredMaxResultBytes_def defaultToolMaxResultBytes_def split: option.splits)

lemma parse_print_cursor: "0 \<le> n \<Longrightarrow> n \<le> maxInt64 \<Longrightarrow> parseOffsetCursor (offsetCursor n) = n"
  using Atoi_FormatInt [of n]
  by (simp add: offsetCursor_def parseOffsetCursor_def HasPrefix_def TrimPrefix_def minInt64_def)

lemma parseOffsetCursor_range: "0 \<le> parseOffsetCursor c \<and> parseOffsetCursor c \<le> maxInt64"
  by (auto simp: parseOffsetCursor_def maxInt64_def split: option.splits dest!: Atoi_range)

lemma nextOffsetCursor_eq:
  "nextOffsetCursor cursor n t =
     (if \<not> t \<or> n = 0 then [] else offsetCursor (wrap64 (parseOffsetCursor cursor + n)))"
  by (auto simp: nextOffsetCursor_def offsetCursor_def parseOffsetCursor_def Let_def split: option.splits)

text \<open>
  The number of rows the two bounds leave, by itself: walk the rows while both hold. \<open>have\<close> rows
  and \<open>used\<close> bytes are already taken.
\<close>

fun rows_fitting :: "(row \<Rightarrow> int) \<Rightarrow> int \<Rightarrow> int \<Rightarrow> row list \<Rightarrow> nat" where
  "rows_fitting sz limit budget [] = 0"
| "rows_fitting sz limit budget (r # rs) =
     (if limit \<le> 0 \<or> sz r > budget then 0 else Suc (rows_fitting sz (limit - 1) (budget - sz r) rs))"

lemma rows_fitting_le: "rows_fitting sz limit budget rows \<le> length rows"
  by (induction sz limit budget rows rule: rows_fitting.induct) auto

lemma rows_fitting_limit: "0 \<le> limit \<Longrightarrow> int (rows_fitting sz limit budget rows) \<le> limit"
  by (induction sz limit budget rows rule: rows_fitting.induct) auto

lemma rows_fitting_budget:
  "0 \<le> budget \<Longrightarrow> sum_list (map sz (take (rows_fitting sz limit budget rows) rows)) \<le> budget"
  by (induction sz limit budget rows rule: rows_fitting.induct) auto

lemma rows_fitting_longest:
  assumes "\<And>r. 0 \<le> sz r" "k \<le> length rows" "int k \<le> limit" "sum_list (map sz (take k rows)) \<le> budget"
  shows "k \<le> rows_fitting sz limit budget rows"
  using assms
proof (induction sz limit budget rows arbitrary: k rule: rows_fitting.induct)
  case (2 sz limit budget r rs)
  show ?case
  proof (cases k)
    case (Suc j)
    have nonneg: "0 \<le> sum_list (map sz (take j rs))" using 2(2) by (intro sum_list_nonneg) auto
    have fits: "\<not> (limit \<le> 0 \<or> sz r > budget)" using 2(4,5) Suc nonneg by auto
    have "j \<le> rows_fitting sz (limit - 1) (budget - sz r) rs"
      using 2(3-5) Suc by (intro 2(1) [OF fits 2(2)]) auto
    then show ?thesis using fits Suc by simp
  qed simp
qed simp

lemma bound_rows_loop_eq:
  assumes "list_all (\<lambda>r. 0 \<le> row_bytes env r \<and> row_bytes env r \<le> maxInt64 - maxBytes) rows"
    and "0 \<le> used" "used \<le> maxBytes" "maxBytes \<le> maxInt64"
  shows "bound_rows_loop env limit maxBytes rows out used tr =
    (let k = rows_fitting (row_bytes env) (limit - int (length out)) (maxBytes - used) rows in
     (out @ take k rows, used + sum_list (map (row_bytes env) (take k rows)), tr \<or> k < length rows))"
  using assms
proof (induction env limit maxBytes rows out used tr rule: bound_rows_loop.induct)
  case (2 env limit maxBytes r rs out used tr)
  have w: "wrap64 (used + row_bytes env r) = used + row_bytes env r"
    using 2(2-5) by (intro wrap64_id) (auto simp: minInt64_def)
  show ?case
  proof (cases "int (length out) \<ge> limit \<or> used + row_bytes env r > maxBytes")
    case True
    then show ?thesis by (auto simp: w Let_def)
  next
    case False
    then have "bound_rows_loop env limit maxBytes rs (out @ [r]) (used + row_bytes env r) tr =
      (let k = rows_fitting (row_bytes env) (limit - int (length (out @ [r]))) (maxBytes - (used + row_bytes env r)) rs in
       ((out @ [r]) @ take k rs, used + row_bytes env r + sum_list (map (row_bytes env) (take k rs)), tr \<or> k < length rs))"
      using 2(1) [of "used + row_bytes env r"] 2(2-5) w by auto
    then show ?thesis using False w by (simp add: Let_def algebra_simps)
  qed
qed (simp add: Let_def)

lemma row_bytes_nonneg: "0 \<le> row_bytes env r"
  by (simp add: row_bytes_def)

lemma bound_rows_eq:
  assumes "0 < limit" "0 < maxBytes" "maxBytes \<le> maxInt64"
    and sizes: "\<forall>r \<in> set rows. row_bytes env r \<le> maxInt64 - maxBytes"
  defines "k \<equiv> rows_fitting (row_bytes env) limit maxBytes rows"
  shows "boundRowsByLimitAndBytes env rows limit maxBytes
      = (take k rows, sum_list (map (row_bytes env) (take k rows)), k < length rows)"
    and "k \<le> length rows" and "int k \<le> limit"
    and "sum_list (map (row_bytes env) (take k rows)) \<le> maxBytes"
proof -
  show le: "k \<le> length rows" and lim: "int k \<le> limit"
    and "sum_list (map (row_bytes env) (take k rows)) \<le> maxBytes"
    using assms(1,2) rows_fitting_le rows_fitting_limit rows_fitting_budget unfolding k_def by auto
  have "list_all (\<lambda>r. 0 \<le> row_bytes env r \<and> row_bytes env r \<le> maxInt64 - maxBytes) rows"
    using sizes row_bytes_nonneg by (auto simp: list_all_iff)
  from bound_rows_loop_eq [OF this _ _ assms(3), of 0 limit "[]" "int (length rows) > limit"]
  have "boundRowsByLimitAndBytes env rows limit maxBytes
      = (take k rows, sum_list (map (row_bytes env) (take k rows)), int (length rows) > limit \<or> k < length rows)"
    using assms(1,2) by (simp add: boundRowsByLimitAndBytes_def Let_def k_def)
  then show "boundRowsByLimitAndBytes env rows limit maxBytes
      = (take k rows, sum_list (map (row_bytes env) (take k rows)), k < length rows)" using lim by auto
qed

lemma bound_rows_page:
  assumes "0 < limit" "0 < maxBytes" "maxBytes \<le> maxInt64" and sizes: "\<forall>r \<in> set rows. row_bytes env r \<le> maxInt64 - maxBytes"
    and "boundRowsByLimitAndBytes env rows limit maxBytes = (out, bytes, tr)"
  shows "int (length out) \<le> limit" "bytes = sum_list (map (row_bytes env) out)" "bytes \<le> maxBytes"
    "\<exists>rest. rows = out @ rest \<and> (tr \<longleftrightarrow> rest \<noteq> [])"
proof -
  define k where "k = rows_fitting (row_bytes env) limit maxBytes rows"
  note facts = bound_rows_eq [OF assms(1-3) sizes, folded k_def]
  have out: "out = take k rows" "bytes = sum_list (map (row_bytes env) (take k rows))" "tr \<longleftrightarrow> k < length rows"
    using facts(1) assms(5) by auto
  show "int (length out) \<le> limit" "bytes = sum_list (map (row_bytes env) out)" "bytes \<le> maxBytes"
    using out facts(3,4) by auto
  show "\<exists>rest. rows = out @ rest \<and> (tr \<longleftrightarrow> rest \<noteq> [])"
    by (rule exI [of _ "drop k rows"]) (simp add: out not_le)
qed

text \<open>
  The bounded page of rows is exactly the longest prefix of the rows
  that respects both the row limit and the byte limit, the byte count is the size of that prefix,
  and the page is marked as truncated exactly when a row was left out. The row sizes and the byte
  limit are assumed to leave the 64-bit sum in range, as they do for encodings that fit in memory.
\<close>

theorem bound_rows_longest_prefix:
  assumes "0 < limit" "0 < maxBytes" "maxBytes \<le> maxInt64"
    and sizes: "\<forall>r \<in> set rows. row_bytes env r \<le> maxInt64 - maxBytes"
  shows "\<exists>k. boundRowsByLimitAndBytes env rows limit maxBytes
      = (take k rows, sum_list (map (row_bytes env) (take k rows)), k < length rows)
    \<and> k \<le> length rows \<and> int k \<le> limit \<and> sum_list (map (row_bytes env) (take k rows)) \<le> maxBytes
    \<and> (\<forall>j. j \<le> length rows \<longrightarrow> int j \<le> limit \<longrightarrow> sum_list (map (row_bytes env) (take j rows)) \<le> maxBytes \<longrightarrow> j \<le> k)"
  using bound_rows_eq [OF assms] rows_fitting_longest [where sz = "row_bytes env", OF row_bytes_nonneg] by blast

theorem bound_rows_longest_prefix_witness:
  "\<exists>env rows k. boundRowsByLimitAndBytes env rows 2 10 = (take k rows, sum_list (map (row_bytes env) (take k rows)), k < length rows)
     \<and> k = 1 \<and> length rows = 2"
proof -
  obtain env :: env where m: "e_marshal env = (\<lambda>r. Inr (concat (map fst r)))"
    by (meson env.select_convs(9))
  let ?rows = "[[(''abcdef'', VNil)], [(''ghijkl'', VNil)]] :: row list"
  have sizes: "row_bytes env [(''abcdef'', VNil)] = 6" "row_bytes env [(''ghijkl'', VNil)] = 6" by (simp_all add: row_bytes_def m)
  obtain k where k: "boundRowsByLimitAndBytes env ?rows 2 10 = (take k ?rows, sum_list (map (row_bytes env) (take k ?rows)), k < length ?rows)"
    "sum_list (map (row_bytes env) (take k ?rows)) \<le> 10" "k \<le> length ?rows"
    "\<forall>j. j \<le> length ?rows \<longrightarrow> int j \<le> 2 \<longrightarrow> sum_list (map (row_bytes env) (take j ?rows)) \<le> 10 \<longrightarrow> j \<le> k"
    using bound_rows_longest_prefix [of 2 10 ?rows env] by (auto simp: sizes maxInt64_def)
  have "1 \<le> k" using k(4) [rule_format, of 1] by (simp add: sizes)
  moreover have "k \<noteq> 2" using k(2) sizes by (auto simp: numeral_2_eq_2)
  ultimately have "k = 1" using k(3) by simp
  with k(1) show ?thesis by (intro exI [of _ env] exI [of _ ?rows] exI [of _ k]) simp
qed

text \<open>
  The cursor a handler prints after a truncated page is read back by the
  client as the old offset plus the rows returned, and a cursor the client prints as the offset
  itself, as long as the offset stays within 64 bits; a page that is complete or empty has none.
\<close>

theorem cursor_roundtrip:
  assumes "0 < returned" "parseOffsetCursor cursor + returned \<le> maxInt64" "0 \<le> offset" "offset \<le> maxInt64"
  shows "parseOffsetCursor (nextOffsetCursor cursor returned True) = parseOffsetCursor cursor + returned
    \<and> parseOffsetCursor (offsetCursor offset) = offset
    \<and> nextOffsetCursor cursor returned False = [] \<and> nextOffsetCursor cursor 0 True = []"
proof -
  have "wrap64 (parseOffsetCursor cursor + returned) = parseOffsetCursor cursor + returned"
    using assms parseOffsetCursor_range [of cursor] by (intro wrap64_id) (auto simp: minInt64_def)
  then show ?thesis
    using assms parseOffsetCursor_range [of cursor]
    by (simp add: nextOffsetCursor_eq parse_print_cursor)
qed

theorem cursor_roundtrip_witness:
  "parseOffsetCursor (nextOffsetCursor ''offset:40'' 7 True) = 47"
proof -
  have "parseOffsetCursor ''offset:40'' = 40" by code_simp
  then show ?thesis using cursor_roundtrip [of 7 "''offset:40''" 0] by (simp add: maxInt64_def)
qed

end
