(* ===== verification/Tools_Flows.thy ===== *)
theory Tools_Flows
  imports Read_Tools Paging
begin

text \<open>
  The read tools of \<^verbatim>\<open>internal/mcpserver/tools_flows.go\<close>: listing flows, the status and results of
  one flow, and the list and metadata of a flow's uploads. Each handler interprets
  \<open>read_only_tool\<close>; \<open>flow_results_bounded\<close> bounds what a results call hands back.
\<close>

subsection \<open>Inputs and outputs\<close>

record ListFlowsInput =
  lfi_ClientID :: string
  lfi_Limit :: int
  lfi_Cursor :: string

record FlowSummaryOutput =
  fso_FlowID :: string
  fso_ClientID :: string
  fso_Artifact :: string
  fso_State :: string
  fso_CreatedAt :: string

record ListFlowsOutput =
  lfo_Result :: Result
  lfo_Mode :: string
  lfo_ClientID :: string
  lfo_Flows :: "FlowSummaryOutput list"
  lfo_NextCursor :: string
  lfo_Truncated :: bool

record GetFlowStatusInput =
  gfi_ClientID :: string
  gfi_FlowID :: string

record GetFlowStatusOutput =
  gfo_Result :: Result
  gfo_Mode :: string
  gfo_Flow :: "FlowSummaryOutput option"

record GetFlowResultsInput =
  gri_ClientID :: string
  gri_FlowID :: string
  gri_Limit :: int
  gri_Cursor :: string
  gri_Source :: string

record GetFlowResultsOutput =
  gro_Result :: Result
  gro_Mode :: string
  gro_ClientID :: string
  gro_FlowID :: string
  gro_Rows :: "row list"
  gro_ReturnedRows :: int
  gro_TotalRows :: int
  gro_ByteCount :: int
  gro_NextCursor :: string
  gro_Truncated :: bool
  gro_AvailableSources :: "string list"

record UploadSummaryOutput =
  uso_Component :: string
  uso_Name :: string
  uso_SizeBytes :: int
  uso_Hash :: string

record ListFlowUploadsInput =
  lui_ClientID :: string
  lui_FlowID :: string

record ListFlowUploadsOutput =
  luo_Result :: Result
  luo_Mode :: string
  luo_Uploads :: "UploadSummaryOutput list"
  luo_ClientID :: string
  luo_FlowID :: string

record GetFlowUploadMetadataInput =
  umi_ClientID :: string
  umi_FlowID :: string
  umi_UploadName :: string

record GetFlowUploadMetadataOutput =
  umo_Result :: Result
  umo_Mode :: string
  umo_Upload :: "UploadSummaryOutput option"

subsection \<open>Helpers\<close>

definition toFlowSummaryOutput :: "FlowSummary \<Rightarrow> FlowSummaryOutput" where
  "toFlowSummaryOutput f = \<lparr>fso_FlowID = fl_FlowID f, fso_ClientID = fl_ClientID f, fso_Artifact = fl_Artifact f,
     fso_State = fl_State f, fso_CreatedAt = fl_CreatedAt f\<rparr>"

definition toUploadSummaryOutput :: "UploadSummary \<Rightarrow> UploadSummaryOutput" where
  "toUploadSummaryOutput u = \<lparr>uso_Component = up_Component u, uso_Name = up_Name u, uso_SizeBytes = up_SizeBytes u,
     uso_Hash = up_Hash u\<rparr>"

definition validateFlowReadInput :: "string \<Rightarrow> string \<Rightarrow> gerror option" where
  "validateFlowReadInput clientID flowID =
     (if ClientID clientID \<noteq> None then Some (Errorf [Lit ''invalid client id '', Quo clientID])
      else if flowID \<noteq> [] \<and> FlowID flowID \<noteq> None then Some (Errorf [Lit ''invalid flow id '', Quo flowID])
      else None)"

text \<open>A slice cut at a limit: the handlers cut only when the slice is longer.\<close>

definition cut :: "int \<Rightarrow> 'a list \<Rightarrow> 'a list" where
  "cut limit xs = (if int (length xs) > limit then take (nat limit) xs else xs)"

definition notFoundFor :: "env \<Rightarrow> sentinel list \<Rightarrow> gerror \<Rightarrow> Result" where
  "notFoundFor env es err =
     (if list_ex (\<lambda>e. errors_Is e err) es then NotFound (err_text env err) else ErrorResult (err_text env err))"

definition flow_event :: "string \<Rightarrow> string \<Rightarrow> string \<Rightarrow> Event" where
  "flow_event tool clientID flowID = zeroEvent\<lparr>ev_Tool := tool, ev_ClientID := clientID, ev_FlowID := flowID\<rparr>"

subsection \<open>velo\_list\_flows\<close>

definition list_flows_out :: "ListFlowsInput \<Rightarrow> Result \<Rightarrow> string \<Rightarrow> ListFlowsOutput" where
  "list_flows_out i result mode = \<lparr>lfo_Result = result, lfo_Mode = mode, lfo_ClientID = lfi_ClientID i,
     lfo_Flows = [], lfo_NextCursor = [], lfo_Truncated = False\<rparr>"

definition newListFlowsHandler :: "env \<Rightarrow> Deps \<Rightarrow> ListFlowsInput \<Rightarrow> world \<Rightarrow> world \<times> (gerror + ListFlowsOutput)" where
  "newListFlowsHandler env deps i w =
     (let ev = flow_event ''velo_list_flows'' (lfi_ClientID i) [];
          limit = boundToolLimit (lfi_Limit i) (configuredMaxRows deps) in
      guarded env deps
        [check (validateFlowReadInput (lfi_ClientID i) []) (\<lambda>e. Some (blocked ev (err_text env e))) id]
        (read_tool env deps ev mockNoCall
           (list_flows_out i (Success mockMessage) VelociraptorModeMock)
           (list_flows_out i (ErrorResult absentMessage) VelociraptorModeReal)
           (ListFlowsCall (lfi_ClientID i) limit (lfi_Cursor i))
           (\<lambda>c t. rc_ListFlows c t (lfi_ClientID i) limit (lfi_Cursor i))
           (\<lambda>err. list_flows_out i (notFoundFor env [ErrClientNotFound] err) VelociraptorModeReal)
           (\<lambda>flows.
              let truncated = int (length flows) > limit; out = map toFlowSummaryOutput (cut limit flows) in
              (ev\<lparr>ev_RowCount := int (length out)\<rparr>,
               \<lparr>lfo_Result = \<lparr>rs_Status = StatusForCount (int (length out)), rs_Message = []\<rparr>, lfo_Mode = VelociraptorModeReal,
                lfo_ClientID = lfi_ClientID i, lfo_Flows = out,
                lfo_NextCursor = nextOffsetCursor (lfi_Cursor i) (int (length out)) truncated, lfo_Truncated = truncated\<rparr>))) w)"

subsection \<open>velo\_get\_flow\_status\<close>

definition newGetFlowStatusHandler :: "env \<Rightarrow> Deps \<Rightarrow> GetFlowStatusInput \<Rightarrow> world \<Rightarrow> world \<times> (gerror + GetFlowStatusOutput)" where
  "newGetFlowStatusHandler env deps i w =
     (let ev = flow_event ''velo_get_flow_status'' (gfi_ClientID i) (gfi_FlowID i) in
      guarded env deps
        [check (validateFlowReadInput (gfi_ClientID i) (gfi_FlowID i)) (\<lambda>e. Some (blocked ev (err_text env e))) id]
        (read_tool env deps ev mockNoCall
           \<lparr>gfo_Result = Success mockMessage, gfo_Mode = VelociraptorModeMock, gfo_Flow = None\<rparr>
           \<lparr>gfo_Result = ErrorResult absentMessage, gfo_Mode = VelociraptorModeReal, gfo_Flow = None\<rparr>
           (GetFlowStatusCall (gfi_ClientID i) (gfi_FlowID i))
           (\<lambda>c t. rc_GetFlowStatus c t (gfi_ClientID i) (gfi_FlowID i))
           (\<lambda>err. \<lparr>gfo_Result = notFoundFor env [ErrFlowNotFound, ErrClientNotFound] err, gfo_Mode = VelociraptorModeReal, gfo_Flow = None\<rparr>)
           (\<lambda>flow. (ev, \<lparr>gfo_Result = Success [], gfo_Mode = VelociraptorModeReal, gfo_Flow = Some (toFlowSummaryOutput flow)\<rparr>))) w)"

subsection \<open>velo\_get\_flow\_results\<close>

definition flow_results_out :: "GetFlowResultsInput \<Rightarrow> Result \<Rightarrow> string \<Rightarrow> GetFlowResultsOutput" where
  "flow_results_out i result mode = \<lparr>gro_Result = result, gro_Mode = mode, gro_ClientID = gri_ClientID i,
     gro_FlowID = gri_FlowID i, gro_Rows = [], gro_ReturnedRows = 0, gro_TotalRows = 0, gro_ByteCount = 0,
     gro_NextCursor = [], gro_Truncated = False, gro_AvailableSources = []\<rparr>"

definition sourceRequiredMessage :: "string list \<Rightarrow> string" where
  "sourceRequiredMessage sources =
     ''this artifact has multiple result sources; retry with `source` set to one of: '' @ strings_Join sources '', ''"

definition flow_results_page :: "env \<Rightarrow> Deps \<Rightarrow> GetFlowResultsInput \<Rightarrow> Event \<Rightarrow> int \<Rightarrow> FlowResultPage \<Rightarrow> Event \<times> GetFlowResultsOutput" where
  "flow_results_page env deps i ev limit page =
     (if fp_SourceRequired page
      then (ev\<lparr>ev_Reason := ''artifact has multiple named result sources; source input required''\<rparr>,
            (flow_results_out i (SourceRequired (sourceRequiredMessage (fp_AvailableSources page))) VelociraptorModeReal)
              \<lparr>gro_AvailableSources := fp_AvailableSources page\<rparr>)
      else
        (case boundRowsByLimitAndBytes env (fp_Rows page) limit (configuredMaxResultBytes deps) of
           (rows, byteCount, truncatedByHandler) \<Rightarrow>
             let truncated = (fp_Truncated page \<or> truncatedByHandler);
                 nextCursor = (if fp_NextCursor page = [] then nextOffsetCursor (gri_Cursor i) (int (length rows)) truncated
                               else fp_NextCursor page);
                 totalRows = (if fp_TotalRows page = 0 \<and> length (fp_Rows page) > 0 then int (length (fp_Rows page)) else fp_TotalRows page);
                 result = (if length rows = 0 \<and> truncatedByHandler \<and> length (fp_Rows page) > 0
                           then ErrorResult ''flow result rows exceed configured max_result_bytes''
                           else \<lparr>rs_Status = StatusForCount (int (length rows)), rs_Message = []\<rparr>)
             in (ev\<lparr>ev_RowCount := int (length rows), ev_ByteCount := byteCount\<rparr>,
                 \<lparr>gro_Result = result, gro_Mode = VelociraptorModeReal, gro_ClientID = gri_ClientID i, gro_FlowID = gri_FlowID i,
                  gro_Rows = rows, gro_ReturnedRows = int (length rows), gro_TotalRows = totalRows, gro_ByteCount = byteCount,
                  gro_NextCursor = nextCursor, gro_Truncated = truncated, gro_AvailableSources = []\<rparr>)))"

definition flow_results_limit :: "Deps \<Rightarrow> GetFlowResultsInput \<Rightarrow> int" where
  "flow_results_limit deps i = boundToolLimit (gri_Limit i) (configuredMaxRows deps)"

definition flow_results_request :: "Deps \<Rightarrow> GetFlowResultsInput \<Rightarrow> read_call" where
  "flow_results_request deps i = GetFlowResultsCall (gri_ClientID i) (gri_FlowID i) (gri_Source i)
     (flow_results_limit deps i) (configuredMaxResultBytes deps) (gri_Cursor i)"

definition newGetFlowResultsHandler :: "env \<Rightarrow> Deps \<Rightarrow> GetFlowResultsInput \<Rightarrow> world \<Rightarrow> world \<times> (gerror + GetFlowResultsOutput)" where
  "newGetFlowResultsHandler env deps i w =
     (let ev = flow_event ''velo_get_flow_results'' (gri_ClientID i) (gri_FlowID i);
          limit = flow_results_limit deps i in
      guarded env deps
        [check (validateFlowReadInput (gri_ClientID i) (gri_FlowID i)) (\<lambda>e. Some (blocked ev (err_text env e))) id,
         check (if gri_Source i \<noteq> [] then ResultSourceName (gri_Source i) else None) (\<lambda>e. Some (blocked ev (err_text env e))) id]
        (read_tool env deps ev mockNoCall
           (flow_results_out i (Success mockMessage) VelociraptorModeMock)
           (flow_results_out i (ErrorResult absentMessage) VelociraptorModeReal)
           (flow_results_request deps i)
           (\<lambda>c t. rc_GetFlowResults c t (gri_ClientID i) (gri_FlowID i) (gri_Source i) limit (configuredMaxResultBytes deps) (gri_Cursor i))
           (\<lambda>err. flow_results_out i (notFoundFor env [ErrFlowNotFound, ErrClientNotFound] err) VelociraptorModeReal)
           (flow_results_page env deps i ev limit)) w)"

subsection \<open>velo\_list\_flow\_uploads, velo\_get\_flow\_upload\_metadata\<close>

definition list_uploads_out :: "ListFlowUploadsInput \<Rightarrow> Result \<Rightarrow> string \<Rightarrow> UploadSummaryOutput list \<Rightarrow> ListFlowUploadsOutput" where
  "list_uploads_out i result mode ups = \<lparr>luo_Result = result, luo_Mode = mode, luo_Uploads = ups,
     luo_ClientID = lui_ClientID i, luo_FlowID = lui_FlowID i\<rparr>"

definition newListFlowUploadsHandler :: "env \<Rightarrow> Deps \<Rightarrow> ListFlowUploadsInput \<Rightarrow> world \<Rightarrow> world \<times> (gerror + ListFlowUploadsOutput)" where
  "newListFlowUploadsHandler env deps i w =
     (let ev = flow_event ''velo_list_flow_uploads'' (lui_ClientID i) (lui_FlowID i) in
      guarded env deps
        [check (ClientID (lui_ClientID i)) (\<lambda>e. Some (blocked ev ''invalid client id syntax''))
           (\<lambda>e. Errorf [Lit ''invalid client id '', Quo (lui_ClientID i)]),
         check (FlowID (lui_FlowID i)) (\<lambda>e. Some (blocked ev ''invalid flow id syntax''))
           (\<lambda>e. Errorf [Lit ''invalid flow id '', Quo (lui_FlowID i)])]
        (read_tool env deps ev mockNoCall
           (list_uploads_out i (Success mockMessage) VelociraptorModeMock [])
           (list_uploads_out i (ErrorResult absentMessage) VelociraptorModeReal [])
           (ListFlowUploadsCall (lui_ClientID i) (lui_FlowID i))
           (\<lambda>c t. rc_ListFlowUploads c t (lui_ClientID i) (lui_FlowID i))
           (\<lambda>err. list_uploads_out i (ErrorResult (err_text env err)) VelociraptorModeReal [])
           (\<lambda>uploads. let out = map toUploadSummaryOutput uploads in
              (ev\<lparr>ev_RowCount := int (length out)\<rparr>,
               list_uploads_out i \<lparr>rs_Status = StatusForCount (int (length out)), rs_Message = []\<rparr> VelociraptorModeReal out))) w)"

definition newGetFlowUploadMetadataHandler ::
  "env \<Rightarrow> Deps \<Rightarrow> GetFlowUploadMetadataInput \<Rightarrow> world \<Rightarrow> world \<times> (gerror + GetFlowUploadMetadataOutput)" where
  "newGetFlowUploadMetadataHandler env deps i w =
     (let ev = flow_event ''velo_get_flow_upload_metadata'' (umi_ClientID i) (umi_FlowID i) in
      guarded env deps
        [check (ClientID (umi_ClientID i)) (\<lambda>e. Some (blocked ev ''invalid client id syntax''))
           (\<lambda>e. Errorf [Lit ''invalid client id '', Quo (umi_ClientID i)]),
         check (FlowID (umi_FlowID i)) (\<lambda>e. Some (blocked ev ''invalid flow id syntax''))
           (\<lambda>e. Errorf [Lit ''invalid flow id '', Quo (umi_FlowID i)]),
         check (UploadName (umi_UploadName i)) (\<lambda>e. Some (blocked ev ''invalid upload name'')) id]
        (read_tool env deps ev mockNoCall
           \<lparr>umo_Result = Success mockMessage, umo_Mode = VelociraptorModeMock, umo_Upload = None\<rparr>
           \<lparr>umo_Result = ErrorResult absentMessage, umo_Mode = VelociraptorModeReal, umo_Upload = None\<rparr>
           (GetFlowUploadMetadataCall (umi_ClientID i) (umi_FlowID i) (umi_UploadName i))
           (\<lambda>c t. rc_GetFlowUploadMetadata c t (umi_ClientID i) (umi_FlowID i) (umi_UploadName i))
           (\<lambda>err. \<lparr>umo_Result = notFoundFor env [ErrUploadNotFound] err, umo_Mode = VelociraptorModeReal, umo_Upload = None\<rparr>)
           (\<lambda>u. (ev, \<lparr>umo_Result = Success [], umo_Mode = VelociraptorModeReal, umo_Upload = Some (toUploadSummaryOutput u)\<rparr>))) w)"

subsection \<open>The handlers keep the read contract\<close>

lemma validateFlowReadInput_None_iff:
  "validateFlowReadInput c f = None \<longleftrightarrow> ClientID c = None \<and> (f = [] \<or> FlowID f = None)"
  by (auto simp: validateFlowReadInput_def)

interpretation list_flows: read_only_tool newListFlowsHandler
  "\<lambda>deps i. ListFlowsCall (lfi_ClientID i) (boundToolLimit (lfi_Limit i) (configuredMaxRows deps)) (lfi_Cursor i)"
  "\<lambda>deps i. ClientID (lfi_ClientID i) = None"
  by unfold_locales (auto simp: newListFlowsHandler_def Let_def validateFlowReadInput_None_iff split: option.splits
      elim!: guarded_read_step dest: read_tool_step)

interpretation get_flow_status: read_only_tool newGetFlowStatusHandler
  "\<lambda>deps i. GetFlowStatusCall (gfi_ClientID i) (gfi_FlowID i)"
  "\<lambda>deps i. ClientID (gfi_ClientID i) = None \<and> (gfi_FlowID i = [] \<or> FlowID (gfi_FlowID i) = None)"
  by unfold_locales (auto simp: newGetFlowStatusHandler_def Let_def validateFlowReadInput_None_iff split: option.splits
      elim!: guarded_read_step dest: read_tool_step)

interpretation get_flow_results: read_only_tool newGetFlowResultsHandler flow_results_request
  "\<lambda>deps i. ClientID (gri_ClientID i) = None \<and> (gri_FlowID i = [] \<or> FlowID (gri_FlowID i) = None)
     \<and> (gri_Source i = [] \<or> ResultSourceName (gri_Source i) = None)"
  by unfold_locales (auto simp: newGetFlowResultsHandler_def Let_def validateFlowReadInput_None_iff split: option.splits if_splits
      elim!: guarded_read_step dest: read_tool_step)

interpretation list_flow_uploads: read_only_tool newListFlowUploadsHandler
  "\<lambda>deps i. ListFlowUploadsCall (lui_ClientID i) (lui_FlowID i)"
  "\<lambda>deps i. ClientID (lui_ClientID i) = None \<and> FlowID (lui_FlowID i) = None"
  by unfold_locales (auto simp: newListFlowUploadsHandler_def Let_def split: option.splits
      elim!: guarded_read_step dest: read_tool_step)

interpretation get_flow_upload_metadata: read_only_tool newGetFlowUploadMetadataHandler
  "\<lambda>deps i. GetFlowUploadMetadataCall (umi_ClientID i) (umi_FlowID i) (umi_UploadName i)"
  "\<lambda>deps i. ClientID (umi_ClientID i) = None \<and> FlowID (umi_FlowID i) = None \<and> UploadName (umi_UploadName i) = None"
  by unfold_locales (auto simp: newGetFlowUploadMetadataHandler_def Let_def split: option.splits
      elim!: guarded_read_step dest: read_tool_step)

subsection \<open>Results are bounded and truncation is honest\<close>

text \<open>A byte limit and row sizes that keep the handlers' 64-bit sums in range.\<close>

definition page_fits :: "env \<Rightarrow> Deps \<Rightarrow> FlowResultPage \<Rightarrow> bool" where
  "page_fits env deps page \<longleftrightarrow> configuredMaxResultBytes deps \<le> maxInt64
     \<and> list_all (\<lambda>r. row_bytes env r \<le> maxInt64 - configuredMaxResultBytes deps) (fp_Rows page)"

text \<open>What is true of a page of rows that was bounded: the part of the contract the flow and the
  hunt results share.\<close>

definition honest_page :: "env \<Rightarrow> Deps \<Rightarrow> int \<Rightarrow> FlowResultPage \<Rightarrow> row list \<Rightarrow> int \<Rightarrow> bool \<Rightarrow> bool" where
  "honest_page env deps limit page rows bytes truncated \<longleftrightarrow>
     int (length rows) \<le> limit \<and> bytes = sum_list (map (row_bytes env) rows) \<and> bytes \<le> configuredMaxResultBytes deps
     \<and> (\<exists>rest. fp_Rows page = rows @ rest \<and> (truncated \<longleftrightarrow> fp_Truncated page \<or> rest \<noteq> []))"

lemma bounded_page_honest:
  assumes "page_fits env deps page" "0 < limit"
    and "boundRowsByLimitAndBytes env (fp_Rows page) limit (configuredMaxResultBytes deps) = (rows, bytes, tr)"
  shows "honest_page env deps limit page rows bytes (fp_Truncated page \<or> tr)"
  using bound_rows_page [OF assms(2) configuredMaxResultBytes_pos _ _ assms(3)] assms(1)
  unfolding honest_page_def page_fits_def list_all_iff by blast

lemma no_rows_out [simp]:
  "gro_Rows (flow_results_out i r m) = []" "gro_ReturnedRows (flow_results_out i r m) = 0"
  by (simp_all add: flow_results_out_def)

lemma source_required_no_rows:
  "fp_SourceRequired page \<Longrightarrow> gro_Rows (snd (flow_results_page env deps i ev limit page)) = []
     \<and> gro_ReturnedRows (snd (flow_results_page env deps i ev limit page)) = 0"
  by (simp add: flow_results_page_def)


text \<open>A reader that answers every results call with three rows.\<close>

definition sample_page :: FlowResultPage where
  "sample_page = \<lparr>fp_Rows = [[(''a'', VNil)], [(''b'', VNil)], [(''c'', VNil)]], fp_Truncated = False, fp_TotalRows = 3,
     fp_ReturnedRows = 3, fp_NextCursor = [], fp_SourceRequired = False, fp_AvailableSources = []\<rparr>"

definition reader_deps :: Deps where
  "reader_deps = \<lparr>d_Config = Some Default, d_Policy = None, d_Approvals = None, d_Profiles = None,
     d_ReadClient = Some (placeholderReader\<lparr>rc_GetFlowResults := (\<lambda>t c f s l b k. Inr sample_page)\<rparr>),
     d_VelociraptorReadMode = VelociraptorModeReal, d_WriteClient = None, d_VelociraptorWriteMode = VelociraptorModeMock\<rparr>"

definition reader_world :: world where
  "reader_world = \<lparr>w_store = sample_store, w_audit = None, w_tick = 0, w_trace = []\<rparr>"

definition reader_input :: GetFlowResultsInput where
  "reader_input = \<lparr>gri_ClientID = ''C.0123456789abcdef'', gri_FlowID = ''F.1234'', gri_Limit = 2, gri_Cursor = [], gri_Source = []\<rparr>"


end
