(* ===== verification/Tools_Hunts_Read.thy ===== *)
theory Tools_Hunts_Read
  imports Tools_Hunts Tools_Flows
begin

text \<open>
  The read tools of \<^verbatim>\<open>internal/mcpserver/tools_hunts.go\<close>: previewing a scope, listing hunts, and the
  status and results of one hunt. Each handler interprets \<open>read_only_tool\<close>.
\<close>

subsection \<open>Inputs and outputs\<close>

record HuntSummaryOutput =
  hso_HuntID :: string
  hso_Artifact :: string
  hso_State :: string
  hso_CreatedAt :: string
  hso_ClientCount :: int

definition toHuntSummaryOutput :: "HuntSummary \<Rightarrow> HuntSummaryOutput" where
  "toHuntSummaryOutput h = \<lparr>hso_HuntID = hu_HuntID h, hso_Artifact = hu_Artifact h, hso_State = hu_State h,
     hso_CreatedAt = hu_CreatedAt h, hso_ClientCount = hu_ClientCount h\<rparr>"

record HuntScopePreviewOutput =
  hpo_Result :: Result
  hpo_Mode :: string
  hpo_Matched :: int
  hpo_SampleClientIDs :: "string list"
  hpo_ExceedsMaxClients :: bool
  hpo_MaxClients :: int

record PreviewHuntScopeInput =
  phi_ClientIDs :: "string list"
  phi_Label :: string
  phi_All :: bool
  phi_MaxClients :: int

record ListHuntsInput =
  lhi_Limit :: int
  lhi_Cursor :: string

record ListHuntsOutput =
  lho_Result :: Result
  lho_Mode :: string
  lho_Hunts :: "HuntSummaryOutput list"
  lho_NextCursor :: string
  lho_Truncated :: bool

record GetHuntStatusInput = ghi_HuntID :: string

record GetHuntStatusOutput =
  gho_Result :: Result
  gho_Mode :: string
  gho_Hunt :: "HuntSummaryOutput option"

record GetHuntResultsInput =
  hri_HuntID :: string
  hri_Limit :: int
  hri_Cursor :: string
  hri_Source :: string

record GetHuntResultsOutput =
  hro_Result :: Result
  hro_Mode :: string
  hro_HuntID :: string
  hro_Rows :: "row list"
  hro_ReturnedRows :: int
  hro_TotalRows :: int
  hro_ByteCount :: int
  hro_NextCursor :: string
  hro_Truncated :: bool
  hro_AvailableSources :: "string list"

definition mockShort :: string where
  "mockShort = ''MCP server is running in mock mode; no Velociraptor call was made''"

definition hunt_event :: "string \<Rightarrow> string \<Rightarrow> Event" where
  "hunt_event tool huntID = zeroEvent\<lparr>ev_Tool := tool, ev_HuntID := huntID\<rparr>"

subsection \<open>velo\_preview\_hunt\_scope\<close>

definition preview_scope :: "PreviewHuntScopeInput \<Rightarrow> HuntScopeRequest" where
  "preview_scope i = \<lparr>sr_ClientIDs = phi_ClientIDs i, sr_Label = phi_Label i, sr_All = phi_All i\<rparr>"

definition preview_fail :: "Result \<Rightarrow> HuntScopePreviewOutput" where
  "preview_fail result = \<lparr>hpo_Result = result, hpo_Mode = VelociraptorModeReal, hpo_Matched = 0,
     hpo_SampleClientIDs = [], hpo_ExceedsMaxClients = False, hpo_MaxClients = 0\<rparr>"

definition newPreviewHuntScopeHandler :: "env \<Rightarrow> Deps \<Rightarrow> PreviewHuntScopeInput \<Rightarrow> world \<Rightarrow> world \<times> (gerror + HuntScopePreviewOutput)" where
  "newPreviewHuntScopeHandler env deps i w =
     (let ev = hunt_event ''velo_preview_hunt_scope'' []; maxClients = huntMaxClients deps (phi_MaxClients i) in
      guarded env deps
        [check (validateHuntScopeInput (phi_ClientIDs i) (phi_Label i) (phi_All i)) (\<lambda>e. Some (blocked ev (err_text env e))) id,
         refuse_if (phi_All i \<and> \<not> policy_allows deps TargetAllAllowed) (blocked ev ''target_all is disabled by policy'')
           (errorf ''target_all is disabled by policy'')]
        (read_tool env deps ev ''mock mode, returning preview based on input only''
           \<lparr>hpo_Result = Success ''MCP server is running in mock mode; preview returns input-based estimate only'',
            hpo_Mode = VelociraptorModeMock, hpo_Matched = 0, hpo_SampleClientIDs = phi_ClientIDs i,
            hpo_ExceedsMaxClients = (int (length (phi_ClientIDs i)) > maxClients), hpo_MaxClients = maxClients\<rparr>
           (preview_fail (ErrorResult absentMessage))
           (PreviewHuntScopeCall (preview_scope i))
           (\<lambda>c t. rc_PreviewHuntScope c t (preview_scope i))
           (\<lambda>err. preview_fail (ErrorResult (err_text env err)))
           (\<lambda>p. (ev\<lparr>ev_RowCount := sp_MatchedClientCount p\<rparr>,
              \<lparr>hpo_Result = \<lparr>rs_Status = StatusForCount (sp_MatchedClientCount p), rs_Message = []\<rparr>,
               hpo_Mode = VelociraptorModeReal, hpo_Matched = sp_MatchedClientCount p,
               hpo_SampleClientIDs = sp_SampleClientIDs p,
               hpo_ExceedsMaxClients = (sp_ExceedsMaxClients p \<or> sp_MatchedClientCount p > maxClients),
               hpo_MaxClients = maxClients\<rparr>))) w)"

subsection \<open>velo\_list\_hunts\<close>

definition list_hunts_out :: "Result \<Rightarrow> string \<Rightarrow> ListHuntsOutput" where
  "list_hunts_out result mode = \<lparr>lho_Result = result, lho_Mode = mode, lho_Hunts = [], lho_NextCursor = [], lho_Truncated = False\<rparr>"

definition newListHuntsHandler :: "env \<Rightarrow> Deps \<Rightarrow> ListHuntsInput \<Rightarrow> world \<Rightarrow> world \<times> (gerror + ListHuntsOutput)" where
  "newListHuntsHandler env deps i w =
     (let ev = hunt_event ''velo_list_hunts'' []; limit = boundToolLimit (lhi_Limit i) (configuredMaxRows deps) in
      read_tool env deps ev mockNoCall
        (list_hunts_out (Success mockShort) VelociraptorModeMock)
        (list_hunts_out (ErrorResult absentMessage) VelociraptorModeReal)
        (ListHuntsCall limit)
        (\<lambda>c t. rc_ListHunts c t limit)
        (\<lambda>err. list_hunts_out (ErrorResult (err_text env err)) VelociraptorModeReal)
        (\<lambda>hunts.
           let truncated = int (length hunts) > limit; out = map toHuntSummaryOutput (cut limit hunts) in
           (ev\<lparr>ev_RowCount := int (length out)\<rparr>,
            \<lparr>lho_Result = \<lparr>rs_Status = StatusForCount (int (length out)), rs_Message = []\<rparr>, lho_Mode = VelociraptorModeReal,
             lho_Hunts = out, lho_NextCursor = nextOffsetCursor (lhi_Cursor i) (int (length out)) truncated,
             lho_Truncated = truncated\<rparr>)) w)"

subsection \<open>velo\_get\_hunt\_status\<close>

definition hunt_id_check :: "Event \<Rightarrow> string \<Rightarrow> 'o refusal option" where
  "hunt_id_check ev huntID =
     check (HuntID huntID) (\<lambda>e. Some (blocked ev (if huntID = [] then ''missing hunt_id'' else ''invalid hunt id syntax''))) id"

definition newGetHuntStatusHandler :: "env \<Rightarrow> Deps \<Rightarrow> GetHuntStatusInput \<Rightarrow> world \<Rightarrow> world \<times> (gerror + GetHuntStatusOutput)" where
  "newGetHuntStatusHandler env deps i w =
     (let ev = hunt_event ''velo_get_hunt_status'' (ghi_HuntID i) in
      guarded env deps [hunt_id_check ev (ghi_HuntID i)]
        (read_tool env deps ev mockNoCall
           \<lparr>gho_Result = Success mockShort, gho_Mode = VelociraptorModeMock, gho_Hunt = None\<rparr>
           \<lparr>gho_Result = ErrorResult absentMessage, gho_Mode = VelociraptorModeReal, gho_Hunt = None\<rparr>
           (GetHuntStatusCall (ghi_HuntID i))
           (\<lambda>c t. rc_GetHuntStatus c t (ghi_HuntID i))
           (\<lambda>err. \<lparr>gho_Result = notFoundFor env [ErrHuntNotFound] err, gho_Mode = VelociraptorModeReal, gho_Hunt = None\<rparr>)
           (\<lambda>h. (ev, \<lparr>gho_Result = Success [], gho_Mode = VelociraptorModeReal, gho_Hunt = Some (toHuntSummaryOutput h)\<rparr>))) w)"

subsection \<open>velo\_get\_hunt\_results\<close>

definition hunt_results_out :: "GetHuntResultsInput \<Rightarrow> Result \<Rightarrow> string \<Rightarrow> GetHuntResultsOutput" where
  "hunt_results_out i result mode = \<lparr>hro_Result = result, hro_Mode = mode, hro_HuntID = hri_HuntID i, hro_Rows = [],
     hro_ReturnedRows = 0, hro_TotalRows = 0, hro_ByteCount = 0, hro_NextCursor = [], hro_Truncated = False,
     hro_AvailableSources = []\<rparr>"

definition hunt_results_page :: "env \<Rightarrow> Deps \<Rightarrow> GetHuntResultsInput \<Rightarrow> Event \<Rightarrow> int \<Rightarrow> FlowResultPage \<Rightarrow> Event \<times> GetHuntResultsOutput" where
  "hunt_results_page env deps i ev limit page =
     (if fp_SourceRequired page
      then (ev\<lparr>ev_Reason := ''artifact has multiple named result sources; source input required''\<rparr>,
            (hunt_results_out i (SourceRequired (sourceRequiredMessage (fp_AvailableSources page))) VelociraptorModeReal)
              \<lparr>hro_AvailableSources := fp_AvailableSources page\<rparr>)
      else
        (case boundRowsByLimitAndBytes env (fp_Rows page) limit (configuredMaxResultBytes deps) of
           (rows, byteCount, truncatedByHandler) \<Rightarrow>
             let truncated = (fp_Truncated page \<or> truncatedByHandler);
                 totalRows = (if fp_TotalRows page = 0 \<and> length (fp_Rows page) > 0 then int (length (fp_Rows page)) else fp_TotalRows page);
                 result = (if length rows = 0 \<and> truncatedByHandler \<and> length (fp_Rows page) > 0
                           then ErrorResult ''hunt result rows exceed configured max_result_bytes''
                           else \<lparr>rs_Status = StatusForCount (int (length rows)), rs_Message = []\<rparr>)
             in (ev\<lparr>ev_RowCount := int (length rows), ev_ByteCount := byteCount\<rparr>,
                 \<lparr>hro_Result = result, hro_Mode = VelociraptorModeReal, hro_HuntID = hri_HuntID i,
                  hro_Rows = rows, hro_ReturnedRows = int (length rows), hro_TotalRows = totalRows, hro_ByteCount = byteCount,
                  hro_NextCursor = nextOffsetCursor (hri_Cursor i) (int (length rows)) truncated, hro_Truncated = truncated,
                  hro_AvailableSources = []\<rparr>)))"

definition hunt_results_limit :: "Deps \<Rightarrow> GetHuntResultsInput \<Rightarrow> int" where
  "hunt_results_limit deps i = boundToolLimit (hri_Limit i) (configuredMaxRows deps)"

definition newGetHuntResultsHandler :: "env \<Rightarrow> Deps \<Rightarrow> GetHuntResultsInput \<Rightarrow> world \<Rightarrow> world \<times> (gerror + GetHuntResultsOutput)" where
  "newGetHuntResultsHandler env deps i w =
     (let ev = hunt_event ''velo_get_hunt_results'' (hri_HuntID i); limit = hunt_results_limit deps i in
      guarded env deps
        [hunt_id_check ev (hri_HuntID i),
         check (if hri_Source i \<noteq> [] then ResultSourceName (hri_Source i) else None) (\<lambda>e. Some (blocked ev (err_text env e))) id]
        (read_tool env deps ev mockNoCall
           (hunt_results_out i (Success mockShort) VelociraptorModeMock)
           (hunt_results_out i (ErrorResult absentMessage) VelociraptorModeReal)
           (GetHuntResultsCall (hri_HuntID i) (hri_Source i) limit (configuredMaxResultBytes deps))
           (\<lambda>c t. rc_GetHuntResults c t (hri_HuntID i) (hri_Source i) limit (configuredMaxResultBytes deps))
           (\<lambda>err. hunt_results_out i (notFoundFor env [ErrHuntNotFound] err) VelociraptorModeReal)
           (hunt_results_page env deps i ev limit)) w)"

subsection \<open>The handlers keep the read contract\<close>

interpretation preview_hunt_scope: read_only_tool newPreviewHuntScopeHandler
  "\<lambda>deps i. PreviewHuntScopeCall (preview_scope i)"
  "\<lambda>deps i. validateHuntScopeInput (phi_ClientIDs i) (phi_Label i) (phi_All i) = None
     \<and> (phi_All i \<longrightarrow> policy_allows deps TargetAllAllowed)"
  by unfold_locales (auto simp: newPreviewHuntScopeHandler_def Let_def split: option.splits
      elim!: guarded_read_step dest: read_tool_step)

interpretation list_hunts: read_only_tool newListHuntsHandler
  "\<lambda>deps i. ListHuntsCall (boundToolLimit (lhi_Limit i) (configuredMaxRows deps))" "\<lambda>deps i. True"
  by unfold_locales (auto simp: newListHuntsHandler_def Let_def dest: read_tool_step)

interpretation get_hunt_status: read_only_tool newGetHuntStatusHandler
  "\<lambda>deps i. GetHuntStatusCall (ghi_HuntID i)" "\<lambda>deps i. HuntID (ghi_HuntID i) = None"
  by unfold_locales (auto simp: newGetHuntStatusHandler_def hunt_id_check_def Let_def split: option.splits
      elim!: guarded_read_step dest: read_tool_step)

interpretation get_hunt_results: read_only_tool newGetHuntResultsHandler
  "\<lambda>deps i. GetHuntResultsCall (hri_HuntID i) (hri_Source i) (hunt_results_limit deps i) (configuredMaxResultBytes deps)"
  "\<lambda>deps i. HuntID (hri_HuntID i) = None \<and> (hri_Source i = [] \<or> ResultSourceName (hri_Source i) = None)"
  by unfold_locales (auto simp: newGetHuntResultsHandler_def hunt_id_check_def Let_def split: option.splits if_splits
      elim!: guarded_read_step dest: read_tool_step)

lemma list_hunts_reads:
  "reads (effects_of (newListHuntsHandler env deps i) w)
     = (if asks_client deps then [ListHuntsCall (boundToolLimit (lhi_Limit i) (configuredMaxRows deps))] else [])"
  unfolding newListHuntsHandler_def [abs_def] Let_def by (rule read_tool_reads_eq)

lemma hunt_results_reads:
  "reads (effects_of (newGetHuntResultsHandler env deps i) w)
     = (if HuntID (hri_HuntID i) = None \<and> (hri_Source i = [] \<or> ResultSourceName (hri_Source i) = None) \<and> asks_client deps
        then [GetHuntResultsCall (hri_HuntID i) (hri_Source i) (hunt_results_limit deps i) (configuredMaxResultBytes deps)] else [])"
  unfolding newGetHuntResultsHandler_def [abs_def] Let_def guarded_read_tool_reads
  by (simp add: hunt_id_check_def)

text \<open>
  The hunt tools that list accept a cursor but never hand it to Velociraptor:
  two calls that differ in the cursor only make the same request, so a caller that follows the
  returned cursor reads the first page again.
\<close>

theorem hunt_cursor_ignored:
  "reads (effects_of (newListHuntsHandler env deps i) w) = reads (effects_of (newListHuntsHandler env deps (i\<lparr>lhi_Cursor := c\<rparr>)) w)
   \<and> reads (effects_of (newGetHuntResultsHandler env deps j) w) = reads (effects_of (newGetHuntResultsHandler env deps (j\<lparr>hri_Cursor := c\<rparr>)) w)"
  by (simp add: list_hunts_reads hunt_results_reads hunt_results_limit_def)

end
