(* ===== verification/Tools_Visibility.thy ===== *)
theory Tools_Visibility
  imports Tools_Flows Tools_Collection
begin

text \<open>
  \<^verbatim>\<open>internal/mcpserver/tools_visibility.go\<close>: health check, client search and client details, and the
  artifact listing and details. Each handler interprets \<open>read_only_tool\<close>;
  \<open>artifact_visibility\<close> shows that the artifacts of an answer are allowlisted.
\<close>

subsection \<open>velo\_health\_check\<close>

record HealthCheckOutput =
  hc_Status :: string
  hc_Mode :: string
  hc_VelociraptorConnected :: bool
  hc_ServerVersion :: string
  hc_Message :: string

definition newHealthCheckHandler :: "env \<Rightarrow> Deps \<Rightarrow> unit \<Rightarrow> world \<Rightarrow> world \<times> (gerror + HealthCheckOutput)" where
  "newHealthCheckHandler env deps i w =
     (let ev = zeroEvent\<lparr>ev_Tool := ''velo_health_check''\<rparr> in
      read_tool env deps ev mockNoCall
        \<lparr>hc_Status = ''ok'', hc_Mode = VelociraptorModeMock, hc_VelociraptorConnected = False, hc_ServerVersion = [], hc_Message = mockMessage\<rparr>
        \<lparr>hc_Status = ''error'', hc_Mode = VelociraptorModeReal, hc_VelociraptorConnected = False, hc_ServerVersion = [], hc_Message = absentMessage\<rparr>
        HealthCheckCall
        (\<lambda>c t. rc_HealthCheck c t)
        (\<lambda>err. \<lparr>hc_Status = ''error'', hc_Mode = VelociraptorModeReal, hc_VelociraptorConnected = False, hc_ServerVersion = [], hc_Message = err_text env err\<rparr>)
        (\<lambda>info. (ev, \<lparr>hc_Status = ''ok'', hc_Mode = VelociraptorModeReal, hc_VelociraptorConnected = True,
            hc_ServerVersion = in_ServerVersion info,
            hc_Message = ''connected to Velociraptor API and received a healthy status from the Check RPC''\<rparr>)) w)"

subsection \<open>velo\_search\_clients\<close>

record ClientSummaryOutput =
  cso_ClientID :: string
  cso_Hostname :: string
  cso_OS :: string
  cso_LastSeenAt :: string
  cso_LastIP :: string
  cso_AgentVersion :: string

definition toClientSummaryOutput :: "ClientSummary \<Rightarrow> ClientSummaryOutput" where
  "toClientSummaryOutput c = \<lparr>cso_ClientID = cl_ClientID c, cso_Hostname = cl_Hostname c, cso_OS = cl_OS c,
     cso_LastSeenAt = cl_LastSeenAt c, cso_LastIP = cl_LastIP c, cso_AgentVersion = cl_AgentVersion c\<rparr>"

record SearchClientsInput =
  sci_Query :: string
  sci_Limit :: int

record SearchClientsOutput =
  sco_Result :: Result
  sco_Mode :: string
  sco_Clients :: "ClientSummaryOutput list"

definition newSearchClientsHandler :: "env \<Rightarrow> Deps \<Rightarrow> SearchClientsInput \<Rightarrow> world \<Rightarrow> world \<times> (gerror + SearchClientsOutput)" where
  "newSearchClientsHandler env deps i w =
     (let ev = zeroEvent\<lparr>ev_Tool := ''velo_search_clients''\<rparr> in
      guarded env deps
        [check (SearchQuery (sci_Query i)) (\<lambda>e. Some (blocked ev ''invalid search query syntax''))
           (\<lambda>e. Errorf [Lit ''invalid search query: '', Wrap e])]
        (read_tool env deps ev mockNoCall
           \<lparr>sco_Result = Success mockMessage, sco_Mode = VelociraptorModeMock, sco_Clients = []\<rparr>
           \<lparr>sco_Result = ErrorResult absentMessage, sco_Mode = VelociraptorModeReal, sco_Clients = []\<rparr>
           (SearchClientsCall (sci_Query i) (sci_Limit i))
           (\<lambda>c t. rc_SearchClients c t (sci_Query i) (sci_Limit i))
           (\<lambda>err. \<lparr>sco_Result = ErrorResult (err_text env err), sco_Mode = VelociraptorModeReal, sco_Clients = []\<rparr>)
           (\<lambda>clients. let out = map toClientSummaryOutput clients in
              (ev\<lparr>ev_RowCount := int (length out)\<rparr>,
               \<lparr>sco_Result = \<lparr>rs_Status = StatusForCount (int (length out)), rs_Message = []\<rparr>,
                sco_Mode = VelociraptorModeReal, sco_Clients = out\<rparr>))) w)"

subsection \<open>velo\_get\_client\_info\<close>

record ClientDetailOutput =
  cdo_Summary :: ClientSummaryOutput
  cdo_Labels :: "string list"
  cdo_MacAddresses :: "string list"

definition toClientDetailOutput :: "ClientDetail \<Rightarrow> ClientDetailOutput" where
  "toClientDetailOutput c = \<lparr>cdo_Summary = toClientSummaryOutput (cd_Summary c), cdo_Labels = cd_Labels c,
     cdo_MacAddresses = cd_MacAddresses c\<rparr>"

record GetClientInfoInput = gci_ClientID :: string

record GetClientInfoOutput =
  gco_Result :: Result
  gco_Mode :: string
  gco_Client :: "ClientDetailOutput option"

definition newGetClientInfoHandler :: "env \<Rightarrow> Deps \<Rightarrow> GetClientInfoInput \<Rightarrow> world \<Rightarrow> world \<times> (gerror + GetClientInfoOutput)" where
  "newGetClientInfoHandler env deps i w =
     (let ev = zeroEvent\<lparr>ev_Tool := ''velo_get_client_info'', ev_ClientID := gci_ClientID i\<rparr> in
      guarded env deps
        [check (ClientID (gci_ClientID i)) (\<lambda>e. Some (blocked ev ''invalid client id syntax''))
           (\<lambda>e. Errorf [Lit ''invalid client id '', Quo (gci_ClientID i)])]
        (read_tool env deps ev mockNoCall
           \<lparr>gco_Result = Success mockMessage, gco_Mode = VelociraptorModeMock, gco_Client = None\<rparr>
           \<lparr>gco_Result = ErrorResult absentMessage, gco_Mode = VelociraptorModeReal, gco_Client = None\<rparr>
           (GetClientInfoCall (gci_ClientID i))
           (\<lambda>c t. rc_GetClientInfo c t (gci_ClientID i))
           (\<lambda>err. \<lparr>gco_Result = notFoundFor env [ErrClientNotFound] err, gco_Mode = VelociraptorModeReal, gco_Client = None\<rparr>)
           (\<lambda>d. (ev, \<lparr>gco_Result = Success [], gco_Mode = VelociraptorModeReal, gco_Client = Some (toClientDetailOutput d)\<rparr>))) w)"

subsection \<open>velo\_list\_artifact\_names\<close>

record ArtifactSummaryOutput =
  aso_Name :: string
  aso_Description :: string

definition toArtifactSummaryOutput :: "ArtifactSummary \<Rightarrow> ArtifactSummaryOutput" where
  "toArtifactSummaryOutput a = \<lparr>aso_Name = as_Name a, aso_Description = as_Description a\<rparr>"

record ListArtifactNamesOutput =
  lao_Result :: Result
  lao_Mode :: string
  lao_Artifacts :: "ArtifactSummaryOutput list"

definition filterAllowedArtifacts :: "Deps \<Rightarrow> ArtifactSummary list \<Rightarrow> ArtifactSummary list" where
  "filterAllowedArtifacts deps all =
     (if policy_allows deps AllowListAllArtifacts then all
      else filter (\<lambda>a. policy_allows deps (\<lambda>p. ArtifactAllowed p (as_Name a))) all)"

definition newListArtifactNamesHandler :: "env \<Rightarrow> Deps \<Rightarrow> unit \<Rightarrow> world \<Rightarrow> world \<times> (gerror + ListArtifactNamesOutput)" where
  "newListArtifactNamesHandler env deps i w =
     (let ev = zeroEvent\<lparr>ev_Tool := ''velo_list_artifact_names''\<rparr> in
      read_tool env deps ev mockNoCall
        \<lparr>lao_Result = Success mockMessage, lao_Mode = VelociraptorModeMock, lao_Artifacts = []\<rparr>
        \<lparr>lao_Result = ErrorResult absentMessage, lao_Mode = VelociraptorModeReal, lao_Artifacts = []\<rparr>
        ListArtifactNamesCall
        (\<lambda>c t. rc_ListArtifactNames c t)
        (\<lambda>err. \<lparr>lao_Result = ErrorResult (err_text env err), lao_Mode = VelociraptorModeReal, lao_Artifacts = []\<rparr>)
        (\<lambda>artifacts. let out = map toArtifactSummaryOutput (filterAllowedArtifacts deps artifacts) in
           (ev\<lparr>ev_RowCount := int (length out)\<rparr>,
            \<lparr>lao_Result = \<lparr>rs_Status = StatusForCount (int (length out)), rs_Message = []\<rparr>,
             lao_Mode = VelociraptorModeReal, lao_Artifacts = out\<rparr>)) w)"

subsection \<open>velo\_get\_artifact\_details\<close>

record ArtifactParameterOutput =
  apo_Name :: string
  apo_Type :: string
  apo_Description :: string
  apo_Default :: string

record ArtifactDetailOutput =
  ado_Summary :: ArtifactSummaryOutput
  ado_Parameters :: "ArtifactParameterOutput list"

definition toArtifactDetailOutput :: "ArtifactDetail \<Rightarrow> ArtifactDetailOutput" where
  "toArtifactDetailOutput a = \<lparr>ado_Summary = toArtifactSummaryOutput (ad_Summary a),
     ado_Parameters = map (\<lambda>p. \<lparr>apo_Name = ap_Name p, apo_Type = ap_Type p, apo_Description = ap_Description p,
       apo_Default = ap_Default p\<rparr>) (ad_Parameters a)\<rparr>"

record GetArtifactDetailsInput = gai_Name :: string

record GetArtifactDetailsOutput =
  gao_Result :: Result
  gao_Mode :: string
  gao_Artifact :: "ArtifactDetailOutput option"

definition newGetArtifactDetailsHandler :: "env \<Rightarrow> Deps \<Rightarrow> GetArtifactDetailsInput \<Rightarrow> world \<Rightarrow> world \<times> (gerror + GetArtifactDetailsOutput)" where
  "newGetArtifactDetailsHandler env deps i w =
     (let ev = zeroEvent\<lparr>ev_Tool := ''velo_get_artifact_details'', ev_Artifact := gai_Name i\<rparr> in
      guarded env deps
        [check (ArtifactName (gai_Name i)) (\<lambda>e. Some (blocked ev ''invalid artifact name syntax''))
           (\<lambda>e. Errorf [Lit ''invalid artifact name '', Quo (gai_Name i)]),
         refuse_if (case d_Policy deps of None \<Rightarrow> False
                    | Some p \<Rightarrow> \<not> AllowListAllArtifacts p \<and> \<not> ArtifactAllowed p (gai_Name i))
           (blocked ev ''artifact not in allowlist'')
           (Errorf [Lit ''artifact '', Quo (gai_Name i), Lit '' is not in the configured allowlist''])]
        (read_tool env deps ev mockNoCall
           \<lparr>gao_Result = Success mockMessage, gao_Mode = VelociraptorModeMock, gao_Artifact = None\<rparr>
           \<lparr>gao_Result = ErrorResult absentMessage, gao_Mode = VelociraptorModeReal, gao_Artifact = None\<rparr>
           (GetArtifactDetailsCall (gai_Name i))
           (\<lambda>c t. rc_GetArtifactDetails c t (gai_Name i))
           (\<lambda>err. \<lparr>gao_Result = notFoundFor env [ErrArtifactNotFound] err, gao_Mode = VelociraptorModeReal, gao_Artifact = None\<rparr>)
           (\<lambda>d. (ev, \<lparr>gao_Result = Success [], gao_Mode = VelociraptorModeReal, gao_Artifact = Some (toArtifactDetailOutput d)\<rparr>))) w)"

subsection \<open>The handlers keep the read contract\<close>

interpretation health_check: read_only_tool newHealthCheckHandler "\<lambda>deps i. HealthCheckCall" "\<lambda>deps i. True"
  by unfold_locales (auto simp: newHealthCheckHandler_def Let_def dest: read_tool_step)

interpretation search_clients: read_only_tool newSearchClientsHandler
  "\<lambda>deps i. SearchClientsCall (sci_Query i) (sci_Limit i)" "\<lambda>deps i. SearchQuery (sci_Query i) = None"
  by unfold_locales (auto simp: newSearchClientsHandler_def Let_def split: option.splits
      elim!: guarded_read_step dest: read_tool_step)

interpretation get_client_info: read_only_tool newGetClientInfoHandler
  "\<lambda>deps i. GetClientInfoCall (gci_ClientID i)" "\<lambda>deps i. ClientID (gci_ClientID i) = None"
  by unfold_locales (auto simp: newGetClientInfoHandler_def Let_def split: option.splits
      elim!: guarded_read_step dest: read_tool_step)

interpretation list_artifact_names: read_only_tool newListArtifactNamesHandler
  "\<lambda>deps i. ListArtifactNamesCall" "\<lambda>deps i. True"
  by unfold_locales (auto simp: newListArtifactNamesHandler_def Let_def dest: read_tool_step)

interpretation get_artifact_details: read_only_tool newGetArtifactDetailsHandler
  "\<lambda>deps i. GetArtifactDetailsCall (gai_Name i)"
  "\<lambda>deps i. ArtifactName (gai_Name i) = None
     \<and> (d_Policy deps = None \<or> policy_allows deps (\<lambda>p. AllowListAllArtifacts p \<or> ArtifactAllowed p (gai_Name i)))"
  by unfold_locales (auto simp: newGetArtifactDetailsHandler_def policy_allows_def Let_def split: option.splits
      elim!: guarded_read_step dest: read_tool_step)

subsection \<open>Visibility is scoped to the allowlist\<close>

text \<open>
  The artifact listing shows only artifacts of the policy's allowlist, unless
  the policy exposes all, and nothing at all without a policy; the artifact details are asked of
  Velociraptor only for an artifact the configured policy makes visible.
\<close>

theorem artifact_visibility:
  "(\<forall>w' out. newListArtifactNamesHandler env deps () w = (w', Inr out) \<longrightarrow>
      policy_allows deps AllowListAllArtifacts
      \<or> list_all (\<lambda>a. policy_allows deps (\<lambda>p. ArtifactAllowed p (aso_Name a))) (lao_Artifacts out))
   \<and> (\<forall>p. d_Policy deps = Some p \<longrightarrow> reads (effects_of (newGetArtifactDetailsHandler env deps i) w) \<noteq> [] \<longrightarrow>
        AllowListAllArtifacts p \<or> ArtifactAllowed p (gai_Name i))"
proof (intro conjI allI impI)
  fix w' out assume "newListArtifactNamesHandler env deps () w = (w', Inr out)"
  from read_tool_answers [OF this [unfolded newListArtifactNamesHandler_def Let_def]]
  show "policy_allows deps AllowListAllArtifacts
      \<or> list_all (\<lambda>a. policy_allows deps (\<lambda>p. ArtifactAllowed p (aso_Name a))) (lao_Artifacts out)"
    by (elim disjE exE conjE) (auto simp: filterAllowedArtifacts_def toArtifactSummaryOutput_def list_all_iff)
next
  fix p assume "d_Policy deps = Some p" "reads (effects_of (newGetArtifactDetailsHandler env deps i) w) \<noteq> []"
  then show "AllowListAllArtifacts p \<or> ArtifactAllowed p (gai_Name i)"
    using get_artifact_details.at_most_one_read [of env deps i w] by (auto simp: policy_allows_def)
qed

text \<open>A reader that lists two artifacts, one of them allowlisted.\<close>

definition visibility_deps :: Deps where
  "visibility_deps = reader_deps\<lparr>d_Policy := Some (NewEngine (c_Policy Default)),
     d_ReadClient := Some (placeholderReader\<lparr>rc_ListArtifactNames := (\<lambda>t. Inr
       [\<lparr>as_Name = ''Windows.System.Pslist'', as_Description = []\<rparr>, \<lparr>as_Name = ''Custom.Secret'', as_Description = []\<rparr>])\<rparr>)\<rparr>"

theorem artifact_visibility_witness:
  "\<exists>w' out. newListArtifactNamesHandler sample_env visibility_deps () reader_world = (w', Inr out)
     \<and> list_all (\<lambda>a. policy_allows visibility_deps (\<lambda>p. ArtifactAllowed p (aso_Name a))) (lao_Artifacts out)
     \<and> length (lao_Artifacts out) = 1"
proof -
  have "\<exists>w' out. newListArtifactNamesHandler sample_env visibility_deps () reader_world = (w', Inr out) \<and> length (lao_Artifacts out) = 1"
    by (simp add: newListArtifactNamesHandler_def Let_def read_tool_def visibility_deps_def reader_deps_def
        filterAllowedArtifacts_def policy_allows_def AllowListAllArtifacts_def ArtifactAllowed_def NewEngine_def Default_def)
  moreover have "\<not> policy_allows visibility_deps AllowListAllArtifacts"
    by (simp add: policy_allows_def visibility_deps_def AllowListAllArtifacts_def NewEngine_def Default_def)
  ultimately show ?thesis using artifact_visibility [of sample_env visibility_deps reader_world] by blast
qed

end
