(* ===== verification/Tools_Profiles.thy ===== *)
theory Tools_Profiles
  imports Read_Tools Tools_Collection
begin

text \<open>
  \<^verbatim>\<open>internal/mcpserver/tools_profiles.go\<close>: listing, showing and validating DFIR profiles. The tools
  answer from the registry and the policy and never contact Velociraptor, which is what their
  interpretations of \<open>read_only_tool\<close> with no valid request say. \<open>validate_profile_honest\<close> relates
  the validity they report to what the write tools accept, and \<open>profile_browsing_ignores_allowlist\<close> shows
  that browsing is not limited to allowlisted profiles.
\<close>

record ProfileArtifactOutput =
  pao_Name :: string
  pao_Parameters :: "string gomap"

record DFIRProfileOutput =
  po_Name :: string
  po_DisplayName :: string
  po_Description :: string
  po_TargetOS :: string
  po_Category :: string
  po_RiskLevel :: string
  po_RequiresApproval :: bool
  po_MaxRuntimeSeconds :: int
  po_MaxResultRows :: int
  po_MaxResultBytes :: int
  po_Artifacts :: "ProfileArtifactOutput list"

definition toProfileOutput :: "Profile \<Rightarrow> DFIRProfileOutput" where
  "toProfileOutput p = \<lparr>po_Name = pf_Name p, po_DisplayName = pf_DisplayName p, po_Description = pf_Description p,
     po_TargetOS = pf_TargetOS p, po_Category = pf_Category p, po_RiskLevel = pf_RiskLevel p,
     po_RequiresApproval = pf_RequiresApproval p, po_MaxRuntimeSeconds = pf_MaxRuntimeSeconds p,
     po_MaxResultRows = pf_MaxResultRows p, po_MaxResultBytes = pf_MaxResultBytes p,
     po_Artifacts = map (\<lambda>a. \<lparr>pao_Name = pf_artName a, pao_Parameters = pf_Parameters a\<rparr>) (pf_Artifacts p)\<rparr>"

record DFIRProfileSummary =
  ps_Name :: string
  ps_DisplayName :: string
  ps_Description :: string
  ps_TargetOS :: string
  ps_Category :: string
  ps_RiskLevel :: string
  ps_RequiresApproval :: bool
  ps_ArtifactCount :: int

definition toProfileSummary :: "Profile \<Rightarrow> DFIRProfileSummary" where
  "toProfileSummary p = \<lparr>ps_Name = pf_Name p, ps_DisplayName = pf_DisplayName p, ps_Description = pf_Description p,
     ps_TargetOS = pf_TargetOS p, ps_Category = pf_Category p, ps_RiskLevel = pf_RiskLevel p,
     ps_RequiresApproval = pf_RequiresApproval p, ps_ArtifactCount = int (length (pf_Artifacts p))\<rparr>"

record ListDFIRProfilesOutput = lp_Profiles :: "DFIRProfileSummary list"
record GetDFIRProfileInput = gp_Name :: string
record GetDFIRProfileOutput = gpo_Profile :: DFIRProfileOutput
record ValidateDFIRProfileInput = vp_Name :: string

record ValidateDFIRProfileOutput =
  vpo_Name :: string
  vpo_Valid :: bool
  vpo_Error :: string

text \<open>The end of a tool that answers from local state: one event, one answer.\<close>

definition answer :: "env \<Rightarrow> Deps \<Rightarrow> Event \<Rightarrow> 'o \<Rightarrow> world \<Rightarrow> world \<times> (gerror + 'o)" where
  "answer env deps evt out w = (recordAudit env deps (evt\<lparr>ev_Outcome := OutcomeSuccess\<rparr>) w, Inr out)"

definition loaded_profiles :: "Deps \<Rightarrow> Profile list" where
  "loaded_profiles deps = (case d_Profiles deps of None \<Rightarrow> [] | Some r \<Rightarrow> Registry_List r)"

definition newListDFIRProfilesHandler :: "env \<Rightarrow> Deps \<Rightarrow> unit \<Rightarrow> world \<Rightarrow> world \<times> (gerror + ListDFIRProfilesOutput)" where
  "newListDFIRProfilesHandler env deps i w =
     (let ev = zeroEvent\<lparr>ev_Tool := ''velo_list_dfir_profiles''\<rparr>; summaries = map toProfileSummary (loaded_profiles deps) in
      guarded env deps
        [refuse_if (d_Profiles deps = None) (failed ev ''dfir profile registry not configured'')
           (errorf ''dfir profile registry is not configured'')]
        (answer env deps (ev\<lparr>ev_RowCount := int (length summaries)\<rparr>) \<lparr>lp_Profiles = summaries\<rparr>) w)"

definition profile_name_check :: "Event \<Rightarrow> string \<Rightarrow> 'o refusal option" where
  "profile_name_check ev name =
     check (DFIRProfileName name) (\<lambda>e. Some (blocked ev ''invalid profile name syntax''))
       (\<lambda>e. Errorf [Lit ''invalid dfir profile name '', Quo name])"

definition profile_found_check :: "Deps \<Rightarrow> Event \<Rightarrow> string \<Rightarrow> 'o refusal option" where
  "profile_found_check deps ev name =
     refuse_if (lookup_profile deps name = None) (failed ev ''profile not found'')
       (Errorf [Lit ''dfir profile '', Quo name, Lit '' not found''])"

definition newGetDFIRProfileHandler :: "env \<Rightarrow> Deps \<Rightarrow> GetDFIRProfileInput \<Rightarrow> world \<Rightarrow> world \<times> (gerror + GetDFIRProfileOutput)" where
  "newGetDFIRProfileHandler env deps i w =
     (let ev = zeroEvent\<lparr>ev_Tool := ''velo_get_dfir_profile'', ev_Profile := gp_Name i\<rparr> in
      guarded env deps
        [profile_name_check ev (gp_Name i),
         refuse_if (d_Profiles deps = None) (failed ev ''dfir profile registry not configured'')
           (errorf ''dfir profile registry is not configured''),
         profile_found_check deps ev (gp_Name i)]
        (\<lambda>w. case lookup_profile deps (gp_Name i) of
               None \<Rightarrow> (w, Inl (errorf []))
             | Some p \<Rightarrow> answer env deps ev \<lparr>gpo_Profile = toProfileOutput p\<rparr> w) w)"

definition validate_report :: "env \<Rightarrow> Deps \<Rightarrow> string \<Rightarrow> ValidateDFIRProfileOutput" where
  "validate_report env deps name =
     (case validate_profile deps name of
        None \<Rightarrow> \<lparr>vpo_Name = name, vpo_Valid = True, vpo_Error = []\<rparr>
      | Some err \<Rightarrow> \<lparr>vpo_Name = name, vpo_Valid = False, vpo_Error = err_text env err\<rparr>)"

definition newValidateDFIRProfileHandler ::
  "env \<Rightarrow> Deps \<Rightarrow> ValidateDFIRProfileInput \<Rightarrow> world \<Rightarrow> world \<times> (gerror + ValidateDFIRProfileOutput)" where
  "newValidateDFIRProfileHandler env deps i w =
     (let ev = zeroEvent\<lparr>ev_Tool := ''velo_validate_dfir_profile'', ev_Profile := vp_Name i\<rparr>;
          out = validate_report env deps (vp_Name i) in
      guarded env deps
        [profile_name_check ev (vp_Name i),
         refuse_if (d_Profiles deps = None \<or> d_Policy deps = None)
           (failed ev ''dfir profile registry or policy engine not configured'')
           (errorf ''dfir profile registry or policy engine is not configured''),
         profile_found_check deps ev (vp_Name i)]
        (answer env deps (ev\<lparr>ev_Reason := vpo_Error out\<rparr>) out) w)"

subsection \<open>The handlers keep the read contract, without any request\<close>

lemma answer_step: "answer env deps evt out w = (w', r) \<Longrightarrow> read_only_step v call w w'"
  by (auto simp: answer_def intro!: read_only_audit)

lemma profile_checks_recorded [simp]:
  "recorded_refusals (profile_name_check ev n # cs) \<longleftrightarrow> recorded_refusals cs"
  "recorded_refusals (profile_found_check deps ev n # cs) \<longleftrightarrow> recorded_refusals cs"
  by (auto simp: profile_name_check_def profile_found_check_def split: option.splits)

lemma profile_checks_pass [simp]:
  "profile_name_check ev n = None \<longleftrightarrow> DFIRProfileName n = None"
  "profile_found_check deps ev n = None \<longleftrightarrow> lookup_profile deps n \<noteq> None"
  by (simp_all add: profile_name_check_def profile_found_check_def)

text \<open>Any request will do: none is ever made.\<close>

abbreviation no_request :: "Deps \<Rightarrow> 'i \<Rightarrow> read_call" where "no_request deps i \<equiv> HealthCheckCall"

interpretation list_dfir_profiles: read_only_tool newListDFIRProfilesHandler no_request "\<lambda>deps i. False"
  by unfold_locales (auto simp: newListDFIRProfilesHandler_def Let_def elim!: guarded_read_step dest: answer_step)

interpretation get_dfir_profile: read_only_tool newGetDFIRProfileHandler no_request "\<lambda>deps i. False"
  by unfold_locales (auto simp: newGetDFIRProfileHandler_def Let_def split: option.splits
      elim!: guarded_read_step dest: answer_step)

interpretation validate_dfir_profile: read_only_tool newValidateDFIRProfileHandler no_request "\<lambda>deps i. False"
  by unfold_locales (auto simp: newValidateDFIRProfileHandler_def Let_def elim!: guarded_read_step dest: answer_step)

subsection \<open>What the answers mean\<close>

text \<open>
  The validation tool calls a loaded profile valid exactly when its
  metadata is in range, it lists an artifact, and every artifact it lists is allowlisted; an
  invalid profile is reported in the answer, not as a failure of the call.
\<close>

theorem validate_profile_honest:
  assumes "DFIRProfileName (vp_Name i) = None" "d_Policy deps = Some pol" "lookup_profile deps (vp_Name i) = Some p"
  shows "\<exists>w' out. newValidateDFIRProfileHandler env deps i w = (w', Inr out) \<and> vpo_Name out = vp_Name i
    \<and> (vpo_Valid out \<longleftrightarrow> limits_ok p \<and> pf_Artifacts p \<noteq> []
         \<and> pf_artName ` set (pf_Artifacts p) \<subseteq> set (pc_AllowedArtifacts (en_cfg pol)))"
proof -
  have "d_Profiles deps \<noteq> None" using assms(3) by (auto simp: lookup_profile_def split: option.splits)
  then have "newValidateDFIRProfileHandler env deps i w
      = answer env deps ((zeroEvent\<lparr>ev_Tool := ''velo_validate_dfir_profile'', ev_Profile := vp_Name i\<rparr>)
          \<lparr>ev_Reason := vpo_Error (validate_report env deps (vp_Name i))\<rparr>) (validate_report env deps (vp_Name i)) w"
    unfolding newValidateDFIRProfileHandler_def Let_def using assms by (intro guarded_pass) simp
  moreover have "vpo_Valid (validate_report env deps (vp_Name i)) \<longleftrightarrow> ValidateProfile p (ArtifactAllowed pol) = None"
    and "vpo_Name (validate_report env deps (vp_Name i)) = vp_Name i"
    using assms(2,3) by (auto simp: validate_report_def validate_profile_def split: option.splits)
  ultimately show ?thesis
    by (auto simp: answer_def ValidateProfile_None_iff engine_allow.allowed_iff image_subset_iff)
qed

text \<open>
  Browsing is not scoped to the profile allowlist, although the tool
  descriptions speak of allowlisted profiles: the list and the details of profiles are the same
  whatever profiles the policy allows.
\<close>

theorem profile_browsing_ignores_allowlist:
  "snd (newListDFIRProfilesHandler env deps () w) = snd (newListDFIRProfilesHandler env (deps\<lparr>d_Policy := pol\<rparr>) () w)
   \<and> snd (newGetDFIRProfileHandler env deps i w) = snd (newGetDFIRProfileHandler env (deps\<lparr>d_Policy := pol\<rparr>) i w)"
proof -
  have lookup: "lookup_profile (deps\<lparr>d_Policy := pol\<rparr>) n = lookup_profile deps n"
    and loaded: "loaded_profiles (deps\<lparr>d_Policy := pol\<rparr>) = loaded_profiles deps" for n
    by (simp_all add: lookup_profile_def loaded_profiles_def)
  have g: "snd (guarded env deps cs b w) = snd (guarded env (deps\<lparr>d_Policy := pol\<rparr>) cs b' w)"
    if "snd (b w) = snd (b' w)" for cs :: "'o refusal option list" and b b'
    using that by (auto simp: guarded_def split: option.splits)
  show ?thesis
    by (simp add: newListDFIRProfilesHandler_def newGetDFIRProfileHandler_def Let_def profile_found_check_def lookup loaded)
       (auto intro!: g simp: answer_def split: option.splits)
qed

definition browse_deps :: Deps where
  "browse_deps = sample_deps\<lparr>d_Profiles := Some \<lparr>rg_profiles = [(''triage'', sample_profile ''triage'')]\<rparr>\<rparr>"

theorem validate_profile_honest_witness:
  "\<exists>w' out. newValidateDFIRProfileHandler sample_env browse_deps \<lparr>vp_Name = ''triage''\<rparr> sample_world = (w', Inr out) \<and> vpo_Valid out"
proof -
  let ?i = "\<lparr>vp_Name = ''triage''\<rparr>" and ?pol = "NewEngine ((c_Policy Default)\<lparr>pc_Mode := PolicyModeControlled\<rparr>)"
  have n: "DFIRProfileName (vp_Name ?i) = None" by code_simp
  have d: "d_Policy browse_deps = Some ?pol" by (simp add: browse_deps_def sample_deps_def)
  have l: "lookup_profile browse_deps (vp_Name ?i) = Some (sample_profile ''triage'')"
    by (simp add: browse_deps_def lookup_profile_def Registry_Get_def)
  have "limits_ok (sample_profile ''triage'')" by (simp add: limits_ok_def sample_profile_def)
  moreover have "pf_artName ` set (pf_Artifacts (sample_profile ''triage'')) \<subseteq> set (pc_AllowedArtifacts (en_cfg ?pol))"
    "pf_Artifacts (sample_profile ''triage'') \<noteq> []"
    by (simp_all add: sample_profile_def NewEngine_def Default_def)
  ultimately show ?thesis using validate_profile_honest [OF n d l, of sample_env sample_world] by blast
qed

end
