(* ===== verification/Tools_Workflow.thy ===== *)
theory Tools_Workflow
  imports Tools_Profiles
begin

text \<open>
  \<^verbatim>\<open>internal/mcpserver/tools_workflow.go\<close>: planning a triage, comparing profiles and finding the
  profiles that use an artifact. All three answer from the registry and the policy.

  \<open>compare_exact\<close> says what the comparison reports for profiles that list no artifact twice,
  \<open>compare_counts_occurrences\<close> what goes wrong otherwise; \<open>plan_agrees_with_gate\<close> compares the plan's
  guidance with the checks of the collection tool.
\<close>

subsection \<open>Inputs and outputs\<close>

record PlanDFIRTriageInput =
  pti_CaseType :: string
  pti_TargetOS :: string
  pti_ClientID :: string

record WorkflowProfileRecommendation =
  wr_Name :: string
  wr_DisplayName :: string
  wr_Description :: string
  wr_TargetOS :: string
  wr_Category :: string
  wr_RiskLevel :: string
  wr_RequiresApproval :: bool
  wr_ArtifactCount :: int
  wr_AllowedByPolicy :: bool
  wr_ArtifactsAllowlisted :: bool
  wr_ValidationError :: string
  wr_Reasons :: "string list"

record PlanDFIRTriageOutput =
  pto_Result :: Result
  pto_CaseType :: string
  pto_TargetOS :: string
  pto_ClientID :: string
  pto_Recommendations :: "WorkflowProfileRecommendation list"
  pto_ReadOnlyNextSteps :: "string list"
  pto_SafetyNotes :: "string list"

record CompareDFIRProfilesInput = cpi_Names :: "string list"

record ComparedProfileOutput =
  cp_Name :: string
  cp_DisplayName :: string
  cp_TargetOS :: string
  cp_Category :: string
  cp_RiskLevel :: string
  cp_RequiresApproval :: bool
  cp_AllowedByPolicy :: bool
  cp_ArtifactsAllowlisted :: bool
  cp_ValidationError :: string
  cp_Artifacts :: "string list"

record CompareDFIRProfilesOutput =
  cpo_Result :: Result
  cpo_Profiles :: "ComparedProfileOutput list"
  cpo_CommonArtifacts :: "string list"
  cpo_UniqueArtifacts :: "string list gomap"
  cpo_MissingProfiles :: "string list"

record FindProfilesByArtifactInput = fpi_Artifact :: string

record FindProfilesByArtifactOutput =
  fpo_Result :: Result
  fpo_Artifact :: string
  fpo_ArtifactAllowed :: bool
  fpo_Profiles :: "WorkflowProfileRecommendation list"

subsection \<open>Tokens\<close>

text \<open>\<^verbatim>\<open>strings.TrimSpace\<close>; a string with a non-ASCII byte needs Unicode's tables (\<open>trimU\<close>).\<close>

definition ascii_space :: "char \<Rightarrow> bool" where
  "ascii_space c \<longleftrightarrow> (of_char c :: nat) \<in> set [9, 10, 11, 12, 13, 32]"

definition TrimSpace :: "(string \<Rightarrow> string) \<Rightarrow> string \<Rightarrow> string" where
  "TrimSpace trimU s =
     (if list_all (\<lambda>c. (of_char c :: nat) < 128) s
      then rev (dropWhile ascii_space (rev (dropWhile ascii_space s))) else trimU s)"

definition allowedWorkflowCaseTypes :: "string list" where
  "allowedWorkflowCaseTypes = [[], ''basic'', ''triage'', ''process_network'', ''persistence'', ''lateral_movement'',
     ''ransomware'', ''credential_theft'', ''eventlog'', ''browser_activity'', ''timeline'', ''ioc'']"

definition normalizeWorkflowToken :: "env \<Rightarrow> string \<Rightarrow> string list \<Rightarrow> string \<Rightarrow> gerror + string" where
  "normalizeWorkflowToken env val allowed field =
     (let normalized = map (\<lambda>c. if c = CHR '' '' then CHR ''_'' else c)
            (map (\<lambda>c. if c = CHR ''-'' then CHR ''_'' else c) (ToLower (e_lowerU env) (TrimSpace (e_trimU env) val))) in
      if normalized \<in> set allowed then Inr normalized
      else Inl (Errorf [Lit (''invalid '' @ field @ '' ''), Quo val]))"

definition workflowCaseNeedles :: "string \<Rightarrow> string list" where
  "workflowCaseNeedles caseType =
     (if caseType = ''basic'' \<or> caseType = ''triage'' then [''basic'', ''triage'']
      else if caseType = ''process_network'' then [''process_network'', ''process and network'', ''process'', ''network'']
      else if caseType = ''credential_theft'' then [''credential'', ''theft'']
      else if caseType = ''lateral_movement'' then [''lateral'', ''movement'']
      else if caseType = ''browser_activity'' then [''browser'']
      else [caseType])"

definition os_excluded :: "Profile \<Rightarrow> string \<Rightarrow> bool" where
  "os_excluded p targetOS \<longleftrightarrow> targetOS \<noteq> [] \<and> targetOS \<noteq> ''any'' \<and> pf_TargetOS p \<noteq> ''any'' \<and> pf_TargetOS p \<noteq> targetOS"

definition workflowMatchReasons :: "env \<Rightarrow> Profile \<Rightarrow> string \<Rightarrow> string \<Rightarrow> string list" where
  "workflowMatchReasons env p caseType targetOS =
     (if os_excluded p targetOS then []
      else
        let reasons = (if targetOS \<noteq> [] then [''target_os matches''] else []) in
        if caseType = [] then (if reasons = [] then [''profile is loaded''] else reasons)
        else
          let searchText = ToLower (e_lowerU env) (strings_Join [pf_Name p, pf_DisplayName p, pf_Description p, pf_Category p] '' '') in
          if list_ex (Contains searchText) (workflowCaseNeedles caseType)
          then reasons @ [''matches case_type '' @ e_quote env caseType] else [])"

definition profilePolicyValidation :: "env \<Rightarrow> Deps \<Rightarrow> Profile \<Rightarrow> bool \<times> string" where
  "profilePolicyValidation env deps p =
     (case d_Policy deps of
        None \<Rightarrow> (False, ''policy engine is not configured'')
      | Some pol \<Rightarrow>
          (case ValidateProfile p (ArtifactAllowed pol) of
             Some err \<Rightarrow> (False, err_text env err)
           | None \<Rightarrow> (True, [])))"

definition workflowRecommendation :: "env \<Rightarrow> Deps \<Rightarrow> Profile \<Rightarrow> string list \<Rightarrow> WorkflowProfileRecommendation" where
  "workflowRecommendation env deps p reasons =
     \<lparr>wr_Name = pf_Name p, wr_DisplayName = pf_DisplayName p, wr_Description = pf_Description p, wr_TargetOS = pf_TargetOS p,
      wr_Category = pf_Category p, wr_RiskLevel = pf_RiskLevel p, wr_RequiresApproval = pf_RequiresApproval p,
      wr_ArtifactCount = int (length (pf_Artifacts p)),
      wr_AllowedByPolicy = policy_allows deps (\<lambda>pol. ProfileAllowed pol (pf_Name p)),
      wr_ArtifactsAllowlisted = fst (profilePolicyValidation env deps p),
      wr_ValidationError = snd (profilePolicyValidation env deps p), wr_Reasons = reasons\<rparr>"

definition profileArtifactNames :: "Profile \<Rightarrow> string list" where
  "profileArtifactNames p = sort (map pf_artName (pf_Artifacts p))"

definition readOnlyWorkflowSteps :: "string \<Rightarrow> string list" where
  "readOnlyWorkflowSteps clientID =
     (if clientID \<noteq> [] then ''Client ID was supplied and syntactically validated; run velo_get_client_info to confirm live endpoint metadata.''
      else ''Run velo_search_clients to identify candidate endpoints if the client is not already known.'')
     # [''Run velo_get_client_info for endpoint metadata before choosing an OS-specific profile.'',
        ''Run velo_list_artifact_names and velo_get_artifact_details to inspect available artifact metadata and parameters.'',
        ''Run velo_get_dfir_profile or velo_compare_dfir_profiles to review profile contents before any future approved collection workflow.'']"

definition workflowSafetyNotes :: "string list" where
  "workflowSafetyNotes =
     [''v0.3.0 workflow tools are read-only planning helpers and do not execute collections, hunts, downloads, cancellations, raw VQL, or client-side mutation.'',
      ''allowed_by_policy and artifacts_allowlisted are guidance for future approved workflows; they do not grant execution capability.'',
      ''Any future collection or hunt remains out of scope for this release and must be implemented separately with approval gating.'']"

definition unconfigured_check :: "Deps \<Rightarrow> Event \<Rightarrow> 'o refusal option" where
  "unconfigured_check deps ev =
     refuse_if (d_Profiles deps = None \<or> d_Policy deps = None)
       (failed ev ''dfir profile registry or policy engine not configured'')
       (errorf ''dfir profile registry or policy engine is not configured'')"

subsection \<open>velo\_plan\_dfir\_triage\<close>

definition plan_recommendations :: "env \<Rightarrow> Deps \<Rightarrow> string \<Rightarrow> string \<Rightarrow> WorkflowProfileRecommendation list" where
  "plan_recommendations env deps caseType targetOS =
     map (\<lambda>p. workflowRecommendation env deps p (workflowMatchReasons env p caseType targetOS))
       (filter (\<lambda>p. workflowMatchReasons env p caseType targetOS \<noteq> []) (loaded_profiles deps))"

definition plan_tokens :: "env \<Rightarrow> PlanDFIRTriageInput \<Rightarrow> gerror + string \<times> string" where
  "plan_tokens env i =
     (case normalizeWorkflowToken env (pti_CaseType i) allowedWorkflowCaseTypes ''case_type'' of
        Inl err \<Rightarrow> Inl err
      | Inr caseType \<Rightarrow>
          (case normalizeWorkflowToken env (pti_TargetOS i) [[], ''windows'', ''linux'', ''any''] ''target_os'' of
             Inl err \<Rightarrow> Inl err
           | Inr targetOS \<Rightarrow> Inr (caseType, targetOS)))"

definition plan_checks :: "env \<Rightarrow> Deps \<Rightarrow> PlanDFIRTriageInput \<Rightarrow> PlanDFIRTriageOutput refusal option list" where
  "plan_checks env deps i =
     (let ev = zeroEvent\<lparr>ev_Tool := ''velo_plan_dfir_triage'', ev_ClientID := pti_ClientID i\<rparr> in
      [check (case plan_tokens env i of Inl err \<Rightarrow> Some err | Inr _ \<Rightarrow> None) (\<lambda>e. Some (blocked ev (err_text env e))) id,
       check (if pti_ClientID i \<noteq> [] then ClientID (pti_ClientID i) else None)
         (\<lambda>e. Some (blocked ev ''invalid client id syntax'')) (\<lambda>e. Errorf [Lit ''invalid client id '', Quo (pti_ClientID i)]),
       unconfigured_check deps ev])"

definition newPlanDFIRTriageHandler :: "env \<Rightarrow> Deps \<Rightarrow> PlanDFIRTriageInput \<Rightarrow> world \<Rightarrow> world \<times> (gerror + PlanDFIRTriageOutput)" where
  "newPlanDFIRTriageHandler env deps i w =
     guarded env deps (plan_checks env deps i)
       (\<lambda>w. case plan_tokens env i of
              Inl err \<Rightarrow> (w, Inl err)
            | Inr (caseType, targetOS) \<Rightarrow>
                let ev = zeroEvent\<lparr>ev_Tool := ''velo_plan_dfir_triage'', ev_ClientID := pti_ClientID i\<rparr>;
                    recs = plan_recommendations env deps caseType targetOS;
                    status = StatusForCount (int (length recs));
                    message = (if status = StatusEmpty then ''no loaded DFIR profile matched the requested case_type and target_os filters'' else []) in
                answer env deps (ev\<lparr>ev_RowCount := int (length recs)\<rparr>)
                  \<lparr>pto_Result = \<lparr>rs_Status = status, rs_Message = message\<rparr>, pto_CaseType = caseType, pto_TargetOS = targetOS,
                   pto_ClientID = pti_ClientID i, pto_Recommendations = recs,
                   pto_ReadOnlyNextSteps = readOnlyWorkflowSteps (pti_ClientID i), pto_SafetyNotes = workflowSafetyNotes\<rparr> w) w"

subsection \<open>velo\_compare\_dfir\_profiles\<close>

text \<open>The loop over the requested names: the first bad or repeated name ends it.\<close>

fun compare_names ::
  "env \<Rightarrow> Deps \<Rightarrow> Event \<Rightarrow> string list \<Rightarrow> string list \<Rightarrow> Profile list \<Rightarrow> string list \<Rightarrow>
   (Event \<times> gerror) + (Profile list \<times> string list)" where
  "compare_names env deps ev [] seen profiles missing = Inr (profiles, missing)"
| "compare_names env deps ev (rawName # names) seen profiles missing =
     (let name = TrimSpace (e_trimU env) rawName; evP = ev\<lparr>ev_Profile := name\<rparr> in
      if DFIRProfileName name \<noteq> None
      then Inl (blocked evP ''invalid profile name syntax'', Errorf [Lit ''invalid dfir profile name '', Quo name])
      else if name \<in> set seen
      then Inl (blocked evP ''duplicate profile name'', Errorf [Lit ''duplicate dfir profile name '', Quo name])
      else case lookup_profile deps name of
        None \<Rightarrow> compare_names env deps ev names (name # seen) profiles (missing @ [name])
      | Some p \<Rightarrow> compare_names env deps ev names (name # seen) (profiles @ [p]) missing)"

definition artifactCounts :: "Profile list \<Rightarrow> string \<Rightarrow> nat" where
  "artifactCounts profiles a = length (filter (\<lambda>n. n = a) (concat (map profileArtifactNames profiles)))"

text \<open>\<^verbatim>\<open>artifactSets[name]\<close>: of two profiles with the same name the later one counts.\<close>

definition artifactSets :: "Profile list \<Rightarrow> string \<Rightarrow> string list" where
  "artifactSets profiles name =
     (case find (\<lambda>p. pf_Name p = name) (rev profiles) of None \<Rightarrow> [] | Some p \<Rightarrow> remdups (profileArtifactNames p))"

definition commonArtifacts :: "Profile list \<Rightarrow> string list" where
  "commonArtifacts profiles =
     sort (filter (\<lambda>a. artifactCounts profiles a = length profiles) (remdups (concat (map profileArtifactNames profiles))))"

definition add_unique :: "Profile list \<Rightarrow> Profile \<Rightarrow> string list gomap \<Rightarrow> string list gomap" where
  "add_unique profiles p unique =
     (let old = (case map_of unique (pf_Name p) of None \<Rightarrow> [] | Some xs \<Rightarrow> xs);
          new = filter (\<lambda>a. artifactCounts profiles a = 1) (artifactSets profiles (pf_Name p)) in
      if old @ new = [] then unique else gomap_put (pf_Name p) (sort (old @ new)) unique)"

definition uniqueArtifacts :: "Profile list \<Rightarrow> string list gomap" where
  "uniqueArtifacts profiles = fold (add_unique profiles) profiles []"

definition comparedProfile :: "env \<Rightarrow> Deps \<Rightarrow> Profile \<Rightarrow> ComparedProfileOutput" where
  "comparedProfile env deps p =
     \<lparr>cp_Name = pf_Name p, cp_DisplayName = pf_DisplayName p, cp_TargetOS = pf_TargetOS p, cp_Category = pf_Category p,
      cp_RiskLevel = pf_RiskLevel p, cp_RequiresApproval = pf_RequiresApproval p,
      cp_AllowedByPolicy = policy_allows deps (\<lambda>pol. ProfileAllowed pol (pf_Name p)),
      cp_ArtifactsAllowlisted = fst (profilePolicyValidation env deps p),
      cp_ValidationError = snd (profilePolicyValidation env deps p), cp_Artifacts = profileArtifactNames p\<rparr>"

definition newCompareDFIRProfilesHandler :: "env \<Rightarrow> Deps \<Rightarrow> CompareDFIRProfilesInput \<Rightarrow> world \<Rightarrow> world \<times> (gerror + CompareDFIRProfilesOutput)" where
  "newCompareDFIRProfilesHandler env deps i w =
     (let ev = zeroEvent\<lparr>ev_Tool := ''velo_compare_dfir_profiles''\<rparr> in
      guarded env deps
        [refuse_if (length (cpi_Names i) < 2 \<or> length (cpi_Names i) > 5)
           (blocked ev ''profile comparison requires two to five names'') (errorf ''profile comparison requires two to five names''),
         unconfigured_check deps ev]
        (\<lambda>w. case compare_names env deps ev (cpi_Names i) [] [] [] of
               Inl (evt, err) \<Rightarrow> (recordAudit env deps evt w, Inl err)
             | Inr (profiles, missing) \<Rightarrow>
                 if length missing > 0
                 then (recordAudit env deps (failed ev ''one or more profiles not found'') w,
                       Inr \<lparr>cpo_Result = NotFound ''one or more requested DFIR profiles were not found'', cpo_Profiles = [],
                            cpo_CommonArtifacts = [], cpo_UniqueArtifacts = [], cpo_MissingProfiles = sort missing\<rparr>)
                 else answer env deps (ev\<lparr>ev_RowCount := int (length profiles)\<rparr>)
                        \<lparr>cpo_Result = Success [], cpo_Profiles = map (comparedProfile env deps) profiles,
                         cpo_CommonArtifacts = commonArtifacts profiles, cpo_UniqueArtifacts = uniqueArtifacts profiles,
                         cpo_MissingProfiles = []\<rparr> w) w)"

subsection \<open>velo\_find\_profiles\_by\_artifact\<close>

definition find_matches :: "env \<Rightarrow> Deps \<Rightarrow> string \<Rightarrow> WorkflowProfileRecommendation list" where
  "find_matches env deps artifact =
     map (\<lambda>p. workflowRecommendation env deps p [''profile references requested artifact''])
       (filter (\<lambda>p. list_ex (\<lambda>a. pf_artName a = artifact) (pf_Artifacts p)) (loaded_profiles deps))"

definition newFindProfilesByArtifactHandler ::
  "env \<Rightarrow> Deps \<Rightarrow> FindProfilesByArtifactInput \<Rightarrow> world \<Rightarrow> world \<times> (gerror + FindProfilesByArtifactOutput)" where
  "newFindProfilesByArtifactHandler env deps i w =
     (let ev = zeroEvent\<lparr>ev_Tool := ''velo_find_profiles_by_artifact'', ev_Artifact := fpi_Artifact i\<rparr>;
          ms = find_matches env deps (fpi_Artifact i) in
      guarded env deps
        [check (ArtifactName (fpi_Artifact i)) (\<lambda>e. Some (blocked ev ''invalid artifact name syntax''))
           (\<lambda>e. Errorf [Lit ''invalid artifact name '', Quo (fpi_Artifact i)]),
         unconfigured_check deps ev]
        (answer env deps (ev\<lparr>ev_RowCount := int (length ms)\<rparr>)
           \<lparr>fpo_Result = (if StatusForCount (int (length ms)) = StatusEmpty
                          then NotFound ''no loaded DFIR profile references the requested artifact''
                          else \<lparr>rs_Status = StatusForCount (int (length ms)), rs_Message = []\<rparr>),
            fpo_Artifact = fpi_Artifact i,
            fpo_ArtifactAllowed = policy_allows deps (\<lambda>p. ArtifactAllowed p (fpi_Artifact i)), fpo_Profiles = ms\<rparr>) w)"

subsection \<open>The handlers keep the read contract, without any request\<close>

lemma unconfigured_check_simps [simp]:
  "recorded_refusals (unconfigured_check deps ev # cs) \<longleftrightarrow> recorded_refusals cs"
  "error_refusals (unconfigured_check deps ev # cs) \<longleftrightarrow> error_refusals cs"
  "unconfigured_check deps ev = None \<longleftrightarrow> d_Profiles deps \<noteq> None \<and> d_Policy deps \<noteq> None"
  by (simp_all add: unconfigured_check_def)

lemma compare_names_refusal:
  "compare_names env deps ev names seen ps ms = Inl (evt, err) \<Longrightarrow> ev_Outcome evt = OutcomeBlocked"
  by (induction env deps ev names seen ps ms rule: compare_names.induct)
     (auto simp: Let_def split: if_splits option.splits)

interpretation plan_dfir_triage: read_only_tool newPlanDFIRTriageHandler no_request "\<lambda>deps i. False"
proof unfold_locales
  fix env deps i w w' r assume h: "newPlanDFIRTriageHandler env deps i w = (w', r)"
  show "read_only_step False HealthCheckCall w w'"
  proof (rule guarded_read_step [OF h [unfolded newPlanDFIRTriageHandler_def]])
    show "recorded_refusals (plan_checks env deps i)" by (auto simp: plan_checks_def Let_def split: option.splits)
  next
    fix v v' r
    assume "all_pass (plan_checks env deps i)"
    then obtain c t where "plan_tokens env i = Inr (c, t)" by (auto simp: plan_checks_def Let_def split: sum.splits)
    moreover assume "(case plan_tokens env i of Inl err \<Rightarrow> (v, Inl err) | Inr (caseType, targetOS) \<Rightarrow>
        let ev = zeroEvent\<lparr>ev_Tool := ''velo_plan_dfir_triage'', ev_ClientID := pti_ClientID i\<rparr>;
            recs = plan_recommendations env deps caseType targetOS; status = StatusForCount (int (length recs));
            message = (if status = StatusEmpty then ''no loaded DFIR profile matched the requested case_type and target_os filters'' else []) in
        answer env deps (ev\<lparr>ev_RowCount := int (length recs)\<rparr>)
          \<lparr>pto_Result = \<lparr>rs_Status = status, rs_Message = message\<rparr>, pto_CaseType = caseType, pto_TargetOS = targetOS,
           pto_ClientID = pti_ClientID i, pto_Recommendations = recs,
           pto_ReadOnlyNextSteps = readOnlyWorkflowSteps (pti_ClientID i), pto_SafetyNotes = workflowSafetyNotes\<rparr> v) = (v', r)"
    ultimately show "read_only_step False HealthCheckCall v v'" by (auto simp: Let_def dest: answer_step)
  qed
qed

interpretation compare_dfir_profiles: read_only_tool newCompareDFIRProfilesHandler no_request "\<lambda>deps i. False"
  by unfold_locales
     (auto simp: newCompareDFIRProfilesHandler_def Let_def compare_names_refusal split: sum.splits prod.splits if_splits
       elim!: guarded_read_step dest: answer_step intro!: read_only_audit)

interpretation find_profiles_by_artifact: read_only_tool newFindProfilesByArtifactHandler no_request "\<lambda>deps i. False"
  by unfold_locales (auto simp: newFindProfilesByArtifactHandler_def Let_def split: option.splits
      elim!: guarded_read_step dest: answer_step)

subsection \<open>What the comparison means\<close>

abbreviation arts :: "Profile \<Rightarrow> string set" where
  "arts p \<equiv> pf_artName ` set (pf_Artifacts p)"

definition no_repeats :: "Profile \<Rightarrow> bool" where
  "no_repeats p \<longleftrightarrow> distinct (map pf_artName (pf_Artifacts p))"

lemma set_profileArtifactNames [simp]: "set (profileArtifactNames p) = arts p"
  by (simp add: profileArtifactNames_def)

lemma count_once: "distinct xs \<Longrightarrow> length (filter (\<lambda>n. n = a) xs) = (if a \<in> set xs then 1 else 0)"
  by (induction xs) auto

lemma artifactCounts_eq:
  "list_all no_repeats ps \<Longrightarrow> artifactCounts ps a = length (filter (\<lambda>p. a \<in> arts p) ps)"
proof (induction ps)
  case (Cons p ps)
  have "distinct (profileArtifactNames p)" using Cons(2) by (simp add: profileArtifactNames_def no_repeats_def)
  then show ?case using Cons by (simp add: artifactCounts_def count_once)
qed (simp add: artifactCounts_def)

lemma commonArtifacts_iff:
  assumes "list_all no_repeats ps" "ps \<noteq> []"
  shows "a \<in> set (commonArtifacts ps) \<longleftrightarrow> (\<forall>p \<in> set ps. a \<in> arts p)"
proof -
  have "length (filter (\<lambda>p. a \<in> arts p) ps) = length ps \<longleftrightarrow> (\<forall>p \<in> set ps. a \<in> arts p)"
    by (rule length_filter_all)
  moreover have "(\<forall>p \<in> set ps. a \<in> arts p) \<Longrightarrow> a \<in> set (concat (map profileArtifactNames ps))"
    using assms(2) by (cases ps) auto
  ultimately show ?thesis by (auto simp: commonArtifacts_def artifactCounts_eq [OF assms(1)])
qed

lemma find_name:
  "distinct (map pf_Name ps) \<Longrightarrow> p \<in> set ps \<Longrightarrow> find (\<lambda>q. pf_Name q = pf_Name p) (rev ps) = Some p"
proof -
  assume d: "distinct (map pf_Name ps)" and p: "p \<in> set ps"
  have "find (\<lambda>q. pf_Name q = pf_Name p) (rev ps) \<noteq> None" using p by (auto simp: find_None_iff)
  then obtain q where q: "find (\<lambda>q. pf_Name q = pf_Name p) (rev ps) = Some q" by blast
  then have "q \<in> set ps" "pf_Name q = pf_Name p" by (auto dest: find_in)
  then show ?thesis using q d p by (metis distinct_map inj_onD)
qed

lemma uniqueArtifacts_fold:
  assumes "distinct (map pf_Name qs)" "\<forall>q \<in> set qs. map_of u (pf_Name q) = None"
  shows "map_of (fold (add_unique ps) qs u) n =
    (if n \<in> pf_Name ` set qs
     then let new = filter (\<lambda>a. artifactCounts ps a = 1) (artifactSets ps n) in if new = [] then None else Some (sort new)
     else map_of u n)"
  using assms
proof (induction qs arbitrary: u)
  case (Cons q qs)
  have "map_of (add_unique ps q u) (pf_Name r) = None" if "r \<in> set qs" for r
  proof -
    have "pf_Name r \<noteq> pf_Name q" using Cons(2) that by (metis distinct.simps(2) image_eqI list.set_map list.simps(9))
    then show ?thesis using Cons(3) that by (simp add: add_unique_def Let_def map_of_gomap_put)
  qed
  then show ?case
    using Cons(1) [of "add_unique ps q u"] Cons(2,3) by (auto simp: add_unique_def Let_def map_of_gomap_put)
qed simp

definition unique_of :: "string list gomap \<Rightarrow> string \<Rightarrow> string list" where
  "unique_of m n = (case map_of m n of None \<Rightarrow> [] | Some xs \<Rightarrow> xs)"

lemma uniqueArtifacts_iff:
  assumes "list_all no_repeats ps" "distinct (map pf_Name ps)" "p \<in> set ps"
  shows "a \<in> set (unique_of (uniqueArtifacts ps) (pf_Name p)) \<longleftrightarrow> a \<in> arts p \<and> (\<forall>q \<in> set ps. q \<noteq> p \<longrightarrow> a \<notin> arts q)"
proof -
  have d: "distinct ps" using assms(2) by (simp add: distinct_map)
  have sets: "set (artifactSets ps (pf_Name p)) = arts p"
    by (simp add: artifactSets_def find_name [OF assms(2,3)])
  have "a \<in> set (unique_of (uniqueArtifacts ps) (pf_Name p)) \<longleftrightarrow> a \<in> arts p \<and> artifactCounts ps a = 1"
    using assms(2,3) sets
    by (auto simp: unique_of_def uniqueArtifacts_def uniqueArtifacts_fold Let_def filter_empty_conv split: option.splits if_splits)
  then show ?thesis
    using length_filter_one [OF d assms(3), of "\<lambda>q. a \<in> arts q"] by (auto simp: artifactCounts_eq [OF assms(1)])
qed

lemma compare_names_ok:
  assumes "compare_names env deps ev names seen ps ms = Inr (ps', [])"
  shows "\<exists>qs. ps' = ps @ qs \<and> ms = [] \<and> list_all2 (\<lambda>n p. lookup_profile deps (TrimSpace (e_trimU env) n) = Some p) names qs
    \<and> distinct (map (TrimSpace (e_trimU env)) names) \<and> set (map (TrimSpace (e_trimU env)) names) \<inter> set seen = {}"
  using assms
proof (induction env deps ev names seen ps ms rule: compare_names.induct)
  case (2 env deps ev raw names seen ps ms)
  let ?n = "TrimSpace (e_trimU env) raw"
  have ok: "DFIRProfileName ?n = None" "?n \<notin> set seen" using 2(3) by (auto simp: Let_def split: if_splits)
  show ?case
  proof (cases "lookup_profile deps ?n")
    case None
    then show ?thesis using 2(1) [OF refl refl, of ] 2(3) ok by (fastforce simp: Let_def)
  next
    case (Some p)
    then have "compare_names env deps ev names (?n # seen) (ps @ [p]) ms = Inr (ps', [])"
      using 2(3) ok by (simp add: Let_def)
    then obtain qs where qs: "ps' = (ps @ [p]) @ qs" "ms = []"
      "list_all2 (\<lambda>n p. lookup_profile deps (TrimSpace (e_trimU env) n) = Some p) names qs"
      "distinct (map (TrimSpace (e_trimU env)) names)" "set (map (TrimSpace (e_trimU env)) names) \<inter> set (?n # seen) = {}"
      using 2(2) [OF refl refl] ok Some by auto
    then show ?thesis using Some ok by (intro exI [of _ "p # qs"]) auto
  qed
qed auto

lemma sort_eq_Nil: "sort xs = [] \<longleftrightarrow> xs = []"
  by (metis length_0_conv length_sort)

lemma compare_success:
  assumes "newCompareDFIRProfilesHandler env deps i w = (w', Inr out)" "cpo_MissingProfiles out = []"
  shows "\<exists>ps. compare_names env deps (zeroEvent\<lparr>ev_Tool := ''velo_compare_dfir_profiles''\<rparr>) (cpi_Names i) [] [] [] = Inr (ps, [])
    \<and> length (cpi_Names i) \<ge> 2 \<and> cpo_CommonArtifacts out = commonArtifacts ps \<and> cpo_UniqueArtifacts out = uniqueArtifacts ps"
  using assms
  by (auto simp: newCompareDFIRProfilesHandler_def Let_def guarded_def sort_eq_Nil refuse_if_def unconfigured_check_def answer_def
      split: if_splits sum.splits prod.splits)

text \<open>
  When the comparison succeeds on profiles that list no artifact twice, it
  compares exactly the requested profiles, the common artifacts are those every one of them
  lists, and the artifacts reported as unique to a profile are those it lists and no other
  compared profile does.
\<close>

theorem compare_exact:
  assumes "newCompareDFIRProfilesHandler env deps i w = (w', Inr out)" "cpo_MissingProfiles out = []"
    and reg: "d_Profiles deps = Some reg" "wf_profiles (rg_profiles reg)"
    and rep: "list_all no_repeats (Registry_List reg)"
  shows "\<exists>ps. map pf_Name ps = map (TrimSpace (e_trimU env)) (cpi_Names i) \<and> set ps \<subseteq> set (Registry_List reg)
    \<and> (\<forall>a. a \<in> set (cpo_CommonArtifacts out) \<longleftrightarrow> (\<forall>p \<in> set ps. a \<in> arts p))
    \<and> (\<forall>p \<in> set ps. \<forall>a. a \<in> set (unique_of (cpo_UniqueArtifacts out) (pf_Name p))
          \<longleftrightarrow> a \<in> arts p \<and> (\<forall>q \<in> set ps. q \<noteq> p \<longrightarrow> a \<notin> arts q))"
proof -
  obtain ps where names: "compare_names env deps (zeroEvent\<lparr>ev_Tool := ''velo_compare_dfir_profiles''\<rparr>) (cpi_Names i) [] [] [] = Inr (ps, [])"
    and two: "length (cpi_Names i) \<ge> 2"
    and out: "cpo_CommonArtifacts out = commonArtifacts ps" "cpo_UniqueArtifacts out = uniqueArtifacts ps"
    using compare_success [OF assms(1,2)] by blast
  have l2: "list_all2 (\<lambda>n p. lookup_profile deps (TrimSpace (e_trimU env) n) = Some p) (cpi_Names i) ps"
    and dist: "distinct (map (TrimSpace (e_trimU env)) (cpi_Names i))"
    using compare_names_ok [OF names] by auto
  have named: "pf_Name p = n \<and> p \<in> set (Registry_List reg)" if "lookup_profile deps n = Some p" for n p
    using that reg Registry_Get_wf [OF reg(2)] Registry_List_set [OF reg(2)] by (auto simp: lookup_profile_def)
  have eq: "map pf_Name ps = map (TrimSpace (e_trimU env)) (cpi_Names i)"
    using l2 named by (induction rule: list_all2_induct) auto
  have sub: "set ps \<subseteq> set (Registry_List reg)"
    using l2 named by (induction rule: list_all2_induct) auto
  have "ps \<noteq> []" using two l2 by (auto dest: list_all2_lengthD)
  moreover have "list_all no_repeats ps" using rep sub by (auto simp: list_all_iff)
  ultimately show ?thesis
    using eq sub dist commonArtifacts_iff uniqueArtifacts_iff by (intro exI [of _ ps]) (simp add: out)
qed

definition compare_registry :: Registry where
  "compare_registry = \<lparr>rg_profiles = [(''a'', sample_profile ''a''), (''b'', sample_profile ''b'')]\<rparr>"

definition compare_deps :: Deps where
  "compare_deps = sample_deps\<lparr>d_Profiles := Some compare_registry\<rparr>"

lemma compare_names_valid: "DFIRProfileName ''a'' = None" "DFIRProfileName ''b'' = None"
  "TrimSpace f ''a'' = ''a''" "TrimSpace f ''b'' = ''b''"
  by code_simp+

lemma compare_registry_wf: "wf_profiles (rg_profiles compare_registry)" "list_all no_repeats (Registry_List compare_registry)"
  "set (Registry_List compare_registry) = {sample_profile ''a'', sample_profile ''b''}"
  by (simp_all add: compare_registry_def wf_profiles_def wf_gomap_def limits_ok_def sample_profile_def
      Registry_List_def no_repeats_def)

theorem compare_exact_witness:
  "\<exists>w' out. newCompareDFIRProfilesHandler sample_env compare_deps \<lparr>cpi_Names = [''a'', ''b'']\<rparr> sample_world = (w', Inr out)
     \<and> ''Windows.System.Pslist'' \<in> set (cpo_CommonArtifacts out)"
proof -
  let ?i = "\<lparr>cpi_Names = [''a'', ''b'']\<rparr>"
  have "compare_names sample_env compare_deps ev (cpi_Names ?i) [] [] [] = Inr ([sample_profile ''a'', sample_profile ''b''], [])" for ev
    by (simp add: compare_names_valid Let_def compare_deps_def lookup_profile_def Registry_Get_def compare_registry_def)
  then have "\<exists>w' out. newCompareDFIRProfilesHandler sample_env compare_deps ?i sample_world = (w', Inr out) \<and> cpo_MissingProfiles out = []"
    by (simp add: newCompareDFIRProfilesHandler_def Let_def guarded_def refuse_if_def unconfigured_check_def
        compare_deps_def sample_deps_def answer_def)
  then obtain w' out where run: "newCompareDFIRProfilesHandler sample_env compare_deps ?i sample_world = (w', Inr out)"
    and none: "cpo_MissingProfiles out = []" by blast
  have reg: "d_Profiles compare_deps = Some compare_registry" by (simp add: compare_deps_def)
  obtain ps where sub: "set ps \<subseteq> set (Registry_List compare_registry)"
    and common: "\<And>a. a \<in> set (cpo_CommonArtifacts out) \<longleftrightarrow> (\<forall>p \<in> set ps. a \<in> arts p)"
    using compare_exact [OF run none reg compare_registry_wf(1,2)] by blast
  have "''Windows.System.Pslist'' \<in> arts p" if "p \<in> set ps" for p
    using that sub unfolding compare_registry_wf(3) by (auto simp: sample_profile_def)
  then show ?thesis using run common by blast
qed

text \<open>
  The comparison counts occurrences, not profiles: two profiles that load and
  validate can be compared such that an artifact one of them does not list at all is reported
  as common, because the other lists it twice.
\<close>

theorem compare_counts_occurrences:
  "\<exists>p q a. ValidateProfile p (\<lambda>n. True) = None \<and> ValidateProfile q (\<lambda>n. True) = None
     \<and> a \<in> set (commonArtifacts [p, q]) \<and> a \<notin> arts q"
proof -
  let ?a = "\<lparr>pf_artName = ''A.B'', pf_Parameters = []\<rparr>" and ?b = "\<lparr>pf_artName = ''C.D'', pf_Parameters = []\<rparr>"
  let ?p = "(sample_profile ''p'')\<lparr>pf_Artifacts := [?a, ?a]\<rparr>" and ?q = "(sample_profile ''q'')\<lparr>pf_Artifacts := [?b]\<rparr>"
  have "''A.B'' \<in> set (commonArtifacts [?p, ?q])" by code_simp
  moreover have "''A.B'' \<notin> arts ?q" by simp
  moreover have "ValidateProfile ?p (\<lambda>n. True) = None" "ValidateProfile ?q (\<lambda>n. True) = None"
    by (simp_all add: ValidateProfile_None_iff limits_ok_def sample_profile_def)
  ultimately show ?thesis by blast
qed

subsection \<open>The plan agrees with the gate\<close>

lemma plan_from_loaded:
  assumes "newPlanDFIRTriageHandler env deps i w = (w', Inr out)" "r \<in> set (pto_Recommendations out)"
  shows "\<exists>p reasons. p \<in> set (loaded_profiles deps) \<and> r = workflowRecommendation env deps p reasons"
proof -
  have "pto_Recommendations out = plan_recommendations env deps (pto_CaseType out) (pto_TargetOS out)"
    using assms(1)
    by (auto simp: newPlanDFIRTriageHandler_def guarded_def plan_checks_def check_def unconfigured_check_def refuse_if_def
        Let_def answer_def split: sum.splits prod.splits option.splits if_splits)
  then obtain c t where "r \<in> set (plan_recommendations env deps c t)" using assms(2) by metis
  then obtain p where "p \<in> set (loaded_profiles deps)" "r = workflowRecommendation env deps p (workflowMatchReasons env p c t)"
    unfolding plan_recommendations_def by auto
  then show ?thesis by blast
qed

text \<open>
  The plan's guidance agrees with the write gate: for a recommended profile
  and an otherwise valid collection request, the checks before the approval pass exactly when the
  profile has a well-formed name and the plan says it is allowed by policy with all its
  artifacts allowlisted.
\<close>

theorem plan_agrees_with_gate:
  assumes "newPlanDFIRTriageHandler env deps i w = (w', Inr out)" "r \<in> set (pto_Recommendations out)"
    and reg: "d_Profiles deps = Some reg" "wf_profiles (rg_profiles reg)"
    and fields: "fst (writePilotEnabled deps)" "ClientID (dp_ClientID j) = None" "CaseID (dp_CaseID j) = None"
      "Reason (dp_Reason j) = None" "Requester (dp_Requester j) = None" "ApprovalReference (dp_ApprovalReference j) = None"
    and name: "dp_Profile j = wr_Name r"
  shows "all_pass (profile_checks env deps j) \<longleftrightarrow> DFIRProfileName (wr_Name r) = None \<and> wr_AllowedByPolicy r \<and> wr_ArtifactsAllowlisted r"
proof -
  obtain p reasons where p: "p \<in> set (loaded_profiles deps)" "r = workflowRecommendation env deps p reasons"
    using plan_from_loaded [OF assms(1,2)] by blast
  have look: "lookup_profile deps (pf_Name p) = Some p"
    using p(1) reg Registry_List_set [OF reg(2)] by (simp add: loaded_profiles_def lookup_profile_def)
  obtain pol where pol: "d_Policy deps = Some pol" using fields(1) by (auto simp: pilot_enabled_iff policy_allows_def split: option.splits)
  have "wr_Name r = pf_Name p" "wr_AllowedByPolicy r = ProfileAllowed pol (pf_Name p)"
    "wr_ArtifactsAllowlisted r \<longleftrightarrow> ValidateProfile p (ArtifactAllowed pol) = None"
    by (simp_all add: p(2) workflowRecommendation_def policy_allows_def profilePolicyValidation_def pol split: option.splits)
  then show ?thesis
    using fields look reg(1) by (auto simp: profile_checks_def Let_def name validate_profile_def pol policy_allows_def)
qed

definition plan_deps :: Deps where
  "plan_deps = sample_deps\<lparr>d_Profiles := Some \<lparr>rg_profiles = [(''windows_basic_triage'', sample_profile ''windows_basic_triage'')]\<rparr>\<rparr>"

definition plan_request :: CollectDFIRProfileInput where
  "plan_request = \<lparr>dp_ClientID = ''C.0123456789abcdef'', dp_Profile = ''windows_basic_triage'', dp_CaseID = ''CASE-7'',
     dp_Reason = ''triage'', dp_Requester = ''analyst'', dp_ApprovalReference = ''REF-1''\<rparr>"

theorem plan_agrees_with_gate_witness: "all_pass (profile_checks sample_env plan_deps plan_request)"
proof -
  let ?i = "\<lparr>pti_CaseType = [], pti_TargetOS = [], pti_ClientID = []\<rparr>"
  let ?p = "sample_profile ''windows_basic_triage''"
  let ?reg = "\<lparr>rg_profiles = [(''windows_basic_triage'', ?p)]\<rparr> :: Registry"
  let ?r = "workflowRecommendation sample_env plan_deps ?p [''profile is loaded'']"
  have tok: "plan_tokens sample_env ?i = Inr ([], [])" by code_simp
  have "\<exists>w' out. newPlanDFIRTriageHandler sample_env plan_deps ?i sample_world = (w', Inr out) \<and> ?r \<in> set (pto_Recommendations out)"
    by (simp add: newPlanDFIRTriageHandler_def plan_checks_def Let_def guarded_def check_def unconfigured_check_def refuse_if_def
        plan_deps_def sample_deps_def answer_def tok plan_recommendations_def loaded_profiles_def Registry_List_def
        workflowMatchReasons_def os_excluded_def)
  then obtain w' out where run: "newPlanDFIRTriageHandler sample_env plan_deps ?i sample_world = (w', Inr out)"
    and r: "?r \<in> set (pto_Recommendations out)" by blast
  have reg: "d_Profiles plan_deps = Some ?reg" "wf_profiles (rg_profiles ?reg)"
    by (simp_all add: plan_deps_def wf_profiles_def wf_gomap_def limits_ok_def sample_profile_def)
  have pilot: "fst (writePilotEnabled plan_deps)"
    by (simp add: pilot_enabled_iff policy_allows_def plan_deps_def sample_deps_def ReadOnly_def NewEngine_def
        PolicyModeControlled_def PolicyModeReadOnly_def)
  have fields: "ClientID (dp_ClientID plan_request) = None" "CaseID (dp_CaseID plan_request) = None"
    "Reason (dp_Reason plan_request) = None" "Requester (dp_Requester plan_request) = None"
    "ApprovalReference (dp_ApprovalReference plan_request) = None" "DFIRProfileName ''windows_basic_triage'' = None"
    by code_simp+
  have name: "dp_Profile plan_request = wr_Name ?r" "wr_Name ?r = ''windows_basic_triage''"
    by (simp_all add: plan_request_def workflowRecommendation_def sample_profile_def)
  have "wr_AllowedByPolicy ?r" "wr_ArtifactsAllowlisted ?r"
    by (simp_all add: workflowRecommendation_def plan_deps_def sample_deps_def policy_allows_def ProfileAllowed_def NewEngine_def
        Default_def sample_profile_def profilePolicyValidation_def ArtifactAllowed_def ValidateProfile_None_iff limits_ok_def
        split: option.splits)
  then show ?thesis
    using plan_agrees_with_gate [OF run r reg pilot fields(1-5) name(1)] fields(6) name(2) by simp
qed

end
