(* ===== verification/Session.thy ===== *)
theory Session
  imports Gated_Tools Approve_CLI Tools_Flows Tools_Hunts_Read Tools_Visibility Tools_Workflow
begin

text \<open>
  A session of the server: \<^verbatim>\<open>New\<close> of \<^verbatim>\<open>internal/mcpserver/server.go\<close> registers 28 tools, and whoever
  drives the client calls them in any order with any input. \<open>tool_call\<close> has one constructor per
  registered tool, \<open>dispatch\<close> runs the registered handler and \<open>session\<close> a sequence of calls. Encoding
  and decoding of inputs and outputs belong to the protocol library.

  \<open>session_harmless_when_disabled\<close>: without controlled mode and an approval store nothing a client
  does has an effect. \<open>session_single_use\<close>: with them, one approval serves at most one call.
  \<open>mock_session_spends_nothing\<close>: without a real backend no approval is lost.
  \<open>read_tools_only_read\<close> sums up the twenty read tools.
\<close>

subsection \<open>Tools\<close>

datatype read_tool_call =
    CallHealthCheck
  | CallSearchClients SearchClientsInput
  | CallGetClientInfo GetClientInfoInput
  | CallListArtifactNames
  | CallGetArtifactDetails GetArtifactDetailsInput
  | CallListDFIRProfiles
  | CallGetDFIRProfile GetDFIRProfileInput
  | CallValidateDFIRProfile ValidateDFIRProfileInput
  | CallPlanDFIRTriage PlanDFIRTriageInput
  | CallCompareDFIRProfiles CompareDFIRProfilesInput
  | CallFindProfilesByArtifact FindProfilesByArtifactInput
  | CallListFlows ListFlowsInput
  | CallGetFlowStatus GetFlowStatusInput
  | CallGetFlowResults GetFlowResultsInput
  | CallListFlowUploads ListFlowUploadsInput
  | CallGetFlowUploadMetadata GetFlowUploadMetadataInput
  | CallPreviewHuntScope PreviewHuntScopeInput
  | CallListHunts ListHuntsInput
  | CallGetHuntStatus GetHuntStatusInput
  | CallGetHuntResults GetHuntResultsInput

datatype tool_call = Read read_tool_call | Gated gated_call

fun dispatch_read :: "env \<Rightarrow> Deps \<Rightarrow> read_tool_call \<Rightarrow> world \<Rightarrow> world" where
  "dispatch_read env deps CallHealthCheck w = fst (newHealthCheckHandler env deps () w)"
| "dispatch_read env deps (CallSearchClients i) w = fst (newSearchClientsHandler env deps i w)"
| "dispatch_read env deps (CallGetClientInfo i) w = fst (newGetClientInfoHandler env deps i w)"
| "dispatch_read env deps CallListArtifactNames w = fst (newListArtifactNamesHandler env deps () w)"
| "dispatch_read env deps (CallGetArtifactDetails i) w = fst (newGetArtifactDetailsHandler env deps i w)"
| "dispatch_read env deps CallListDFIRProfiles w = fst (newListDFIRProfilesHandler env deps () w)"
| "dispatch_read env deps (CallGetDFIRProfile i) w = fst (newGetDFIRProfileHandler env deps i w)"
| "dispatch_read env deps (CallValidateDFIRProfile i) w = fst (newValidateDFIRProfileHandler env deps i w)"
| "dispatch_read env deps (CallPlanDFIRTriage i) w = fst (newPlanDFIRTriageHandler env deps i w)"
| "dispatch_read env deps (CallCompareDFIRProfiles i) w = fst (newCompareDFIRProfilesHandler env deps i w)"
| "dispatch_read env deps (CallFindProfilesByArtifact i) w = fst (newFindProfilesByArtifactHandler env deps i w)"
| "dispatch_read env deps (CallListFlows i) w = fst (newListFlowsHandler env deps i w)"
| "dispatch_read env deps (CallGetFlowStatus i) w = fst (newGetFlowStatusHandler env deps i w)"
| "dispatch_read env deps (CallGetFlowResults i) w = fst (newGetFlowResultsHandler env deps i w)"
| "dispatch_read env deps (CallListFlowUploads i) w = fst (newListFlowUploadsHandler env deps i w)"
| "dispatch_read env deps (CallGetFlowUploadMetadata i) w = fst (newGetFlowUploadMetadataHandler env deps i w)"
| "dispatch_read env deps (CallPreviewHuntScope i) w = fst (newPreviewHuntScopeHandler env deps i w)"
| "dispatch_read env deps (CallListHunts i) w = fst (newListHuntsHandler env deps i w)"
| "dispatch_read env deps (CallGetHuntStatus i) w = fst (newGetHuntStatusHandler env deps i w)"
| "dispatch_read env deps (CallGetHuntResults i) w = fst (newGetHuntResultsHandler env deps i w)"

fun dispatch_gated :: "env \<Rightarrow> Deps \<Rightarrow> gated_call \<Rightarrow> world \<Rightarrow> world" where
  "dispatch_gated env deps (CallCollectArtifact i) w = fst (newCollectArtifactHandler env deps i w)"
| "dispatch_gated env deps (CallCollectDFIRProfile i) w = fst (newCollectDFIRProfileHandler env deps i w)"
| "dispatch_gated env deps (CallCancelFlow i) w = fst (newCancelFlowHandler env deps i w)"
| "dispatch_gated env deps (CallDownloadFlowUpload i) w = fst (newDownloadFlowUploadHandler env deps i w)"
| "dispatch_gated env deps (CallStartHunt i) w = fst (newStartHuntHandler env deps i w)"
| "dispatch_gated env deps (CallStartDFIRHunt i) w = fst (newStartDFIRHuntHandler env deps i w)"
| "dispatch_gated env deps (CallCancelHunt i) w = fst (newCancelHuntHandler env deps i w)"
| "dispatch_gated env deps (CallHuntIOC i) w = fst (newHuntIOCHandler env deps i w)"

fun dispatch :: "env \<Rightarrow> Deps \<Rightarrow> tool_call \<Rightarrow> world \<Rightarrow> world" where
  "dispatch env deps (Read c) w = dispatch_read env deps c w"
| "dispatch env deps (Gated c) w = dispatch_gated env deps c w"

fun gated_reference :: "gated_call \<Rightarrow> string" where
  "gated_reference (CallCollectArtifact i) = ci_ApprovalReference i"
| "gated_reference (CallCollectDFIRProfile i) = dp_ApprovalReference i"
| "gated_reference (CallCancelFlow i) = cfi_ApprovalReference i"
| "gated_reference (CallDownloadFlowUpload i) = df_ApprovalReference i"
| "gated_reference (CallStartHunt i) = sh_ApprovalID i"
| "gated_reference (CallStartDFIRHunt i) = sd_ApprovalID i"
| "gated_reference (CallCancelHunt i) = ch_ApprovalID i"
| "gated_reference (CallHuntIOC i) = hi_ApprovalID i"

subsection \<open>Sessions\<close>

text \<open>The effects of one call, and the log of a session: each call with its effects.\<close>

definition call_effects :: "env \<Rightarrow> Deps \<Rightarrow> tool_call \<Rightarrow> world \<Rightarrow> effect list" where
  "call_effects env deps c w = drop (length (w_trace w)) (w_trace (dispatch env deps c w))"

fun session :: "env \<Rightarrow> Deps \<Rightarrow> tool_call list \<Rightarrow> world \<Rightarrow> world \<times> (tool_call \<times> effect list) list" where
  "session env deps [] w = (w, [])"
| "session env deps (c # cs) w =
     (case session env deps cs (dispatch env deps c w) of
        (w', log) \<Rightarrow> (w', (c, call_effects env deps c w) # log))"

subsection \<open>One call\<close>

lemma call_effects_fst: "call_effects env deps c w = effects_of (\<lambda>w. (dispatch env deps c w, ())) w"
  by (simp add: call_effects_def effects_of_def)

lemma effects_of_fst: "fst (h w) = w' \<Longrightarrow> effects_of h w = drop (length (w_trace w)) (w_trace w')"
  by (simp add: effects_of_def)

lemmas reads_never_write = health_check.never_writes search_clients.never_writes get_client_info.never_writes
  list_artifact_names.never_writes get_artifact_details.never_writes list_dfir_profiles.never_writes
  get_dfir_profile.never_writes validate_dfir_profile.never_writes plan_dfir_triage.never_writes
  compare_dfir_profiles.never_writes find_profiles_by_artifact.never_writes list_flows.never_writes
  get_flow_status.never_writes get_flow_results.never_writes list_flow_uploads.never_writes
  get_flow_upload_metadata.never_writes preview_hunt_scope.never_writes list_hunts.never_writes
  get_hunt_status.never_writes get_hunt_results.never_writes

lemmas reads_keep_store = health_check.keeps_store search_clients.keeps_store get_client_info.keeps_store
  list_artifact_names.keeps_store get_artifact_details.keeps_store list_dfir_profiles.keeps_store
  get_dfir_profile.keeps_store validate_dfir_profile.keeps_store plan_dfir_triage.keeps_store
  compare_dfir_profiles.keeps_store find_profiles_by_artifact.keeps_store list_flows.keeps_store
  get_flow_status.keeps_store get_flow_results.keeps_store list_flow_uploads.keeps_store
  get_flow_upload_metadata.keeps_store preview_hunt_scope.keeps_store list_hunts.keeps_store
  get_hunt_status.keeps_store get_hunt_results.keeps_store

lemma read_call_harmless: "harmless (call_effects env deps (Read c) w)"
  using reads_never_write [unfolded effects_of_def] by (cases c) (simp_all add: call_effects_def)

lemma read_call_store: "w_store (dispatch env deps (Read c) w) = w_store w"
  by (cases c) (simp_all add: reads_keep_store)

lemmas reads_audited_once = health_check.audited_once search_clients.audited_once get_client_info.audited_once
  list_artifact_names.audited_once get_artifact_details.audited_once list_dfir_profiles.audited_once
  get_dfir_profile.audited_once validate_dfir_profile.audited_once plan_dfir_triage.audited_once
  compare_dfir_profiles.audited_once find_profiles_by_artifact.audited_once list_flows.audited_once
  get_flow_status.audited_once get_flow_results.audited_once list_flow_uploads.audited_once
  get_flow_upload_metadata.audited_once preview_hunt_scope.audited_once list_hunts.audited_once
  get_hunt_status.audited_once get_hunt_results.audited_once

lemmas reads_at_most_one = health_check.at_most_one_read search_clients.at_most_one_read get_client_info.at_most_one_read
  list_artifact_names.at_most_one_read get_artifact_details.at_most_one_read list_dfir_profiles.at_most_one_read
  get_dfir_profile.at_most_one_read validate_dfir_profile.at_most_one_read plan_dfir_triage.at_most_one_read
  compare_dfir_profiles.at_most_one_read find_profiles_by_artifact.at_most_one_read list_flows.at_most_one_read
  get_flow_status.at_most_one_read get_flow_results.at_most_one_read list_flow_uploads.at_most_one_read
  get_flow_upload_metadata.at_most_one_read preview_hunt_scope.at_most_one_read list_hunts.at_most_one_read
  get_hunt_status.at_most_one_read get_hunt_results.at_most_one_read

lemmas gated_pay = collect_artifact.pays collect_dfir_profile.pays cancel_flow.pays download_flow_upload.pays start_hunt.pays
  start_dfir_hunt.pays cancel_hunt.pays hunt_ioc.pays

lemmas gated_account = collect_artifact.accounts collect_dfir_profile.accounts cancel_flow.accounts download_flow_upload.accounts
  start_hunt.accounts start_dfir_hunt.accounts cancel_hunt.accounts hunt_ioc.accounts

lemmas gated_disabled = collect_artifact.disabled collect_dfir_profile.disabled cancel_flow.disabled download_flow_upload.disabled
  start_hunt.disabled start_dfir_hunt.disabled cancel_hunt.disabled hunt_ioc.disabled

lemmas gated_unsupported = collect_artifact.unsupported collect_dfir_profile.unsupported cancel_flow.unsupported
  download_flow_upload.unsupported start_hunt.unsupported start_dfir_hunt.unsupported cancel_hunt.unsupported
  hunt_ioc.unsupported

lemma read_call_audited:
  "length (audits (call_effects env deps (Read c) w)) = (if w_audit w \<noteq> None then 1 else 0)"
  using reads_audited_once [unfolded effects_of_def] by (cases c) (simp_all add: call_effects_def)

lemma read_call_reads: "length (reads (call_effects env deps (Read c) w)) \<le> 1"
proof -
  have one: "xs = [] \<or> P \<and> xs = [x] \<Longrightarrow> length xs \<le> 1" for xs :: "read_call list" and x P by auto
  show ?thesis
    using reads_at_most_one [THEN one, unfolded effects_of_def] by (cases c) (simp_all add: call_effects_def)
qed

lemma gated_call_pays:
  "harmless (call_effects env deps (Gated c) w)
   \<or> StoreConsume (gated_reference c) (Inr ()) \<in> set (call_effects env deps (Gated c) w)"
  using gated_pay [unfolded effects_of_def] by (cases c) (simp_all add: call_effects_def)

lemma gated_call_accounted: "lawful env \<Longrightarrow> accounted w (dispatch env deps (Gated c) w)"
  by (cases c) (simp_all add: gated_account)

lemma gated_call_disabled:
  "\<not> fst (writePilotEnabled deps) \<Longrightarrow> harmless (call_effects env deps (Gated c) w)
    \<and> w_store (dispatch env deps (Gated c) w) = w_store w"
  using gated_disabled [unfolded effects_of_def] by (cases c) (simp_all add: call_effects_def)

lemma gated_call_unsupported: "supports_nothing deps \<Longrightarrow> harmless (call_effects env deps (Gated c) w)"
  using gated_unsupported [unfolded effects_of_def] by (cases c) (simp_all add: call_effects_def)

text \<open>
  Each of the twenty read tools, in any mode, on any input: no write call, no
  approval consumed, no file written, at most one call on the read client, exactly one audit
  event when there is a sink, and the approval store untouched.
\<close>

theorem read_tools_only_read:
  "harmless (call_effects env deps (Read c) w) \<and> length (reads (call_effects env deps (Read c) w)) \<le> 1
   \<and> length (audits (call_effects env deps (Read c) w)) = (if w_audit w \<noteq> None then 1 else 0)
   \<and> w_store (dispatch env deps (Read c) w) = w_store w"
  by (intro conjI read_call_harmless read_call_reads read_call_audited read_call_store)

subsection \<open>Whole sessions\<close>

lemma disabled_log:
  "\<not> fst (writePilotEnabled deps) \<Longrightarrow> list_all (\<lambda>call. harmless (snd call)) (snd (session env deps cs w))"
proof (induction cs arbitrary: w)
  case (Cons c cs)
  have "harmless (call_effects env deps c w)"
    using gated_call_disabled [OF Cons.prems] read_call_harmless by (cases c) simp_all
  with Cons.IH [OF Cons.prems, of "dispatch env deps c w"] show ?case
    by (cases "session env deps cs (dispatch env deps c w)") simp
qed simp

lemma disabled_store: "\<not> fst (writePilotEnabled deps) \<Longrightarrow> w_store (fst (session env deps cs w)) = w_store w"
proof (induction cs arbitrary: w)
  case (Cons c cs)
  have "w_store (dispatch env deps c w) = w_store w"
    using gated_call_disabled [OF Cons.prems] read_call_store by (cases c) simp_all
  with Cons.IH [OF Cons.prems, of "dispatch env deps c w"] show ?case
    by (cases "session env deps cs (dispatch env deps c w)") simp
qed simp

lemma mock_log: "supports_nothing deps \<Longrightarrow> list_all (\<lambda>call. harmless (snd call)) (snd (session env deps cs w))"
proof (induction cs arbitrary: w)
  case (Cons c cs)
  have "harmless (call_effects env deps c w)"
    using gated_call_unsupported [OF Cons.prems] read_call_harmless by (cases c) simp_all
  with Cons.IH [OF Cons.prems, of "dispatch env deps c w"] show ?case
    by (cases "session env deps cs (dispatch env deps c w)") simp
qed simp

text \<open>
  Unless the policy engine is in controlled mode and an approval store is
  configured, no sequence of tool calls makes a write call, consumes an approval or writes
  a file, and the store is as it was.
\<close>

theorem session_harmless_when_disabled:
  assumes "\<not> fst (writePilotEnabled deps)"
  shows "list_all (\<lambda>call. harmless (snd call)) (snd (session env deps cs w)) \<and> w_store (fst (session env deps cs w)) = w_store w"
  using disabled_log [OF assms] disabled_store [OF assms] by blast

theorem session_harmless_when_disabled_witness:
  "list_all (\<lambda>call. harmless (snd call)) (snd (session sample_env (sample_deps\<lparr>d_Policy := Some (NewEngine (c_Policy Default))\<rparr>)
     [Gated (CallCollectArtifact sample_input), Read CallHealthCheck] sample_world))"
  by (rule session_harmless_when_disabled [THEN conjunct1])
     (simp add: writePilotEnabled_def ReadOnly_def NewEngine_def Default_def)

text \<open>
  With a backend that supports no write operation, which is what mock mode
  configures, no sequence of calls makes a write call, writes a file or consumes an approval: an
  approval is not lost on a call that cannot be carried out.
\<close>

theorem mock_session_spends_nothing:
  assumes "supports_nothing deps"
  shows "list_all (\<lambda>call. harmless (snd call)) (snd (session env deps cs w))"
  using assms by (rule mock_log)

theorem mock_session_spends_nothing_witness:
  "list_all (\<lambda>call. harmless (snd call)) (snd (session sample_env (sample_deps\<lparr>d_WriteClient := Some placeholderClient\<rparr>)
     [Gated (CallCollectArtifact sample_input)] sample_world))"
  by (rule mock_session_spends_nothing) (simp add: supports_nothing_def placeholderClient_def)

text \<open>The calls of a session made under one approval reference that had an effect.\<close>

definition executions :: "string \<Rightarrow> (tool_call \<times> effect list) list \<Rightarrow> nat" where
  "executions i log = length (filter (\<lambda>(c, t). case c of Gated g \<Rightarrow> gated_reference g = i \<and> \<not> harmless t | Read r \<Rightarrow> False) log)"

lemma accounted_effects:
  assumes "accounted w (dispatch env deps c w)"
  shows "spent i (call_effects env deps c w) + is_spent i (w_store w) \<le> is_spent i (w_store (dispatch env deps c w))"
  using assms by (auto simp: accounted_def call_effects_def)

lemma execution_spends:
  "executions i [(c, call_effects env deps c w)] \<le> spent i (call_effects env deps c w)"
proof (cases c)
  case (Gated g)
  then show ?thesis using gated_call_pays [of env deps g w] spent_mem [of i "()"]
    by (auto simp: executions_def Suc_le_eq)
qed (simp add: executions_def)

lemma session_spends:
  assumes "lawful env"
  shows "executions i (snd (session env deps cs w)) + is_spent i (w_store w) \<le> 1"
proof (induction cs arbitrary: w)
  case Nil
  then show ?case by (simp add: executions_def is_spent_def)
next
  case (Cons c cs)
  have "spent i (call_effects env deps c w) + is_spent i (w_store w) \<le> is_spent i (w_store (dispatch env deps c w))"
    using accounted_effects [OF gated_call_accounted [OF assms]] spent_harmless [OF read_call_harmless, of i] read_call_store
    by (cases c) simp_all
  moreover have "executions i (snd (session env deps (c # cs) w))
      = executions i [(c, call_effects env deps c w)] + executions i (snd (session env deps cs (dispatch env deps c w)))"
    by (simp add: executions_def split: prod.splits)
  ultimately show ?case using Cons.IH [of "dispatch env deps c w"] execution_spends [of i c env deps w] by linarith
qed

text \<open>
  Property C2 (safety). Over a whole session, whatever the calls and their order, of all the gated
  calls made under one approval reference at most one has any effect (a write call, a
  consumption, a file), and none if the reference was already consumed, as long as no
  other process turns a consumed approval back into an unconsumed one. So an approval cannot be replayed, neither
  with the same tool nor with another.
\<close>

theorem session_single_use:
  assumes "lawful env"
  shows "executions i (snd (session env deps cs w)) \<le> (if consumed_in (records_at (w_store w)) i then 0 else 1)"
  using session_spends [OF assms, of i deps cs w] by (simp add: is_spent_def split: if_splits)

theorem session_single_use_witness:
  "executions ''REF-1'' (snd (session sample_env sample_deps
     [Gated (CallCollectArtifact sample_input), Read CallHealthCheck, Gated (CallCollectArtifact sample_input)] sample_world)) \<le> 1"
proof -
  have "lawful sample_env" by (simp add: lawful_def sample_env_def)
  from session_single_use [OF this, of "''REF-1''" sample_deps
      "[Gated (CallCollectArtifact sample_input), Read CallHealthCheck, Gated (CallCollectArtifact sample_input)]" sample_world]
  show ?thesis by (simp only: split: if_splits)
qed

end
