(* ===== verification/Startup.thy ===== *)
theory Startup
  imports Session
begin

text \<open>
  Starting the server: \<^verbatim>\<open>config.Load\<close> and, from \<^verbatim>\<open>cmd/agentic-velociraptor-mcp/main.go\<close>,
  \<^verbatim>\<open>resolveProfilesDir\<close>, \<^verbatim>\<open>buildDeps\<close> and \<^verbatim>\<open>runServer\<close> up to the call of \<^verbatim>\<open>Run\<close>. The file system, the YAML
  decoder and the construction of a gRPC client are fields of \<open>startup_env\<close>; the configuration is
  whatever the decoder yields. A nil sink, which only an unset \<^verbatim>\<open>Deps.Audit\<close> has, cannot arise here.

  \<open>startup_gates\<close> says what the configuration decides about the running server, and
  \<open>read_only_deployment\<close> carries the session theorems over to a server started from it.
\<close>

record startup_env =
  su_ReadFile :: "string \<Rightarrow> gerror + string"
  su_Unmarshal :: "string \<Rightarrow> gerror + Config"
  su_dfir :: dfir_io
  su_audit :: audit_env
  su_logs :: "string \<Rightarrow> nat \<rightharpoonup> logfile"
  su_store :: store_env
  su_NewGRPCClient :: "string \<Rightarrow> string \<Rightarrow> int \<Rightarrow> int \<Rightarrow> gerror + (read_client \<times> write_client)"
  su_isDir :: "string \<Rightarrow> bool"
  su_Executable :: "string option"

definition Load :: "startup_env \<Rightarrow> string \<Rightarrow> gerror + Config" where
  "Load su path =
     (case su_ReadFile su path of
        Inl err \<Rightarrow> Inl (Errorf [Lit (''config: read '' @ path @ '': ''), Wrap err])
      | Inr data \<Rightarrow>
          (case su_Unmarshal su data of
             Inl err \<Rightarrow> Inl (Errorf [Lit (''config: parse '' @ path @ '': ''), Wrap err])
           | Inr cfg \<Rightarrow> Inr cfg))"

text \<open>\<^verbatim>\<open>filepath.Dir\<close>: all but the last element.\<close>

definition filepath_Dir :: "string \<Rightarrow> string" where
  "filepath_Dir path = Clean (rev (dropWhile (\<lambda>c. c \<noteq> CHR ''/'') (rev path)))"

definition resolveProfilesDir :: "startup_env \<Rightarrow> string \<Rightarrow> bool \<Rightarrow> string" where
  "resolveProfilesDir su dir explicit =
     (if explicit then dir
      else if su_isDir su dir then dir
      else case su_Executable su of
        Some exe \<Rightarrow> let candidate = Join (filepath_Dir exe) dir in if su_isDir su candidate then candidate else dir
      | None \<Rightarrow> dir)"

definition Seconds :: "int \<Rightarrow> int" where
  "Seconds n = wrap64 (n * 1000000000)"

text \<open>Both clients are built the same way: a placeholder in mock mode, otherwise a connection.\<close>

definition connect :: "startup_env \<Rightarrow> Config \<Rightarrow> string \<Rightarrow> string \<Rightarrow> gerror + (read_client \<times> write_client) \<times> string" where
  "connect su cfg what path =
     (let v = c_Velociraptor cfg in
      if path = [] then Inr ((placeholderReader, placeholderClient), VelociraptorModeMock)
      else case su_NewGRPCClient su path (vc_OrgID v) (Seconds (vc_TimeoutSeconds v)) (vc_MaxRows v) of
        Inl err \<Rightarrow> Inl (Errorf [Lit (''velociraptor '' @ what @ '' client: ''), Wrap err])
      | Inr c \<Rightarrow> Inr (c, VelociraptorModeReal))"

definition open_sink :: "startup_env \<Rightarrow> AuditConfig \<Rightarrow> gerror + Sink" where
  "open_sink su a =
     (if ac_Enabled a
      then case NewJSONLWriterWithRotation (su_audit su) (ac_Path a)
                  \<lparr>ro_MaxSizeBytes = ac_MaxSizeBytes a, ro_MaxFiles = ac_MaxFiles a\<rparr> (su_logs su (ac_Path a)) of
             Inl err \<Rightarrow> Inl err
           | Inr w \<Rightarrow> Inr (Jsonl w)
      else Inr NopSink)"

definition open_approvals :: "startup_env \<Rightarrow> ApprovalConfig \<Rightarrow> store_state \<Rightarrow> store_state \<times> (gerror + FileStore option)" where
  "open_approvals su ap s =
     (if pa_StorePath ap = [] then (s, Inr None)
      else case NewFileStore (su_store su) (pa_StorePath ap) (Seconds (pa_TTLSeconds ap)) s of
        (s', Inl err) \<Rightarrow> (s', Inl (Errorf [Lit ''approval store: '', Wrap err]))
      | (s', Inr store) \<Rightarrow> (s', Inr (Some store)))"

text \<open>\<^verbatim>\<open>Deps.Audit\<close> is kept beside the other dependencies, since it is part of the world.\<close>

definition buildDeps ::
  "startup_env \<Rightarrow> string \<Rightarrow> string \<Rightarrow> store_state \<Rightarrow> store_state \<times> (gerror + Deps \<times> Sink \<times> string)" where
  "buildDeps su configPath profilesDir s =
     (case Load su configPath of
        Inl err \<Rightarrow> (s, Inl err)
      | Inr cfg \<Rightarrow>
     (case Validate (Some cfg) of
        Some err \<Rightarrow> (s, Inl (Errorf [Lit ''invalid config: '', Wrap err]))
      | None \<Rightarrow>
     (case LoadDir (su_dfir su) profilesDir of
        Inl err \<Rightarrow> (s, Inl err)
      | Inr profiles \<Rightarrow>
     (case open_sink su (c_Audit cfg) of
        Inl err \<Rightarrow> (s, Inl err)
      | Inr auditSink \<Rightarrow>
     (case connect su cfg ''read'' (vc_ReadAPIConfigPath (c_Velociraptor cfg)) of
        Inl err \<Rightarrow> (s, Inl err)
      | Inr (readClient, readMode) \<Rightarrow>
     (case connect su cfg ''write'' (vc_WriteAPIConfigPath (c_Velociraptor cfg)) of
        Inl err \<Rightarrow> (s, Inl err)
      | Inr (writeClient, writeMode) \<Rightarrow>
     (case open_approvals su (c_Approval cfg) s of
        (s', Inl err) \<Rightarrow> (s', Inl err)
      | (s', Inr approvals) \<Rightarrow>
          (s', Inr (\<lparr>d_Config = Some cfg, d_Policy = Some (NewEngine (c_Policy cfg)), d_Approvals = approvals,
                     d_Profiles = Some profiles, d_ReadClient = Some (fst readClient), d_VelociraptorReadMode = readMode,
                     d_WriteClient = Some (snd writeClient), d_VelociraptorWriteMode = writeMode\<rparr>,
                    auditSink, sc_Name (c_Server cfg))))))))))"

record server_flags =
  fl_version :: bool
  fl_config :: string
  fl_profilesDir :: string
  fl_profilesDirSet :: bool

datatype run_outcome = Exit int | Serve Deps Sink string

definition runServer :: "startup_env \<Rightarrow> server_flags \<Rightarrow> store_state \<Rightarrow> store_state \<times> run_outcome" where
  "runServer su f s =
     (if fl_version f then (s, Exit 0)
      else if fl_config f = [] then (s, Exit 2)
      else case buildDeps su (fl_config f) (resolveProfilesDir su (fl_profilesDir f) (fl_profilesDirSet f)) s of
        (s', Inl err) \<Rightarrow> (s', Exit 1)
      | (s', Inr (deps, sink, name)) \<Rightarrow> (s', Serve deps sink name))"

subsection \<open>What the configuration decides\<close>

lemma open_approvals_some:
  "open_approvals su ap s = (s', Inr a) \<Longrightarrow> a = None \<longleftrightarrow> pa_StorePath ap = []"
  by (auto simp: open_approvals_def split: if_splits prod.splits sum.splits)

lemma open_approvals_records: "open_approvals su ap s = (s', r) \<Longrightarrow> records_at s' = records_at s"
  by (auto simp: open_approvals_def split: if_splits prod.splits sum.splits dest: NewFileStore_records)

lemma connect_mode:
  "connect su cfg what path = Inr (c, mode) \<Longrightarrow> mode = (if path = [] then VelociraptorModeMock else VelociraptorModeReal)
     \<and> (path = [] \<longrightarrow> snd c = placeholderClient)"
  by (auto simp: connect_def Let_def split: if_splits sum.splits)

lemma open_sink_nop: "open_sink su a = Inr k \<Longrightarrow> k = NopSink \<longleftrightarrow> \<not> ac_Enabled a"
  by (auto simp: open_sink_def split: if_splits sum.splits)

lemma pilot_of_config:
  "d_Policy deps = Some (NewEngine p) \<Longrightarrow> pc_Mode p \<in> {PolicyModeReadOnly, PolicyModeControlled} \<Longrightarrow>
   fst (writePilotEnabled deps) \<longleftrightarrow> pc_Mode p = PolicyModeControlled \<and> d_Approvals deps \<noteq> None"
  by (auto simp: writePilotEnabled_def ReadOnly_def NewEngine_def PolicyModeReadOnly_def PolicyModeControlled_def)

lemma buildDeps_ok:
  assumes "buildDeps su configPath profilesDir s = (s', Inr (deps, sink, name))"
  obtains cfg profiles rc wc where "Load su configPath = Inr cfg" "config_ok cfg" "LoadDir (su_dfir su) profilesDir = Inr profiles"
    "open_sink su (c_Audit cfg) = Inr sink"
    "connect su cfg ''read'' (vc_ReadAPIConfigPath (c_Velociraptor cfg)) = Inr (rc, d_VelociraptorReadMode deps)"
    "connect su cfg ''write'' (vc_WriteAPIConfigPath (c_Velociraptor cfg)) = Inr (wc, d_VelociraptorWriteMode deps)"
    "open_approvals su (c_Approval cfg) s = (s', Inr (d_Approvals deps))" "d_Config deps = Some cfg"
    "d_Policy deps = Some (NewEngine (c_Policy cfg))" "d_Profiles deps = Some profiles" "d_WriteClient deps = Some (snd wc)"
    "name = sc_Name (c_Server cfg)"
  using assms unfolding buildDeps_def
  by (auto simp: Validate_None_iff split: sum.splits option.splits prod.splits)

text \<open>
  A server that starts was configured validly, and its gates are what
  the configuration says and nothing else: the write pilot is on exactly in controlled mode with a
  store path, each client is real exactly when its API configuration is given, a
  server without write configuration has the backend that supports nothing, and auditing is off exactly when disabled.
  Starting changes no approval.
\<close>

theorem startup_gates:
  assumes "buildDeps su configPath profilesDir s = (s', Inr (deps, sink, name))"
  shows "\<exists>cfg. Load su configPath = Inr cfg \<and> config_ok cfg \<and> d_Config deps = Some cfg
    \<and> (fst (writePilotEnabled deps) \<longleftrightarrow> pc_Mode (c_Policy cfg) = PolicyModeControlled \<and> pa_StorePath (c_Approval cfg) \<noteq> [])
    \<and> (d_VelociraptorReadMode deps = VelociraptorModeReal \<longleftrightarrow> vc_ReadAPIConfigPath (c_Velociraptor cfg) \<noteq> [])
    \<and> (d_VelociraptorWriteMode deps = VelociraptorModeReal \<longleftrightarrow> vc_WriteAPIConfigPath (c_Velociraptor cfg) \<noteq> [])
    \<and> (vc_WriteAPIConfigPath (c_Velociraptor cfg) = [] \<longrightarrow> supports_nothing deps)
    \<and> (sink = NopSink \<longleftrightarrow> \<not> ac_Enabled (c_Audit cfg))
    \<and> records_at s' = records_at s"
  using assms
proof (rule buildDeps_ok)
  fix cfg profiles rc wc
  assume c: "Load su configPath = Inr cfg" "config_ok cfg" "d_Config deps = Some cfg"
    and sink: "open_sink su (c_Audit cfg) = Inr sink"
    and r: "connect su cfg ''read'' (vc_ReadAPIConfigPath (c_Velociraptor cfg)) = Inr (rc, d_VelociraptorReadMode deps)"
    and w: "connect su cfg ''write'' (vc_WriteAPIConfigPath (c_Velociraptor cfg)) = Inr (wc, d_VelociraptorWriteMode deps)"
    and a: "open_approvals su (c_Approval cfg) s = (s', Inr (d_Approvals deps))"
    and p: "d_Policy deps = Some (NewEngine (c_Policy cfg))" and wc: "d_WriteClient deps = Some (snd wc)"
  have "fst (writePilotEnabled deps) \<longleftrightarrow> pc_Mode (c_Policy cfg) = PolicyModeControlled \<and> pa_StorePath (c_Approval cfg) \<noteq> []"
    using pilot_of_config [OF p] c(2) open_approvals_some [OF a] by (simp add: config_ok_def)
  moreover have "vc_WriteAPIConfigPath (c_Velociraptor cfg) = [] \<longrightarrow> supports_nothing deps"
    using connect_mode [OF w] wc by (auto simp: supports_nothing_def placeholderClient_def)
  moreover have "VelociraptorModeMock \<noteq> VelociraptorModeReal" by (simp add: VelociraptorModeMock_def VelociraptorModeReal_def)
  ultimately show ?thesis
    using c connect_mode [OF r] connect_mode [OF w] open_sink_nop [OF sink] open_approvals_records [OF a] by auto
qed

text \<open>A machine with the default configuration, two profiles and no Velociraptor server.\<close>

definition sample_startup :: startup_env where
  "sample_startup = \<lparr>su_ReadFile = (\<lambda>p. Inr []), su_Unmarshal = (\<lambda>d. Inr Default), su_dfir = sample_io, su_audit = calm_audit,
     su_logs = (\<lambda>p. Map.empty), su_store = calm_env, su_NewGRPCClient = (\<lambda>p org t m. Inl (errorf ''connection refused'')),
     su_isDir = (\<lambda>d. d = ''/opt/mcp/p''), su_Executable = Some ''/opt/mcp/agentic-velociraptor-mcp''\<rparr>"

lemma sample_startup_loads: "Load sample_startup ''c'' = Inr Default"
  by (simp add: Load_def sample_startup_def)

lemma sample_sink:
  "\<exists>k. open_sink sample_startup (c_Audit Default) = Inr k"
  by (simp add: open_sink_def sample_startup_def NewJSONLWriterWithRotation_def calm_audit_def)

lemma sample_builds: "\<exists>deps sink name. buildDeps sample_startup ''c'' ''p'' s = (s, Inr (deps, sink, name))"
proof -
  obtain k where "open_sink sample_startup (c_Audit Default) = Inr k" using sample_sink by blast
  moreover have "LoadDir (su_dfir sample_startup) ''p'' = Inr sample_registry"
    using sample_registry_loads by (simp add: sample_startup_def)
  moreover have "vc_ReadAPIConfigPath (c_Velociraptor Default) = []" "vc_WriteAPIConfigPath (c_Velociraptor Default) = []"
    "pa_StorePath (c_Approval Default) = []" by (simp_all add: Default_def)
  ultimately show ?thesis
    by (simp add: buildDeps_def sample_startup_loads Default_valid connect_def open_approvals_def)
qed

theorem startup_gates_witness:
  "\<exists>deps sink name. buildDeps sample_startup ''c'' ''p'' sample_store = (sample_store, Inr (deps, sink, name))
    \<and> \<not> fst (writePilotEnabled deps) \<and> supports_nothing deps \<and> sink \<noteq> NopSink"
proof -
  obtain deps sink name where b: "buildDeps sample_startup ''c'' ''p'' sample_store = (sample_store, Inr (deps, sink, name))"
    using sample_builds by blast
  from startup_gates [OF b] have "\<not> fst (writePilotEnabled deps) \<and> supports_nothing deps \<and> sink \<noteq> NopSink"
    by (auto simp: sample_startup_loads Default_def)
  with b show ?thesis by blast
qed

lemma read_only_harmless:
  assumes "runServer su f s = (s', Serve deps sink name)" and "Load su (fl_config f) = Inr cfg"
    and "pc_Mode (c_Policy cfg) \<noteq> PolicyModeControlled \<or> pa_StorePath (c_Approval cfg) = []
      \<or> vc_WriteAPIConfigPath (c_Velociraptor cfg) = []"
  shows "list_all (\<lambda>call. harmless (snd call)) (snd (session env deps cs w))"
proof -
  let ?dir = "resolveProfilesDir su (fl_profilesDir f) (fl_profilesDirSet f)"
  have "buildDeps su (fl_config f) ?dir s = (s', Inr (deps, sink, name))"
    using assms(1) by (auto simp: runServer_def split: if_splits prod.splits sum.splits)
  then show ?thesis
  proof (rule buildDeps_ok)
    fix cfg' profiles rc wc
    assume c: "Load su (fl_config f) = Inr cfg'" "config_ok cfg'"
      and w: "connect su cfg' ''write'' (vc_WriteAPIConfigPath (c_Velociraptor cfg')) = Inr (wc, d_VelociraptorWriteMode deps)"
      and a: "open_approvals su (c_Approval cfg') s = (s', Inr (d_Approvals deps))"
      and p: "d_Policy deps = Some (NewEngine (c_Policy cfg'))" and wc: "d_WriteClient deps = Some (snd wc)"
    have cfg: "cfg' = cfg" using c(1) assms(2) by simp
    have "\<not> fst (writePilotEnabled deps) \<or> supports_nothing deps"
      using assms(3) pilot_of_config [OF p] c(2) open_approvals_some [OF a] connect_mode [OF w] wc
      by (auto simp: cfg config_ok_def supports_nothing_def placeholderClient_def)
    then show ?thesis using disabled_log mock_log by blast
  qed
qed

text \<open>
  Property C5 (safety). Secure by default: a server whose configuration is not in controlled mode, or has no
  approval store, or has no write configuration, started any way, never makes a write call, consumes an approval or
  writes a file, whatever sequence of tool calls its client makes.
\<close>

theorem read_only_deployment:
  assumes "runServer su f s = (s', Serve deps sink name)" and "Load su (fl_config f) = Inr cfg"
    and "pc_Mode (c_Policy cfg) \<noteq> PolicyModeControlled \<or> pa_StorePath (c_Approval cfg) = []
      \<or> vc_WriteAPIConfigPath (c_Velociraptor cfg) = []"
  shows "list_all (\<lambda>call. harmless (snd call)) (snd (session env deps cs w))"
  using assms by (rule read_only_harmless)

theorem read_only_deployment_witness:
  "\<exists>deps sink name. snd (runServer sample_startup \<lparr>fl_version = False, fl_config = ''c'', fl_profilesDir = ''p'', fl_profilesDirSet = True\<rparr>
      sample_store) = Serve deps sink name
    \<and> list_all (\<lambda>call. harmless (snd call)) (snd (session sample_env deps [Gated (CallCollectArtifact sample_input)] sample_world))"
proof -
  let ?f = "\<lparr>fl_version = False, fl_config = ''c'', fl_profilesDir = ''p'', fl_profilesDirSet = True\<rparr>"
  obtain deps sink name where "buildDeps sample_startup ''c'' ''p'' sample_store = (sample_store, Inr (deps, sink, name))"
    using sample_builds by blast
  then have r: "runServer sample_startup ?f sample_store = (sample_store, Serve deps sink name)"
    by (simp add: runServer_def resolveProfilesDir_def)
  have "list_all (\<lambda>call. harmless (snd call)) (snd (session sample_env deps [Gated (CallCollectArtifact sample_input)] sample_world))"
    by (rule read_only_deployment [OF r, where cfg = Default]) (simp_all add: sample_startup_loads Default_def)
  with r show ?thesis by simp
qed

text \<open>
  A configuration that violates any constraint stops the start before anything is touched: exit code 1
  and the approval store as it was; and the error wraps every violated constraint, not only the first.
\<close>

theorem bad_config_refused:
  assumes "Load su (fl_config f) = Inr cfg" and "\<not> config_ok cfg" and "\<not> fl_version f" and "fl_config f \<noteq> []"
  shows "runServer su f s = (s, Exit 1)
    \<and> (\<exists>ps. buildDeps su (fl_config f) (resolveProfilesDir su (fl_profilesDir f) (fl_profilesDirSet f)) s
          = (s, Inl (Errorf [Lit ''invalid config: '', Wrap (Errorf ps)]))
        \<and> (\<forall>e \<in> set (Validate_errs cfg). Wrap e \<in> set ps))"
proof -
  have "Validate_errs cfg \<noteq> []" using assms(2) Validate_None_iff [of cfg] by (auto simp: Validate_def)
  then obtain e0 where "e0 \<in> set (Validate_errs cfg)" using last_in_set by blast
  from Validate_errors [OF this] obtain ps where ps: "Validate (Some cfg) = Some (Errorf ps)" by blast
  have "\<forall>e \<in> set (Validate_errs cfg). Wrap e \<in> set ps"
    using Validate_errors [of _ cfg] ps by fastforce
  with ps assms show ?thesis by (simp add: runServer_def buildDeps_def)
qed

theorem bad_config_refused_witness:
  "snd (runServer (sample_startup\<lparr>su_Unmarshal := (\<lambda>d. Inr (Default\<lparr>c_Policy := (c_Policy Default)\<lparr>pc_AllowRawVQL := True\<rparr>\<rparr>))\<rparr>)
     \<lparr>fl_version = False, fl_config = ''c'', fl_profilesDir = ''p'', fl_profilesDirSet = True\<rparr> sample_store) = Exit 1"
proof -
  let ?su = "sample_startup\<lparr>su_Unmarshal := (\<lambda>d. Inr (Default\<lparr>c_Policy := (c_Policy Default)\<lparr>pc_AllowRawVQL := True\<rparr>\<rparr>))\<rparr>"
  let ?f = "\<lparr>fl_version = False, fl_config = ''c'', fl_profilesDir = ''p'', fl_profilesDirSet = True\<rparr>"
  have "Load ?su (fl_config ?f) = Inr (Default\<lparr>c_Policy := (c_Policy Default)\<lparr>pc_AllowRawVQL := True\<rparr>\<rparr>)"
    by (simp add: Load_def sample_startup_def)
  from bad_config_refused [OF this] show ?thesis by (simp add: config_ok_def)
qed

end
