(* ===== verification/Veloapi.thy ===== *)
theory Veloapi
  imports Prelude
begin

text \<open>
  The messages of \<^verbatim>\<open>internal/velociraptor/veloapi\<close> that the gRPC client builds and reads, one record per
  message of the \<^verbatim>\<open>.proto\<close> files with all its fields, and the remote procedure calls as values.

  Unsigned fields are words of their width, signed ones integers in Go's range. A message
  pointer that may be nil is an option; the generated getters read a nil message as its zero value. The
  enumerations of proto3 are open: a number without a name is kept (\<open>\<dots>_other\<close>).

  The generated stubs themselves are not modelled: the service is a record of functions, one per
  call (\<open>APIClient\<close>), that answer with an error or a message. The first argument is the moment of the client
  method that makes the call; within one method no request is sent twice, so that an answer may
  depend on when it was asked.
\<close>

subsection \<open>Health, clients, artifacts (health.proto, visibility.proto)\<close>

datatype ServingStatus = Status_UNKNOWN | Status_SERVING | Status_NOT_SERVING | Status_other int

fun ServingStatus_String :: "ServingStatus \<Rightarrow> string" where
  "ServingStatus_String Status_UNKNOWN = ''UNKNOWN''"
| "ServingStatus_String Status_SERVING = ''SERVING''"
| "ServingStatus_String Status_NOT_SERVING = ''NOT_SERVING''"
| "ServingStatus_String (Status_other n) = FormatInt n"

record HealthCheckRequest = hcr_service :: string
record HealthCheckResponse = hcs_status :: ServingStatus

record SearchClientsRequest =
  scr_offset :: "64 word"
  scr_limit :: "64 word"
  scr_query :: string

record AgentInformation = ai_version :: string

record Uname =
  un_system :: string
  un_hostname :: string
  un_mac_addresses :: "string list"

record ApiClient =
  ac_client_id :: string
  ac_agent_information :: "AgentInformation option"
  ac_os_info :: "Uname option"
  ac_last_seen_at :: "64 word"
  ac_last_ip :: string
  ac_labels :: "string list"

record SearchClientsResponse =
  scs_items :: "ApiClient list"
  scs_total :: "64 word"

record GetClientRequest = gcr_client_id :: string

record PbArtifactParameter =
  pap_name :: string
  pap_default :: string
  pap_description :: string
  pap_type :: string

record ArtifactSource = src_name :: string

record Artifact =
  art_name :: string
  art_description :: string
  art_parameters :: "PbArtifactParameter list"
  art_sources :: "ArtifactSource list"

record GetArtifactsRequest =
  gar_search_term :: string
  gar_number_of_results :: "64 word"
  gar_names :: "string list"

record ArtifactDescriptors = ads_items :: "Artifact list"

subsection \<open>Flows and tables (flows.proto, table.proto, vql.proto)\<close>

record VQLEnv =
  env_key :: string
  env_value :: string

record ArtifactParameters = aps_env :: "VQLEnv list"

record ArtifactSpec =
  spec_artifact :: string
  spec_parameters :: "ArtifactParameters option"

record ArtifactCollectorArgs =
  aca_creator :: string
  aca_client_id :: string
  aca_flow_id :: string
  aca_artifacts :: "string list"
  aca_specs :: "ArtifactSpec list"
  aca_timeout :: "64 word"
  aca_max_rows :: "64 word"
  aca_max_upload_bytes :: "64 word"

record ArtifactCollectorResponse =
  acr_flow_id :: string
  acr_request :: "ArtifactCollectorArgs option"

datatype CollectorState = State_UNSET | State_RUNNING | State_FINISHED | State_ERROR | State_IN_PROGRESS
  | State_UNRESPONSIVE | State_WAITING | State_other int

fun CollectorState_String :: "CollectorState \<Rightarrow> string" where
  "CollectorState_String State_UNSET = ''UNSET''"
| "CollectorState_String State_RUNNING = ''RUNNING''"
| "CollectorState_String State_FINISHED = ''FINISHED''"
| "CollectorState_String State_ERROR = ''ERROR''"
| "CollectorState_String State_IN_PROGRESS = ''IN_PROGRESS''"
| "CollectorState_String State_UNRESPONSIVE = ''UNRESPONSIVE''"
| "CollectorState_String State_WAITING = ''WAITING''"
| "CollectorState_String (State_other n) = FormatInt n"

record ArtifactCollectorContext =
  acc_client_id :: string
  acc_session_id :: string
  acc_request :: "ArtifactCollectorArgs option"
  acc_create_time :: "64 word"
  acc_active_time :: "64 word"
  acc_total_collected_rows :: "64 word"
  acc_total_uploaded_bytes :: "64 word"
  acc_status :: string
  acc_state :: CollectorState

record FlowDetails = fd_context :: "ArtifactCollectorContext option"

record ApiFlowRequest =
  afr_client_id :: string
  afr_flow_id :: string

record StartFlowResponse = sfr_flow_id :: string

record GetTableRequest =
  gtr_rows :: "64 word"
  gtr_start_row :: "64 word"
  gtr_client_id :: string
  gtr_flow_id :: string
  gtr_artifact :: string
  gtr_type :: string
  gtr_hunt_id :: string
  gtr_sort_column :: string
  gtr_sort_direction :: bool

record TableRow = tr_json :: string

record GetTableResponse =
  gts_columns :: "string list"
  gts_rows :: "TableRow list"
  gts_total_rows :: int

subsection \<open>Hunts and files (hunts.proto, vfs.proto)\<close>

record HuntLabelCondition = hlc_label :: "string list"

datatype HuntOsCondition = OS_ALL | OS_WINDOWS | OS_LINUX | OS_OSX | OS_other int

datatype hunt_union = HuntCondition_Labels HuntLabelCondition | HuntCondition_Os HuntOsCondition

record HuntCondition =
  hcn_excluded_labels :: "HuntLabelCondition option"
  hcn_UnionField :: "hunt_union option"

record HuntStats = hst_total_clients_scheduled :: "64 word"

datatype Hunt_State = Hunt_UNSET | Hunt_PAUSED | Hunt_RUNNING | Hunt_STOPPED | Hunt_ARCHIVED | Hunt_DELETED | Hunt_other int

record Hunt =
  hnt_hunt_id :: string
  hnt_create_time :: "64 word"
  hnt_creator :: string
  hnt_start_time :: "64 word"
  hnt_hunt_description :: string
  hnt_start_request :: "ArtifactCollectorArgs option"
  hnt_condition :: "HuntCondition option"
  hnt_client_limit :: "64 word"
  hnt_stats :: "HuntStats option"
  hnt_artifacts :: "string list"
  hnt_state :: Hunt_State

record HuntEstimateRequest =
  her_last_active :: "64 word"
  her_condition :: "HuntCondition option"

record ListHuntsRequest =
  lhr_offset :: "64 word"
  lhr_count :: "64 word"
  lhr_include_archived :: bool
  lhr_summary :: bool

record ListHuntsResponse =
  lhs_items :: "Hunt list"
  lhs_total :: int

record GetHuntRequest = ghr_hunt_id :: string

record GetHuntResultsRequest =
  hrr_offset :: "64 word"
  hrr_count :: "64 word"
  hrr_hunt_id :: string
  hrr_artifact :: string

record HuntMutation =
  hmu_hunt_id :: string
  hmu_state :: Hunt_State
  hmu_user :: string

record VFSFileBuffer =
  vfs_client_id :: string
  vfs_offset :: "64 word"
  vfs_length :: "32 word"
  vfs_data :: string
  vfs_components :: "string list"
  vfs_padding :: "bool option"

subsection \<open>The service\<close>

text \<open>The seams of grpcclient.go; \<^verbatim>\<open>veloapi.APIClient\<close> satisfies all of them.\<close>

record flowService =
  fs_GetClientFlows :: "nat \<Rightarrow> GetTableRequest \<Rightarrow> gerror + GetTableResponse"
  fs_GetFlowDetails :: "nat \<Rightarrow> ApiFlowRequest \<Rightarrow> gerror + FlowDetails"
  fs_CollectArtifact :: "nat \<Rightarrow> ArtifactCollectorArgs \<Rightarrow> gerror + ArtifactCollectorResponse"
  fs_CancelFlow :: "nat \<Rightarrow> ApiFlowRequest \<Rightarrow> gerror + StartFlowResponse"

record huntService =
  hs_CreateHunt :: "nat \<Rightarrow> Hunt \<Rightarrow> gerror + StartFlowResponse"
  hs_ModifyHunt :: "nat \<Rightarrow> HuntMutation \<Rightarrow> gerror + unit"
  hs_ListHunts :: "nat \<Rightarrow> ListHuntsRequest \<Rightarrow> gerror + ListHuntsResponse"
  hs_GetHunt :: "nat \<Rightarrow> GetHuntRequest \<Rightarrow> gerror + Hunt"
  hs_GetHuntResults :: "nat \<Rightarrow> GetHuntResultsRequest \<Rightarrow> gerror + GetTableResponse"
  hs_EstimateHunt :: "nat \<Rightarrow> HuntEstimateRequest \<Rightarrow> gerror + HuntStats"

record APIClient =
  api_Check :: "nat \<Rightarrow> HealthCheckRequest \<Rightarrow> gerror + HealthCheckResponse"
  api_ListClients :: "nat \<Rightarrow> SearchClientsRequest \<Rightarrow> gerror + SearchClientsResponse"
  api_GetClient :: "nat \<Rightarrow> GetClientRequest \<Rightarrow> gerror + ApiClient"
  api_GetArtifacts :: "nat \<Rightarrow> GetArtifactsRequest \<Rightarrow> gerror + ArtifactDescriptors"
  api_flows :: flowService
  api_GetTable :: "nat \<Rightarrow> GetTableRequest \<Rightarrow> gerror + GetTableResponse"
  api_VFSGetBuffer :: "nat \<Rightarrow> VFSFileBuffer \<Rightarrow> gerror + VFSFileBuffer"
  api_hunts :: huntService

text \<open>One remote call with its request.\<close>

datatype rpc =
    RPC_Check HealthCheckRequest
  | RPC_ListClients SearchClientsRequest
  | RPC_GetClient GetClientRequest
  | RPC_GetArtifacts GetArtifactsRequest
  | RPC_GetClientFlows GetTableRequest
  | RPC_GetFlowDetails ApiFlowRequest
  | RPC_CollectArtifact ArtifactCollectorArgs
  | RPC_CancelFlow ApiFlowRequest
  | RPC_GetTable GetTableRequest
  | RPC_VFSGetBuffer VFSFileBuffer
  | RPC_CreateHunt Hunt
  | RPC_ModifyHunt HuntMutation
  | RPC_ListHunts ListHuntsRequest
  | RPC_GetHunt GetHuntRequest
  | RPC_GetHuntResults GetHuntResultsRequest
  | RPC_EstimateHunt HuntEstimateRequest

text \<open>The four calls that change something on the server or on an endpoint.\<close>

fun mutating :: "rpc \<Rightarrow> bool" where
  "mutating (RPC_CollectArtifact a) = True"
| "mutating (RPC_CancelFlow r) = True"
| "mutating (RPC_CreateHunt h) = True"
| "mutating (RPC_ModifyHunt m) = True"
| "mutating _ = False"

text \<open>
  A client method with the calls it makes: the requests in order and the result. \<open>rpc_then\<close> makes a call
  and goes on with its answer.
\<close>

type_synonym 'a rpc_run = "rpc list \<times> (gerror + 'a)"

definition rpc_then :: "rpc \<Rightarrow> gerror + 'r \<Rightarrow> (gerror + 'r \<Rightarrow> 'a rpc_run) \<Rightarrow> 'a rpc_run" where
  "rpc_then call answer k = (case k answer of (log, r) \<Rightarrow> (call # log, r))"

abbreviation rpc_ok :: "'a \<Rightarrow> 'a rpc_run" where "rpc_ok x \<equiv> ([], Inr x)"
abbreviation rpc_fail :: "gerror \<Rightarrow> 'a rpc_run" where "rpc_fail e \<equiv> ([], Inl e)"

lemma rpc_then_simps [simp]:
  "fst (rpc_then call a k) = call # fst (k a)" "snd (rpc_then call a k) = snd (k a)"
  by (simp_all add: rpc_then_def split: prod.splits)

end
