(* ===== verification/Table.thy ===== *)
theory Table
  imports Paging Veloapi
begin

text \<open>
  \<^verbatim>\<open>internal/velociraptor/table.go\<close> and \<^verbatim>\<open>query.go\<close>: decoding of result tables into rows, tolerant reading of
  cells, the row limit. The cursor functions of table.go are in \<open>Paging\<close>.

  \<open>decode_env\<close> holds what the functions take from outside: \<^verbatim>\<open>json.Unmarshal\<close> into a \<^verbatim>\<open>[]any\<close>, and for a value
  of no other kind (\<^const>\<open>VOther\<close>) whether it is a \<^verbatim>\<open>float64\<close> and its conversion to \<^verbatim>\<open>int64\<close>.

  \<open>decode_rows_shape\<close>: every decoded row is a map with exactly the columns of the table as keys.
\<close>

record decode_env =
  de_Unmarshal :: "string \<Rightarrow> gerror + goval list"
  de_float64 :: "string \<Rightarrow> int option"

subsection \<open>Decoding\<close>

text \<open>One row: the columns in order, each with the value at its position or nil.\<close>

definition row_of :: "string list \<Rightarrow> goval list \<Rightarrow> row" where
  "row_of columns vals =
     fold (\<lambda>(i, col) row. gomap_put col (if i < length vals then vals ! i else VNil) row) (enumerate 0 columns) []"

fun decode_rows :: "decode_env \<Rightarrow> string list \<Rightarrow> TableRow list \<Rightarrow> gerror + row list" where
  "decode_rows de columns [] = Inr []"
| "decode_rows de columns (r # rs) =
     (case de_Unmarshal de (tr_json r) of
        Inl err \<Rightarrow> Inl (Errorf [Lit ''velociraptor: decode table row: '', Wrap err])
      | Inr vals \<Rightarrow>
          (case decode_rows de columns rs of
             Inl err \<Rightarrow> Inl err
           | Inr rows \<Rightarrow> Inr (row_of columns vals # rows)))"

definition decodeTableRows :: "decode_env \<Rightarrow> GetTableResponse option \<Rightarrow> gerror + row list" where
  "decodeTableRows de resp =
     (case resp of None \<Rightarrow> Inr [] | Some r \<Rightarrow> decode_rows de (gts_columns r) (gts_rows r))"

subsection \<open>Cells\<close>

fun rowStr :: "row \<Rightarrow> string list \<Rightarrow> string" where
  "rowStr row [] = []"
| "rowStr row (k # keys) =
     (case map_of row k of Some (VString s) \<Rightarrow> s | _ \<Rightarrow> rowStr row keys)"

fun rowInt64 :: "decode_env \<Rightarrow> row \<Rightarrow> string list \<Rightarrow> int" where
  "rowInt64 de row [] = 0"
| "rowInt64 de row (k # keys) =
     (case map_of row k of
        Some (VOther p) \<Rightarrow> (case de_float64 de p of Some i \<Rightarrow> i | None \<Rightarrow> rowInt64 de row keys)
      | _ \<Rightarrow> rowInt64 de row keys)"

fun strings_in :: "goval list \<Rightarrow> string list" where
  "strings_in [] = []"
| "strings_in (v # vs) = (case v of VString s \<Rightarrow> s # strings_in vs | _ \<Rightarrow> strings_in vs)"

fun rowStringSlice :: "row \<Rightarrow> string list \<Rightarrow> string list" where
  "rowStringSlice row [] = []"
| "rowStringSlice row (k # keys) =
     (case map_of row k of Some (VSlice items) \<Rightarrow> strings_in items | _ \<Rightarrow> rowStringSlice row keys)"

subsection \<open>Limits (query.go)\<close>

record QueryLimits =
  ql_MaxRows :: int
  ql_MaxBytes :: int
  ql_TimeoutSeconds :: int

definition ApplyRowLimit :: "row list \<Rightarrow> QueryLimits \<Rightarrow> row list \<times> bool" where
  "ApplyRowLimit rows limits =
     (if ql_MaxRows limits \<le> 0 \<or> int (length rows) \<le> ql_MaxRows limits then (rows, False)
      else (take (nat (ql_MaxRows limits)) rows, True))"

lemma ApplyRowLimit_prefix:
  assumes "ApplyRowLimit rows limits = (out, truncated)"
  shows "\<exists>rest. rows = out @ rest \<and> (truncated \<longleftrightarrow> rest \<noteq> [])
    \<and> (0 < ql_MaxRows limits \<longrightarrow> int (length out) \<le> ql_MaxRows limits)"
proof -
  have "out = take (length out) rows" "rows = take (length out) rows @ drop (length out) rows"
    using assms by (auto simp: ApplyRowLimit_def split: if_splits)
  moreover have "truncated \<longleftrightarrow> drop (length out) rows \<noteq> []" "0 < ql_MaxRows limits \<longrightarrow> int (length out) \<le> ql_MaxRows limits"
    using assms by (auto simp: ApplyRowLimit_def split: if_splits)
  ultimately show ?thesis by metis
qed

subsection \<open>The shape of a row\<close>

definition put_cells :: "goval list \<Rightarrow> (nat \<times> string) list \<Rightarrow> row \<Rightarrow> row" where
  "put_cells vals = fold (\<lambda>(i, col) row. gomap_put col (if i < length vals then vals ! i else VNil) row)"

lemma put_cells_wf: "wf_gomap m \<Longrightarrow> wf_gomap (put_cells vals cells m)"
  unfolding put_cells_def by (induction cells arbitrary: m) (auto intro: wf_intros)

lemma put_cells_keys: "fst ` set (put_cells vals cells m) = snd ` set cells \<union> fst ` set m"
proof (induction cells arbitrary: m)
  case (Cons c cells)
  then show ?case using gomap_put_keys [of "snd c" _ m] by (cases c) (simp add: put_cells_def)
qed (simp add: put_cells_def)

lemma put_cells_other: "k \<notin> snd ` set cells \<Longrightarrow> map_of (put_cells vals cells m) k = map_of m k"
  unfolding put_cells_def by (induction cells arbitrary: m) (auto simp: map_of_gomap_put)

lemma row_of_wf: "wf_gomap (row_of columns vals)"
  using put_cells_wf [OF wf_gomap_Nil] by (simp add: row_of_def put_cells_def)

lemma row_of_keys: "fst ` set (row_of columns vals) = set columns"
proof -
  have "snd ` set (enumerate 0 columns) = set columns" by (metis list.set_map map_snd_enumerate)
  then show ?thesis using put_cells_keys [of vals "enumerate 0 columns" "[]"] by (simp add: row_of_def put_cells_def)
qed

text \<open>A cell holds the value at the last position of its column.\<close>

lemma row_of_cell:
  assumes "i < length columns" and "columns ! i \<notin> set (drop (Suc i) columns)"
  shows "map_of (row_of columns vals) (columns ! i) = Some (if i < length vals then vals ! i else VNil)"
proof -
  have split: "enumerate 0 columns = enumerate 0 (take i columns) @ (i, columns ! i) # enumerate (Suc i) (drop (Suc i) columns)"
    using assms(1) enumerate_append_eq [of 0 "take i columns" "columns ! i # drop (Suc i) columns"]
    by (simp add: id_take_nth_drop [symmetric])
  have "columns ! i \<notin> snd ` set (enumerate (Suc i) (drop (Suc i) columns))"
    using assms(2) by (metis list.set_map map_snd_enumerate)
  then have "map_of (put_cells vals (enumerate (Suc i) (drop (Suc i) columns)) m) (columns ! i) = map_of m (columns ! i)" for m
    by (rule put_cells_other)
  then show ?thesis unfolding row_of_def split by (simp add: put_cells_def map_of_gomap_put)
qed

lemma decode_rows_ok_iff:
  "decode_rows de columns rs = Inr rows \<longleftrightarrow>
     list_all2 (\<lambda>r row. \<exists>vals. de_Unmarshal de (tr_json r) = Inr vals \<and> row = row_of columns vals) rs rows"
proof (induction rs arbitrary: rows)
  case (Cons r rs)
  show ?case
    by (auto simp: list_all2_Cons1 Cons.IH [symmetric] split: sum.splits)
qed auto

lemma decodeTableRows_length: "decodeTableRows de (Some r) = Inr rows \<Longrightarrow> length rows = length (gts_rows r)"
  by (auto simp: decodeTableRows_def decode_rows_ok_iff dest: list_all2_lengthD)

text \<open>
  Property C38 (type). A table that decodes yields one row per encoded row, in order; each row is a map
  whose keys are exactly the columns of the table, and under the last occurrence of each column stands the value at its position, or
  nil when the encoded row is too short. One row that does not decode fails the table.
\<close>

theorem decode_rows_shape:
  "(\<forall>rows. decodeTableRows de (Some resp) = Inr rows \<longrightarrow> length rows = length (gts_rows resp)
      \<and> (\<forall>n < length rows. wf_gomap (rows ! n) \<and> fst ` set (rows ! n) = set (gts_columns resp)
          \<and> (\<exists>vals. de_Unmarshal de (tr_json (gts_rows resp ! n)) = Inr vals
              \<and> (\<forall>i < length (gts_columns resp). gts_columns resp ! i \<notin> set (drop (Suc i) (gts_columns resp)) \<longrightarrow>
                   map_of (rows ! n) (gts_columns resp ! i) = Some (if i < length vals then vals ! i else VNil)))))
   \<and> ((\<exists>rows. decodeTableRows de (Some resp) = Inr rows)
        \<longleftrightarrow> list_all (\<lambda>r. \<exists>vals. de_Unmarshal de (tr_json r) = Inr vals) (gts_rows resp))"
proof (rule conjI, intro allI impI)
  fix rows assume ok: "decodeTableRows de (Some resp) = Inr rows"
  have all: "list_all2 (\<lambda>r row. \<exists>vals. de_Unmarshal de (tr_json r) = Inr vals \<and> row = row_of (gts_columns resp) vals)
      (gts_rows resp) rows"
    using ok by (simp add: decodeTableRows_def decode_rows_ok_iff)
  have cells: "\<exists>vals. de_Unmarshal de (tr_json (gts_rows resp ! n)) = Inr vals \<and> rows ! n = row_of (gts_columns resp) vals"
    if "n < length rows" for n
    using list_all2_nthD [OF all] list_all2_lengthD [OF all] that by simp
  show "length rows = length (gts_rows resp)
      \<and> (\<forall>n < length rows. wf_gomap (rows ! n) \<and> fst ` set (rows ! n) = set (gts_columns resp)
          \<and> (\<exists>vals. de_Unmarshal de (tr_json (gts_rows resp ! n)) = Inr vals
              \<and> (\<forall>i < length (gts_columns resp). gts_columns resp ! i \<notin> set (drop (Suc i) (gts_columns resp)) \<longrightarrow>
                   map_of (rows ! n) (gts_columns resp ! i) = Some (if i < length vals then vals ! i else VNil))))"
    using list_all2_lengthD [OF all] cells row_of_wf row_of_keys row_of_cell by (metis (no_types, lifting))
next
  have "(\<exists>rows. decode_rows de (gts_columns resp) rs = Inr rows) \<longleftrightarrow> list_all (\<lambda>r. \<exists>vals. de_Unmarshal de (tr_json r) = Inr vals) rs" for rs
    by (induction rs) (auto split: sum.splits)
  then show "(\<exists>rows. decodeTableRows de (Some resp) = Inr rows)
        \<longleftrightarrow> list_all (\<lambda>r. \<exists>vals. de_Unmarshal de (tr_json r) = Inr vals) (gts_rows resp)"
    by (simp add: decodeTableRows_def)
qed

theorem decode_rows_shape_witness:
  "\<exists>rows. decodeTableRows \<lparr>de_Unmarshal = (\<lambda>j. Inr [VString j]), de_float64 = (\<lambda>p. None)\<rparr>
       (Some \<lparr>gts_columns = [''Name'', ''Size''], gts_rows = [\<lparr>tr_json = ''a''\<rparr>], gts_total_rows = 1\<rparr>) = Inr rows
     \<and> length rows = 1 \<and> map_of (rows ! 0) ''Size'' = Some VNil"
proof -
  let ?de = "\<lparr>de_Unmarshal = (\<lambda>j. Inr [VString j]), de_float64 = (\<lambda>p. None)\<rparr> :: decode_env"
  let ?resp = "\<lparr>gts_columns = [''Name'', ''Size''], gts_rows = [\<lparr>tr_json = ''a''\<rparr>], gts_total_rows = 1\<rparr> :: GetTableResponse"
  obtain rows where rows: "decodeTableRows ?de (Some ?resp) = Inr rows"
    using decode_rows_shape [of ?de ?resp] by auto
  have one: "length rows = 1" using decode_rows_shape [of ?de ?resp] rows by simp
  then have "0 < length rows" by simp
  then obtain vals where "de_Unmarshal ?de (tr_json (gts_rows ?resp ! 0)) = Inr vals"
    "\<forall>i < length (gts_columns ?resp). gts_columns ?resp ! i \<notin> set (drop (Suc i) (gts_columns ?resp)) \<longrightarrow>
        map_of (rows ! 0) (gts_columns ?resp ! i) = Some (if i < length vals then vals ! i else VNil)"
    using decode_rows_shape [of ?de ?resp] rows by blast
  then have "map_of (rows ! 0) ''Size'' = Some VNil" by (auto dest: spec [of _ 1])
  with rows one show ?thesis by blast
qed

end
