(* ===== verification/Api_Config.thy ===== *)
theory Api_Config
  imports Approval_Store
begin

text \<open>
  \<^verbatim>\<open>internal/velociraptor/apiconfig.go\<close>: loading the API credentials. The file system and the YAML
  decoder are fields of \<open>api_env\<close>; a decoded file is an \<open>APIConfig\<close> with the empty string for every absent key.

  \<open>api_config_accepted_iff\<close> says which files are accepted, and that a file others can read is refused
  before a byte of it is read.
\<close>

record APIConfig =
  apc_CACertificate :: string
  apc_ClientCert :: string
  apc_ClientPrivateKey :: string
  apc_APIConnectionString :: string
  apc_Name :: string
  apc_PinnedServerName :: string
  apc_MaxGRPCRecvSize :: "64 word"

definition APIConfig_String :: "APIConfig \<Rightarrow> string" where
  "APIConfig_String cfg = ''velociraptor.APIConfig{REDACTED}''"

definition APIConfig_GoString :: "APIConfig \<Rightarrow> string" where
  "APIConfig_GoString cfg = ''velociraptor.APIConfig{REDACTED}''"

text \<open>What \<^verbatim>\<open>os.Stat\<close> reports that is looked at: whether the file is regular, and its permission bits.\<close>

record file_info =
  fi_IsRegular :: bool
  fi_Perm :: nat

record api_env =
  ae_Stat :: "string \<Rightarrow> gerror + file_info"
  ae_windows :: bool
  ae_ReadFile :: "string \<Rightarrow> gerror + string"
  ae_Unmarshal :: "string \<Rightarrow> gerror + APIConfig"

text \<open>\<^verbatim>\<open>%v\<close> of a slice of strings.\<close>

definition sprint_strings :: "string list \<Rightarrow> string" where
  "sprint_strings xs = ''['' @ strings_Join xs '' '' @ '']''"

definition missing_fields :: "APIConfig \<Rightarrow> string list" where
  "missing_fields cfg =
     (if apc_CACertificate cfg = [] then [''ca_certificate''] else [])
     @ (if apc_ClientCert cfg = [] then [''client_cert''] else [])
     @ (if apc_ClientPrivateKey cfg = [] then [''client_private_key''] else [])
     @ (if apc_APIConnectionString cfg = [] then [''api_connection_string''] else [])"

definition LoadAPIConfig :: "api_env \<Rightarrow> string \<Rightarrow> gerror + APIConfig" where
  "LoadAPIConfig ae path =
     (let here = ''velociraptor: api config '' @ path @ '': '' in
      if path = [] then Inl (errorf ''velociraptor: api config path is empty'')
      else case ae_Stat ae path of
        Inl err \<Rightarrow> Inl (Errorf [Lit here, Wrap err])
      | Inr info \<Rightarrow>
      if \<not> fi_IsRegular info then Inl (errorf (here @ ''not a regular file''))
      else if \<not> ae_windows ae \<and> perm_too_open (fi_Perm info)
      then Inl (errorf (here @ ''file mode '' @ oct4 (fi_Perm info)
             @ '' is too permissive (must not be readable/writable by group or other, e.g. chmod 0600)''))
      else case ae_ReadFile ae path of
        Inl err \<Rightarrow> Inl (Errorf [Lit here, Wrap err])
      | Inr data \<Rightarrow>
      (case ae_Unmarshal ae data of
        Inl err \<Rightarrow> Inl (Errorf [Lit (here @ ''parse: ''), Wrap err])
      | Inr cfg \<Rightarrow>
          let missing = missing_fields cfg in
          if missing \<noteq> [] then Inl (errorf (here @ ''missing required field(s): '' @ sprint_strings missing))
          else Inr cfg))"

definition api_config_complete :: "APIConfig \<Rightarrow> bool" where
  "api_config_complete cfg \<longleftrightarrow> apc_CACertificate cfg \<noteq> [] \<and> apc_ClientCert cfg \<noteq> []
     \<and> apc_ClientPrivateKey cfg \<noteq> [] \<and> apc_APIConnectionString cfg \<noteq> []"

lemma missing_fields_Nil: "missing_fields cfg = [] \<longleftrightarrow> api_config_complete cfg"
  by (simp add: missing_fields_def api_config_complete_def)

text \<open>The bits of group and others: \<^const>\<open>perm_too_open\<close> is false exactly when all six are clear.\<close>

lemma perm_private_iff: "\<not> perm_too_open perm \<longleftrightarrow> perm mod 64 = 0"
proof -
  have "and perm 0x3F = take_bit 6 perm" by (simp add: take_bit_eq_mask mask_eq_exp_minus_1)
  then show ?thesis by (simp add: perm_too_open_def take_bit_eq_mod)
qed

lemma LoadAPIConfig_ok_iff:
  "LoadAPIConfig ae path = Inr cfg \<longleftrightarrow>
     path \<noteq> [] \<and> (\<exists>info data. ae_Stat ae path = Inr info \<and> fi_IsRegular info
       \<and> (ae_windows ae \<or> \<not> perm_too_open (fi_Perm info))
       \<and> ae_ReadFile ae path = Inr data \<and> ae_Unmarshal ae data = Inr cfg) \<and> api_config_complete cfg"
  by (auto simp: LoadAPIConfig_def Let_def missing_fields_Nil split: sum.splits if_splits)

text \<open>A file that cannot be accepted for its kind or mode is refused without being read: the answer
  does not depend on what reading it would give.\<close>

lemma LoadAPIConfig_unread:
  assumes "ae_Stat ae path = Inr info" and "\<not> fi_IsRegular info \<or> \<not> ae_windows ae \<and> fi_Perm info mod 64 \<noteq> 0"
  shows "LoadAPIConfig (ae\<lparr>ae_ReadFile := r, ae_Unmarshal := u\<rparr>) path = LoadAPIConfig ae path"
    and "\<exists>err. LoadAPIConfig ae path = Inl err"
  using assms by (auto simp: LoadAPIConfig_def Let_def perm_private_iff)

text \<open>
  Property C17 (functional). Credentials are loaded exactly from a regular file that parses and names certificate authority,
  client certificate, private key and server, and that (outside Windows) gives no permission bit to group or others; a file of
  another kind or with such a bit is refused whatever it holds, before it is read; and a loaded configuration
  prints as the same text whatever its secrets.
\<close>

theorem api_config_accepted_iff:
  "(LoadAPIConfig ae path = Inr cfg \<longleftrightarrow>
     path \<noteq> [] \<and> (\<exists>info data. ae_Stat ae path = Inr info \<and> fi_IsRegular info \<and> (ae_windows ae \<or> fi_Perm info mod 64 = 0)
       \<and> ae_ReadFile ae path = Inr data \<and> ae_Unmarshal ae data = Inr cfg)
     \<and> apc_CACertificate cfg \<noteq> [] \<and> apc_ClientCert cfg \<noteq> [] \<and> apc_ClientPrivateKey cfg \<noteq> [] \<and> apc_APIConnectionString cfg \<noteq> [])
   \<and> (\<forall>info r u. ae_Stat ae path = Inr info \<and> (\<not> fi_IsRegular info \<or> \<not> ae_windows ae \<and> fi_Perm info mod 64 \<noteq> 0) \<longrightarrow>
        LoadAPIConfig (ae\<lparr>ae_ReadFile := r, ae_Unmarshal := u\<rparr>) path = LoadAPIConfig ae path
        \<and> (\<exists>err. LoadAPIConfig ae path = Inl err))
   \<and> (\<forall>cfg'. APIConfig_String cfg = APIConfig_String cfg' \<and> APIConfig_GoString cfg = APIConfig_GoString cfg')"
proof (intro conjI)
  show "LoadAPIConfig ae path = Inr cfg \<longleftrightarrow>
     path \<noteq> [] \<and> (\<exists>info data. ae_Stat ae path = Inr info \<and> fi_IsRegular info \<and> (ae_windows ae \<or> fi_Perm info mod 64 = 0)
       \<and> ae_ReadFile ae path = Inr data \<and> ae_Unmarshal ae data = Inr cfg)
     \<and> apc_CACertificate cfg \<noteq> [] \<and> apc_ClientCert cfg \<noteq> [] \<and> apc_ClientPrivateKey cfg \<noteq> [] \<and> apc_APIConnectionString cfg \<noteq> []"
    by (simp add: LoadAPIConfig_ok_iff perm_private_iff api_config_complete_def)
  show "\<forall>info r u. ae_Stat ae path = Inr info \<and> (\<not> fi_IsRegular info \<or> \<not> ae_windows ae \<and> fi_Perm info mod 64 \<noteq> 0) \<longrightarrow>
        LoadAPIConfig (ae\<lparr>ae_ReadFile := r, ae_Unmarshal := u\<rparr>) path = LoadAPIConfig ae path
        \<and> (\<exists>err. LoadAPIConfig ae path = Inl err)"
    using LoadAPIConfig_unread by metis
  show "\<forall>cfg'. APIConfig_String cfg = APIConfig_String cfg' \<and> APIConfig_GoString cfg = APIConfig_GoString cfg'"
    by (simp add: APIConfig_String_def APIConfig_GoString_def)
qed

text \<open>A machine with one private credentials file.\<close>

definition sample_credentials :: APIConfig where
  "sample_credentials = \<lparr>apc_CACertificate = ''ca'', apc_ClientCert = ''cert'', apc_ClientPrivateKey = ''key'',
     apc_APIConnectionString = ''velo:8001'', apc_Name = ''mcp'', apc_PinnedServerName = [], apc_MaxGRPCRecvSize = 0\<rparr>"

definition sample_api_env :: api_env where
  "sample_api_env = \<lparr>ae_Stat = (\<lambda>p. if p = ''api.yaml'' then Inr \<lparr>fi_IsRegular = True, fi_Perm = mode0600\<rparr> else Inl (errorf ''no such file'')),
     ae_windows = False, ae_ReadFile = (\<lambda>p. Inr ''yaml''), ae_Unmarshal = (\<lambda>d. Inr sample_credentials)\<rparr>"

lemma sample_credentials_load: "LoadAPIConfig sample_api_env ''api.yaml'' = Inr sample_credentials"
  by (simp add: LoadAPIConfig_ok_iff sample_api_env_def sample_credentials_def api_config_complete_def perm_private_iff)

theorem api_config_accepted_iff_witness:
  "LoadAPIConfig sample_api_env ''api.yaml'' = Inr sample_credentials
   \<and> (\<exists>err. LoadAPIConfig (sample_api_env\<lparr>ae_Stat := (\<lambda>p. Inr \<lparr>fi_IsRegular = True, fi_Perm = 0x1A4\<rparr>)\<rparr>) ''api.yaml'' = Inl err)"
proof
  show "LoadAPIConfig sample_api_env ''api.yaml'' = Inr sample_credentials"
    by (subst api_config_accepted_iff [THEN conjunct1]) (simp add: sample_api_env_def sample_credentials_def)
  let ?ae = "sample_api_env\<lparr>ae_Stat := (\<lambda>p. Inr \<lparr>fi_IsRegular = True, fi_Perm = 0x1A4\<rparr>)\<rparr>"
  have "ae_Stat ?ae ''api.yaml'' = Inr \<lparr>fi_IsRegular = True, fi_Perm = 0x1A4\<rparr>"
    "\<not> ae_windows ?ae \<and> fi_Perm \<lparr>fi_IsRegular = True, fi_Perm = 0x1A4\<rparr> mod 64 \<noteq> 0" by (simp_all add: sample_api_env_def)
  then show "\<exists>err. LoadAPIConfig ?ae ''api.yaml'' = Inl err"
    using api_config_accepted_iff [of ?ae "''api.yaml''"] by blast
qed

end
