(* ===== verification/Time_Text.thy ===== *)
theory Time_Text
  imports Paging
begin

text \<open>
  What the program uses of Go's \<^verbatim>\<open>time\<close> package to print a time: the calendar date of a number of days since the
  Unix epoch in the proleptic Gregorian calendar, and the formats \<^verbatim>\<open>time.RFC3339\<close> (the client's timestamps) and
  \<^verbatim>\<open>time.RFC3339Nano\<close> (the JSON form of \<^verbatim>\<open>time.Time\<close>), always in UTC. Times are nanoseconds since the epoch.

  \<open>days_of_civil\<close> and \<open>ParseTime\<close> are inverses, which show that the text determines the time: \<open>ParseTime_Format\<close>, for the
  years 0 to 9999 that the JSON form allows. \<open>RFC3339_examples\<close> checks the formats on three dates.
\<close>

subsection \<open>The calendar\<close>

text \<open>Years start in March here: the day of such a year determines the month by a linear formula, and a leap day is the last
  day. Within an era of 400 years come centuries of 36524 days, blocks of four years and single years.\<close>

definition civil :: "int \<Rightarrow> int \<times> int \<times> int" where
  "civil days =
     (let z = days + 719468; era = z div 146097; doe = z mod 146097;
          century = min 3 (doe div 36524); r = doe - 36524 * century;
          block = r div 1461; r' = r - 1461 * block;
          single = min 3 (r' div 365); doy = r' - 365 * single;
          mp = (5 * doy + 2) div 153; m = (if mp < 10 then mp + 3 else mp - 9)
      in (400 * era + 100 * century + 4 * block + single + (if m \<le> 2 then 1 else 0), m, doy - (153 * mp + 2) div 5 + 1))"

definition days_of_civil :: "int \<times> int \<times> int \<Rightarrow> int" where
  "days_of_civil ymd =
     (case ymd of (y, m, d) \<Rightarrow>
       let y' = (if m \<le> 2 then y - 1 else y); yoe = y' mod 400;
           mp = (if m \<le> 2 then m + 9 else m - 3); doy = (153 * mp + 2) div 5 + d - 1
       in 146097 * (y' div 400) + 365 * yoe + yoe div 4 - yoe div 100 + doy - 719468)"

text \<open>The parts of a date, with their bounds.\<close>

lemma civil_parts:
  obtains era century block single doy where "days + 719468 = 146097 * era + 36524 * century + 1461 * block + 365 * single + doy"
    "0 \<le> century" "century \<le> 3" "0 \<le> block" "block \<le> 24" "0 \<le> single" "single \<le> 3" "0 \<le> doy" "doy \<le> 365"
    "civil days = (let mp = (5 * doy + 2) div 153; m = (if mp < 10 then mp + 3 else mp - 9)
      in (400 * era + 100 * century + 4 * block + single + (if m \<le> 2 then 1 else 0), m, doy - (153 * mp + 2) div 5 + 1))"
proof -
  define z where "z = days + 719468"
  define doe where "doe = z mod 146097"
  define century where "century = min 3 (doe div 36524)"
  define r where "r = doe - 36524 * century"
  define block where "block = r div 1461"
  define r' where "r' = r - 1461 * block"
  define single where "single = min 3 (r' div 365)"
  have doe: "0 \<le> doe" "doe \<le> 146096" by (simp_all add: doe_def)
  have c: "0 \<le> century" "century \<le> 3" "0 \<le> r" "r \<le> 36524" using doe by (auto simp: century_def r_def min_def)
  have b: "0 \<le> block" "block \<le> 24" "0 \<le> r'" "r' \<le> 1460" using c(3,4) by (auto simp: block_def r'_def minus_mult_div_eq_mod)
  have s: "0 \<le> single" "single \<le> 3" "0 \<le> r' - 365 * single" "r' - 365 * single \<le> 365" using b(3,4) by (auto simp: single_def min_def)
  have "z = 146097 * (z div 146097) + doe" by (simp add: doe_def)
  then have "z = 146097 * (z div 146097) + 36524 * century + 1461 * block + 365 * single + (r' - 365 * single)"
    by (simp add: r_def r'_def)
  then have sum: "days + 719468 = 146097 * (z div 146097) + 36524 * century + 1461 * block + 365 * single + (r' - 365 * single)"
    by (simp only: z_def)
  have "civil days = (let mp = (5 * (r' - 365 * single) + 2) div 153; m = (if mp < 10 then mp + 3 else mp - 9)
      in (400 * (z div 146097) + 100 * century + 4 * block + single + (if m \<le> 2 then 1 else 0), m,
          (r' - 365 * single) - (153 * mp + 2) div 5 + 1))"
    by (simp only: civil_def Let_def z_def doe_def century_def r_def block_def r'_def single_def)
  then show ?thesis by (rule that [OF sum c(1,2) b(1,2) s])
qed

lemma div_bounds: "0 < k \<Longrightarrow> k * (a div k) \<le> a \<and> a < k * (a div k) + k" for a k :: int
  using pos_mod_bound [of k a] pos_mod_sign [of k a] mult_div_mod_eq [of k a] by linarith

text \<open>The month and the day of the month, from the day of the year.\<close>

lemma month_bounds:
  fixes doy :: int
  assumes "0 \<le> doy" "doy \<le> 365"
  defines "mp \<equiv> (5 * doy + 2) div 153"
  shows "0 \<le> mp" "mp \<le> 11" "1 \<le> doy - (153 * mp + 2) div 5 + 1" "doy - (153 * mp + 2) div 5 + 1 \<le> 31"
    "mp < 10 \<longleftrightarrow> doy \<le> 305"
proof -
  define q where "q = (153 * mp + 2) div 5"
  have mp: "153 * mp \<le> 5 * doy + 2" "5 * doy + 2 < 153 * mp + 153" using div_bounds [of 153 "5 * doy + 2"] by (simp_all add: mp_def)
  have q: "5 * q \<le> 153 * mp + 2" "153 * mp + 2 < 5 * q + 5" using div_bounds [of 5 "153 * mp + 2"] by (simp_all add: q_def)
  show "0 \<le> mp" "mp \<le> 11" "1 \<le> doy - (153 * mp + 2) div 5 + 1" "doy - (153 * mp + 2) div 5 + 1 \<le> 31" "mp < 10 \<longleftrightarrow> doy \<le> 305"
    using mp q assms(1,2) unfolding q_def [symmetric] by linarith+
qed

definition month_of :: "int \<Rightarrow> int" where
  "month_of mp = (if mp < 10 then mp + 3 else mp - 9)"

lemma civil_cases:
  obtains era century block single doy mp where
    "days + 719468 = 146097 * era + 36524 * century + 1461 * block + 365 * single + doy"
    "0 \<le> century" "century \<le> 3" "0 \<le> block" "block \<le> 24" "0 \<le> single" "single \<le> 3" "0 \<le> doy" "doy \<le> 365"
    "mp = (5 * doy + 2) div 153" "0 \<le> mp" "mp \<le> 11"
    "civil days = (400 * era + 100 * century + 4 * block + single + (if mp < 10 then 0 else 1), month_of mp, doy - (153 * mp + 2) div 5 + 1)"
proof (rule civil_parts [of days])
  fix era century block single doy
  assume sum: "days + 719468 = 146097 * era + 36524 * century + 1461 * block + 365 * single + doy"
    and b: "0 \<le> century" "century \<le> 3" "0 \<le> block" "block \<le> 24" "0 \<le> single" "single \<le> 3" and doy: "0 \<le> doy" "doy \<le> 365"
    and c: "civil days = (let mp = (5 * doy + 2) div 153; m = (if mp < 10 then mp + 3 else mp - 9)
      in (400 * era + 100 * century + 4 * block + single + (if m \<le> 2 then 1 else 0), m, doy - (153 * mp + 2) div 5 + 1))"
  define mp where "mp = (5 * doy + 2) div 153"
  have mp: "0 \<le> mp" "mp \<le> 11" using month_bounds(1,2) [OF doy] by (simp_all add: mp_def)
  have "civil days = (400 * era + 100 * century + 4 * block + single + (if mp < 10 then 0 else 1), month_of mp, doy - (153 * mp + 2) div 5 + 1)"
    unfolding c Let_def mp_def [symmetric] month_of_def using mp by simp
  with sum b doy mp show thesis using that mp_def by blast
qed

lemma civil_bounds:
  assumes "civil days = (y, m, d)" shows "1 \<le> m \<and> m \<le> 12 \<and> 1 \<le> d \<and> d \<le> 31"
proof (rule civil_cases [of days])
  fix era century block single doy mp
  assume doy: "0 \<le> doy" "doy \<le> 365" and mp: "mp = (5 * doy + 2) div 153" "0 \<le> mp" "mp \<le> 11"
    and "civil days = (400 * era + 100 * century + 4 * block + single + (if mp < 10 then 0 else 1), month_of mp, doy - (153 * mp + 2) div 5 + 1)"
  with assms have "m = month_of mp" "d = doy - (153 * mp + 2) div 5 + 1" by simp_all
  then show ?thesis using month_bounds(3,4) [OF doy] mp unfolding mp(1) [symmetric] by (simp add: month_of_def)
qed

lemma year_of_era:
  fixes era century block single :: int
  assumes "0 \<le> century" "century \<le> 3" "0 \<le> block" "block \<le> 24" "0 \<le> single" "single \<le> 3"
  defines "yoe \<equiv> 100 * century + 4 * block + single"
  shows "(400 * era + yoe) div 400 = era" "(400 * era + yoe) mod 400 = yoe" "yoe div 4 = 25 * century + block" "yoe div 100 = century"
  using assms(1-6) unfolding yoe_def
  by (auto intro: int_div_pos_eq int_mod_pos_eq [of _ _ era] int_div_pos_eq [where r = single])

lemma days_of_civil: "days_of_civil (civil days) = days"
proof (rule civil_cases [of days])
  fix era century block single doy mp
  assume sum: "days + 719468 = 146097 * era + 36524 * century + 1461 * block + 365 * single + doy"
    and b: "0 \<le> century" "century \<le> 3" "0 \<le> block" "block \<le> 24" "0 \<le> single" "single \<le> 3" and mp: "0 \<le> mp" "mp \<le> 11"
    and c: "civil days = (400 * era + 100 * century + 4 * block + single + (if mp < 10 then 0 else 1), month_of mp, doy - (153 * mp + 2) div 5 + 1)"
  define yoe where "yoe = 100 * century + 4 * block + single"
  have "days_of_civil (civil days) = 146097 * ((400 * era + yoe) div 400) + 365 * ((400 * era + yoe) mod 400)
      + (400 * era + yoe) mod 400 div 4 - (400 * era + yoe) mod 400 div 100 + doy - 719468"
    unfolding c days_of_civil_def using mp by (cases "mp < 10") (simp_all add: Let_def month_of_def yoe_def add.assoc)
  also have "\<dots> = days" using sum unfolding yoe_def year_of_era [OF b] by simp
  finally show ?thesis .
qed

lemma civil_year:
  assumes "civil days = (y, m, d)" and "- 719528 \<le> days" and "days \<le> 2932896" shows "0 \<le> y \<and> y \<le> 9999"
proof (rule civil_cases [of days])
  fix era century block single doy mp
  assume sum: "days + 719468 = 146097 * era + 36524 * century + 1461 * block + 365 * single + doy"
    and b: "0 \<le> century" "century \<le> 3" "0 \<le> block" "block \<le> 24" "0 \<le> single" "single \<le> 3" and doy: "0 \<le> doy" "doy \<le> 365"
    and mp: "mp = (5 * doy + 2) div 153"
    and c: "civil days = (400 * era + 100 * century + 4 * block + single + (if mp < 10 then 0 else 1), month_of mp, doy - (153 * mp + 2) div 5 + 1)"
  define late :: int where "late = (if doy \<le> 305 then 0 else 1)"
  have y: "y = 400 * era + 100 * century + 4 * block + single + late" using c assms(1) month_bounds(5) [OF doy] by (simp add: mp late_def)
  have late: "late = 0 \<and> doy \<le> 305 \<or> late = 1 \<and> 306 \<le> doy" by (simp add: late_def)
  have era: "- 1 \<le> era" "era \<le> 24" using sum b doy assms(2,3) by linarith+
  have "0 \<le> y"
  proof (cases "era = - 1")
    case True
    have "century = 3" using sum b doy assms(2) True by linarith
    moreover from this have "block = 24" using sum b doy assms(2) True by linarith
    moreover from calculation have "single = 3" using sum b doy assms(2) True by linarith
    ultimately show ?thesis using sum y late assms(2) True by linarith
  next
    case False
    then show ?thesis using era y b late by linarith
  qed
  moreover have "y \<le> 9999"
  proof (rule ccontr)
    assume "\<not> y \<le> 9999"
    moreover from this have e: "era = 24" "late = 1" using era y b late by linarith+
    ultimately have "century = 3 \<and> block = 24 \<and> single = 3" using y b by linarith
    then show False using sum e late assms(3) by linarith
  qed
  ultimately show ?thesis ..
qed

subsection \<open>Digits\<close>

text \<open>\<open>padded w n\<close>: the last \<open>w\<close> decimal digits of \<open>n\<close>.\<close>

fun padded :: "nat \<Rightarrow> nat \<Rightarrow> string" where
  "padded 0 n = []"
| "padded (Suc w) n = padded w (n div 10) @ [digit_char (n mod 10)]"

definition number :: "string \<Rightarrow> nat" where
  "number s = nat (digits_val 0 s)"

lemma length_padded [simp]: "length (padded w n) = w"
  by (induction w arbitrary: n) simp_all

lemma padded_digits: "list_all is_digit (padded w n)"
  by (induction w arbitrary: n) simp_all

lemma digits_val_padded: "n < 10 ^ w \<Longrightarrow> digits_val 0 (padded w n) = int n"
proof (induction w arbitrary: n)
  case (Suc w)
  then have "digits_val 0 (padded w (n div 10)) = int (n div 10)" by (simp add: div_less_iff_less_mult mult.commute)
  then show ?case by (simp add: digits_val_append digit_val_def of_char_digit_char zdiv_int zmod_int)
qed simp

lemma number_padded [simp]: "n < 10 ^ w \<Longrightarrow> number (padded w n) = n"
  by (simp add: number_def digits_val_padded)

subsection \<open>Formats\<close>

text \<open>Years beyond four digits are printed in full, negative ones with a sign.\<close>

definition year_text :: "int \<Rightarrow> string" where
  "year_text y = (if y < 0 then ''-'' else []) @ (if \<bar>y\<bar> \<le> 9999 then padded 4 (nat \<bar>y\<bar>) else Itoa (nat \<bar>y\<bar>))"

definition second :: int where
  "second = 10 ^ 9"

lemma second: "second = 1000000000"
  by (simp add: second_def)

definition FormatRFC3339 :: "int \<Rightarrow> string" where
  "FormatRFC3339 t =
     (case civil (t div second div 86400) of (y, m, d) \<Rightarrow>
       let s = nat (t div second mod 86400) in
       year_text y @ ''-'' @ padded 2 (nat m) @ ''-'' @ padded 2 (nat d) @ ''T'' @ padded 2 (s div 3600) @ '':''
         @ padded 2 (s div 60 mod 60) @ '':'' @ padded 2 (s mod 60))"

text \<open>The fraction of a second, without trailing zeros.\<close>

definition trim_zeros :: "string \<Rightarrow> string" where
  "trim_zeros s = rev (dropWhile (\<lambda>c. c = CHR ''0'') (rev s))"

definition fraction :: "int \<Rightarrow> string" where
  "fraction ns = (if ns = 0 then [] else CHR ''.'' # trim_zeros (padded 9 (nat ns)))"

definition RFC3339 :: "int \<Rightarrow> string" where
  "RFC3339 t = FormatRFC3339 t @ ''Z''"

definition RFC3339Nano :: "int \<Rightarrow> string" where
  "RFC3339Nano t = FormatRFC3339 t @ fraction (t mod second) @ ''Z''"

subsection \<open>Reading a time\<close>

definition parse_fraction :: "string \<Rightarrow> nat" where
  "parse_fraction s =
     (if s \<noteq> [] \<and> hd s = CHR ''.''
      then let ds = takeWhile is_digit (tl s) in number (ds @ replicate (9 - length ds) (CHR ''0''))
      else 0)"

definition ParseTime :: "string \<Rightarrow> int" where
  "ParseTime s =
     (let days = days_of_civil (int (number (take 4 s)), int (number (take 2 (drop 5 s))), int (number (take 2 (drop 8 s))));
          secs = 3600 * number (take 2 (drop 11 s)) + 60 * number (take 2 (drop 14 s)) + number (take 2 (drop 17 s))
      in (86400 * days + int secs) * second + int (parse_fraction (drop 19 s)))"

definition json_time :: "int \<Rightarrow> bool" where
  "json_time t \<longleftrightarrow> - 62167219200 * second \<le> t \<and> t < 253402300800 * second"

lemma trim_zeros_pad: "trim_zeros s @ replicate (length s - length (trim_zeros s)) (CHR ''0'') = s"
proof -
  have "takeWhile (\<lambda>c. c = CHR ''0'') (rev s) = replicate (length s - length (trim_zeros s)) (CHR ''0'')"
    unfolding trim_zeros_def using set_takeWhileD [of _ "\<lambda>c. c = CHR ''0''" "rev s"]
    by (intro replicate_eqI) (auto simp: length_dropWhile_le dest: set_takeWhileD, metis add_diff_cancel_right' length_append length_rev takeWhile_dropWhile_id)
  then have "rev s = replicate (length s - length (trim_zeros s)) (CHR ''0'') @ rev (trim_zeros s)"
    unfolding trim_zeros_def by (metis rev_rev_ident takeWhile_dropWhile_id)
  then show ?thesis by (metis rev_append rev_replicate rev_rev_ident)
qed

subsection \<open>The text determines the time\<close>

lemma trim_zeros_digits: "list_all is_digit s \<Longrightarrow> list_all is_digit (trim_zeros s)"
  by (auto simp: trim_zeros_def list_all_iff dest: set_dropWhileD)

lemma takeWhile_digits: "list_all is_digit ds \<Longrightarrow> takeWhile is_digit (ds @ ''Z'') = ds"
  by (simp add: takeWhile_append2 list_all_iff is_digit_def)

lemma parse_fraction:
  assumes "0 \<le> ns" and "ns < second" shows "parse_fraction (fraction ns @ ''Z'') = nat ns"
proof (cases "ns = 0")
  case False
  define ds where "ds = trim_zeros (padded 9 (nat ns))"
  have "takeWhile is_digit (ds @ ''Z'') = ds" unfolding ds_def by (intro takeWhile_digits trim_zeros_digits padded_digits)
  moreover have "ds @ replicate (9 - length ds) (CHR ''0'') = padded 9 (nat ns)" using trim_zeros_pad [of "padded 9 (nat ns)"] by (simp add: ds_def)
  moreover have "nat ns < 10 ^ 9" using assms by (simp add: second_def)
  ultimately show ?thesis using False by (simp add: parse_fraction_def fraction_def ds_def [symmetric] Let_def del: padded.simps)
qed (simp add: parse_fraction_def fraction_def)

lemma json_time_day:
  assumes "json_time t" shows "- 719528 \<le> t div second div 86400" and "t div second div 86400 \<le> 2932896"
proof -
  have "second * (t div second) \<le> t" "t < second * (t div second) + second" using div_bounds [of second t] by (simp_all add: second)
  moreover have "- 62167219200 * second \<le> t" "t < 253402300800 * second" using assms by (simp_all add: json_time_def)
  moreover have "86400 * (t div second div 86400) \<le> t div second" "t div second < 86400 * (t div second div 86400) + 86400"
    using div_bounds [of 86400 "t div second"] by simp_all
  ultimately show "- 719528 \<le> t div second div 86400" "t div second div 86400 \<le> 2932896"
    unfolding second by linarith+
qed

text \<open>For a time in the years 0 to 9999 every field has its fixed width.\<close>

lemma Format_fields:
  assumes "json_time t"
  obtains y m d s where "civil (t div second div 86400) = (int y, int m, int d)" "int s = t div second mod 86400"
    "y < 10 ^ 4" "m < 10 ^ 2" "d < 10 ^ 2" "s < 86400"
    "FormatRFC3339 t = padded 4 y @ ''-'' @ padded 2 m @ ''-'' @ padded 2 d @ ''T'' @ padded 2 (s div 3600) @ '':''
       @ padded 2 (s div 60 mod 60) @ '':'' @ padded 2 (s mod 60)"
proof -
  obtain y m d where c: "civil (t div second div 86400) = (y, m, d)" by (cases "civil (t div second div 86400)")
  note b = civil_bounds [OF c] civil_year [OF c json_time_day [OF assms]]
  define s where "s = nat (t div second mod 86400)"
  have "FormatRFC3339 t = padded 4 (nat y) @ ''-'' @ padded 2 (nat m) @ ''-'' @ padded 2 (nat d) @ ''T'' @ padded 2 (s div 3600) @ '':''
       @ padded 2 (s div 60 mod 60) @ '':'' @ padded 2 (s mod 60)"
    using b by (simp add: FormatRFC3339_def c year_text_def s_def [symmetric] Let_def del: padded.simps)
  then show thesis using b c by (intro that [of "nat y" "nat m" "nat d" s]) (auto simp: s_def nat_less_iff)
qed

lemma clock_fields: "3600 * (s div 3600) + 60 * (s div 60 mod 60) + s mod 60 = s" for s :: nat
proof -
  have "s div 3600 = s div 60 div 60" by (simp add: div_mult2_eq [symmetric])
  then show ?thesis using div_mult_mod_eq [of "s div 60" 60] div_mult_mod_eq [of s 60] by linarith
qed

lemma ParseTime_Format:
  assumes "json_time t" shows "ParseTime (RFC3339Nano t) = t"
proof (rule Format_fields [OF assms])
  fix y m d s
  assume c: "civil (t div second div 86400) = (int y, int m, int d)" and s: "int s = t div second mod 86400"
    and b: "y < 10 ^ 4" "m < 10 ^ 2" "d < 10 ^ 2" "s < 86400"
    and f: "FormatRFC3339 t = padded 4 y @ ''-'' @ padded 2 m @ ''-'' @ padded 2 d @ ''T'' @ padded 2 (s div 3600) @ '':''
       @ padded 2 (s div 60 mod 60) @ '':'' @ padded 2 (s mod 60)"
  have h: "s div 3600 < 10 ^ 2" "s div 60 mod 60 < 10 ^ 2" "s mod 60 < 10 ^ 2"
    using b(4) pos_mod_bound by (simp_all add: div_less_iff_less_mult less_trans [OF mod_less_divisor])
  have frac: "parse_fraction (fraction (t mod second) @ ''Z'') = nat (t mod second)" by (rule parse_fraction) (simp_all add: second_def)
  have "ParseTime (RFC3339Nano t) = (86400 * days_of_civil (int y, int m, int d)
      + int (3600 * (s div 3600) + 60 * (s div 60 mod 60) + s mod 60)) * second + int (nat (t mod second))"
    unfolding ParseTime_def RFC3339Nano_def f Let_def
    using b h frac by (simp add: drop_Cons' take_Cons' del: padded.simps power_Suc)
  also have "\<dots> = t" unfolding clock_fields c [symmetric] days_of_civil s by (simp add: second_def)
  finally show ?thesis .
qed

lemma RFC3339Nano_chars:
  assumes "json_time t" and "c \<in> set (RFC3339Nano t)" shows "is_digit c \<or> c \<in> set ''-T:.Z''"
proof (rule Format_fields [OF assms(1)])
  fix y m d s
  assume f: "FormatRFC3339 t = padded 4 y @ ''-'' @ padded 2 m @ ''-'' @ padded 2 d @ ''T'' @ padded 2 (s div 3600) @ '':''
       @ padded 2 (s div 60 mod 60) @ '':'' @ padded 2 (s mod 60)"
  have "is_digit c" if "c \<in> set (padded w n)" for w n using that padded_digits by (auto simp: list_all_iff)
  moreover have "is_digit c" if "c \<in> set (trim_zeros (padded 9 n))" for n
    using that trim_zeros_digits [OF padded_digits [of 9 n]] by (auto simp: list_all_iff simp del: padded.simps)
  ultimately show ?thesis
    using assms(2) unfolding RFC3339Nano_def f fraction_def by (auto simp del: padded.simps split: if_splits)
qed

text \<open>The client's timestamps are exact to the second.\<close>

lemma RFC3339_second: "RFC3339 t = RFC3339Nano (second * (t div second))"
  by (simp add: RFC3339_def RFC3339Nano_def FormatRFC3339_def fraction_def second_def)

lemma ParseTime_RFC3339:
  assumes "json_time t" shows "ParseTime (RFC3339 t) = second * (t div second)"
proof -
  have "json_time (second * (t div second))"
    using assms div_bounds [of second t] by (simp add: json_time_def second)
  then show ?thesis by (simp add: RFC3339_second ParseTime_Format)
qed

lemma padded_numeral: "padded (numeral k) n = padded (pred_numeral k) (n div 10) @ [digit_char (n mod 10)]"
  unfolding numeral_eq_Suc [of k] by (rule padded.simps(2))

lemma civil_examples: "civil 0 = (1970, 1, 1)" "civil 19782 = (2024, 2, 29)" "civil (- 719162) = (1, 1, 1)"
  by (simp_all add: civil_def cong: let_weak_cong)

lemma digit_chars:
  "digit_char 0 = CHR ''0''" "digit_char (Suc 0) = CHR ''1''" "digit_char 2 = CHR ''2''" "digit_char 3 = CHR ''3''" "digit_char 4 = CHR ''4''"
  "digit_char 5 = CHR ''5''" "digit_char 6 = CHR ''6''" "digit_char 7 = CHR ''7''" "digit_char 8 = CHR ''8''" "digit_char 9 = CHR ''9''"
  by (simp_all add: digit_char_def char_of_def bit_0)

lemma RFC3339_examples:
  "RFC3339 0 = ''1970-01-01T00:00:00Z''"
  "RFC3339Nano (1709210096 * second + 789000000) = ''2024-02-29T12:34:56.789Z''"
  "RFC3339 (- 62135596800 * second) = ''0001-01-01T00:00:00Z''"
  by (simp_all add: RFC3339_def RFC3339Nano_def FormatRFC3339_def civil_examples year_text_def fraction_def trim_zeros_def padded_numeral
      digit_chars second cong: let_weak_cong)

end
