(* ===== verification/Grpc_Client.thy ===== *)
theory Grpc_Client
  imports Table Api_Config Time_Text
begin

text \<open>
  \<^verbatim>\<open>internal/velociraptor/grpcclient.go\<close>: the client that speaks to a real server. This theory holds its state, its
  construction, limits, error sanitizing, the client and artifact methods and the resolution of result sources;
  flows, hunts and uploads have theories of their own.

  A method takes the moment of the call and returns the remote calls it made with its result
  (\<^typ>\<open>'a rpc_run\<close>). A deadline of \<^verbatim>\<open>context.WithTimeout\<close> that passes shows as an error of the call it cuts off.
  What comes from outside is in \<open>grpc_env\<close>: decoding of rows, \<^verbatim>\<open>%q\<close> and lower case of
  non-ASCII text.
\<close>

record grpc_env =
  ge_decode :: decode_env
  ge_quote :: "string \<Rightarrow> string"
  ge_lowerU :: "string \<Rightarrow> string"

subsection \<open>Errors\<close>

function strip_pem :: "string \<Rightarrow> string" where
  "strip_pem msg =
     (case Index msg ''-----BEGIN'' of
        None \<Rightarrow> msg
      | Some idx \<Rightarrow>
          (case Index (drop idx msg) ''-----END'' of
             None \<Rightarrow> take idx msg @ ''[REDACTED]''
           | Some e \<Rightarrow>
               let relEnd = idx + e in
               (case Index (drop relEnd msg) [CHR 0x0A] of
                  None \<Rightarrow> take idx msg @ ''[REDACTED]''
                | Some nl \<Rightarrow> strip_pem (take idx msg @ ''[REDACTED]'' @ drop (relEnd + nl + 1) msg))))"
  by pat_completeness auto
termination
proof (relation "measure length")
  fix msg idx e relEnd nl
  assume "Index msg ''-----BEGIN'' = Some idx" "Index (drop idx msg) ''-----END'' = Some e" "relEnd = idx + e"
    "Index (drop relEnd msg) [CHR 0x0A] = Some nl"
  then have "6 \<le> e \<and> 8 \<le> nl \<and> idx + e + nl < length msg" using Index_drop_bounds by blast
  then show "(take idx msg @ ''[REDACTED]'' @ drop (relEnd + nl + 1) msg, msg) \<in> measure length"
    using \<open>relEnd = idx + e\<close> by simp arith
qed simp

declare strip_pem.simps [simp del]

text \<open>The nil error, which stays nil, does not reach the function: every caller has tested for it.\<close>

definition sanitizeTLSError :: "grpc_env \<Rightarrow> gerror \<Rightarrow> gerror" where
  "sanitizeTLSError ge err = errorf (strip_pem (Error_text (ge_quote ge) err))"

abbreviation rpc_error :: "grpc_env \<Rightarrow> string \<Rightarrow> gerror \<Rightarrow> gerror" where
  "rpc_error ge what err \<equiv> Errorf [Lit (''velociraptor: '' @ what @ '': ''), Wrap (sanitizeTLSError ge err)]"

definition isNotFoundError :: "grpc_env \<Rightarrow> gerror \<Rightarrow> bool" where
  "isNotFoundError ge err \<longleftrightarrow> Contains (ToLower (ge_lowerU ge) (Error_text (ge_quote ge) err)) ''not found''"

subsection \<open>State and construction\<close>

record grpcClient =
  gc_health :: "nat \<Rightarrow> HealthCheckRequest \<Rightarrow> gerror + HealthCheckResponse"
  gc_clients :: "nat \<Rightarrow> SearchClientsRequest \<Rightarrow> gerror + SearchClientsResponse"
  gc_clientDetail :: "nat \<Rightarrow> GetClientRequest \<Rightarrow> gerror + ApiClient"
  gc_artifacts :: "(nat \<Rightarrow> GetArtifactsRequest \<Rightarrow> gerror + ArtifactDescriptors) option"
  gc_flows :: flowService
  gc_tables :: "nat \<Rightarrow> GetTableRequest \<Rightarrow> gerror + GetTableResponse"
  gc_vfs :: "nat \<Rightarrow> VFSFileBuffer \<Rightarrow> gerror + VFSFileBuffer"
  gc_hunts :: huntService
  gc_timeout :: int
  gc_orgID :: string
  gc_maxRows :: int

definition defaultMaxRows :: int where
  "defaultMaxRows = 100"

definition defaultPinnedServerName :: string where
  "defaultPinnedServerName = ''VelociraptorServer''"

definition VersionTLS13 :: "16 word" where
  "VersionTLS13 = 0x0304"

text \<open>
  The parts of \<^verbatim>\<open>crypto/tls\<close>, \<^verbatim>\<open>crypto/x509\<close> and \<^verbatim>\<open>grpc\<close> used to connect, over arbitrary types for a parsed
  certificate and a pool: \<open>te_NewClient\<close> stands for \<^verbatim>\<open>grpc.NewClient\<close> with the given transport credentials, followed
  by \<^verbatim>\<open>veloapi.NewAPIClient\<close>. \<open>te_AppendCertsFromPEM\<close> is \<^const>\<open>None\<close> when no certificate could be parsed.
\<close>

record ('c, 'p) tls_config =
  tc_Certificates :: "'c list"
  tc_RootCAs :: 'p
  tc_ServerName :: string
  tc_MinVersion :: "16 word"

record ('c, 'p) tls_env =
  te_api :: api_env
  te_X509KeyPair :: "string \<Rightarrow> string \<Rightarrow> gerror + 'c"
  te_AppendCertsFromPEM :: "string \<Rightarrow> 'p option"
  te_NewClient :: "string \<Rightarrow> ('c, 'p) tls_config \<Rightarrow> gerror + APIClient"

definition NewGRPCClient ::
  "grpc_env \<Rightarrow> ('c, 'p) tls_env \<Rightarrow> string \<Rightarrow> string \<Rightarrow> int \<Rightarrow> int \<Rightarrow> gerror + grpcClient" where
  "NewGRPCClient ge te apiConfigPath orgID timeout maxRows =
     (case LoadAPIConfig (te_api te) apiConfigPath of
        Inl err \<Rightarrow> Inl err
      | Inr apiCfg \<Rightarrow>
     (case te_X509KeyPair te (apc_ClientCert apiCfg) (apc_ClientPrivateKey apiCfg) of
        Inl err \<Rightarrow> Inl (rpc_error ge ''parse client certificate/private key'' err)
      | Inr cert \<Rightarrow>
     (case te_AppendCertsFromPEM te (apc_CACertificate apiCfg) of
        None \<Rightarrow> Inl (errorf ''velociraptor: parse CA certificate: invalid PEM data'')
      | Some caPool \<Rightarrow>
          let serverName = (if apc_PinnedServerName apiCfg = [] then defaultPinnedServerName else apc_PinnedServerName apiCfg) in
     (case te_NewClient te (apc_APIConnectionString apiCfg)
             \<lparr>tc_Certificates = [cert], tc_RootCAs = caPool, tc_ServerName = serverName, tc_MinVersion = VersionTLS13\<rparr> of
        Inl err \<Rightarrow> Inl (rpc_error ge (''create gRPC client for '' @ apc_APIConnectionString apiCfg) err)
      | Inr api \<Rightarrow>
          Inr \<lparr>gc_health = api_Check api, gc_clients = api_ListClients api, gc_clientDetail = api_GetClient api,
               gc_artifacts = Some (api_GetArtifacts api), gc_flows = api_flows api, gc_tables = api_GetTable api,
               gc_vfs = api_VFSGetBuffer api, gc_hunts = api_hunts api,
               gc_timeout = timeout, gc_orgID = orgID, gc_maxRows = maxRows\<rparr>))))"

definition SupportsBackendOperation :: "grpcClient \<Rightarrow> BackendOperation \<Rightarrow> bool" where
  "SupportsBackendOperation c operation \<longleftrightarrow>
     operation \<in> {BackendOpCollectArtifact, BackendOpCancelFlow, BackendOpDownloadFlowUpload, BackendOpStartHunt, BackendOpCancelHunt}"

subsection \<open>Limits and conversions\<close>

definition effectiveMaxRows :: "grpcClient \<Rightarrow> int" where
  "effectiveMaxRows c = (if gc_maxRows c > 0 then gc_maxRows c else defaultMaxRows)"

definition boundLimit :: "int \<Rightarrow> int \<Rightarrow> int" where
  "boundLimit requested ceiling0 =
     (let ceiling = (if ceiling0 \<le> 0 then defaultMaxRows else ceiling0) in
      if requested \<le> 0 \<or> requested > ceiling then ceiling else requested)"

text \<open>\<^verbatim>\<open>uint64\<close> of an \<^verbatim>\<open>int\<close>, and \<^verbatim>\<open>int64\<close> of a \<^verbatim>\<open>uint64\<close>.\<close>

abbreviation uint64 :: "int \<Rightarrow> 64 word" where "uint64 \<equiv> word_of_int"
abbreviation int64 :: "64 word \<Rightarrow> int" where "int64 \<equiv> sint"

definition microsecondsToRFC3339 :: "64 word \<Rightarrow> string" where
  "microsecondsToRFC3339 ts = (if ts = 0 then [] else RFC3339 (1000 * int64 ts))"

text \<open>\<^verbatim>\<open>if len(items) > bounded { items = items[:bounded] }\<close>\<close>

definition clip :: "int \<Rightarrow> 'a list \<Rightarrow> 'a list" where
  "clip bounded items = (if int (length items) > bounded then take (nat bounded) items else items)"

subsection \<open>Health and clients\<close>

definition HealthCheck :: "grpc_env \<Rightarrow> grpcClient \<Rightarrow> nat \<Rightarrow> Info rpc_run" where
  "HealthCheck ge c t =
     (let req = \<lparr>hcr_service = []\<rparr> in
      rpc_then (RPC_Check req) (gc_health c t req)
        (\<lambda>answer. case answer of
           Inl err \<Rightarrow> rpc_fail (rpc_error ge ''health check'' err)
         | Inr resp \<Rightarrow>
             if hcs_status resp \<noteq> Status_SERVING
             then rpc_fail (errorf (''velociraptor: health check: server reported status '' @ ServingStatus_String (hcs_status resp)))
             else rpc_ok \<lparr>in_ServerVersion = [], in_OrgID = gc_orgID c\<rparr>))"

definition toClientSummary :: "ApiClient \<Rightarrow> ClientSummary" where
  "toClientSummary a =
     \<lparr>cl_ClientID = ac_client_id a,
      cl_Hostname = (case ac_os_info a of Some osInfo \<Rightarrow> un_hostname osInfo | None \<Rightarrow> []),
      cl_OS = (case ac_os_info a of Some osInfo \<Rightarrow> un_system osInfo | None \<Rightarrow> []),
      cl_LastSeenAt = microsecondsToRFC3339 (ac_last_seen_at a),
      cl_LastIP = ac_last_ip a,
      cl_AgentVersion = (case ac_agent_information a of Some agent \<Rightarrow> ai_version agent | None \<Rightarrow> [])\<rparr>"

definition SearchClients :: "grpc_env \<Rightarrow> grpcClient \<Rightarrow> nat \<Rightarrow> string \<Rightarrow> int \<Rightarrow> ClientSummary list rpc_run" where
  "SearchClients ge c t query limit =
     (let bounded = boundLimit limit (effectiveMaxRows c);
          req = \<lparr>scr_offset = 0, scr_limit = uint64 bounded, scr_query = query\<rparr> in
      rpc_then (RPC_ListClients req) (gc_clients c t req)
        (\<lambda>answer. case answer of
           Inl err \<Rightarrow> rpc_fail (rpc_error ge ''search clients'' err)
         | Inr resp \<Rightarrow> rpc_ok (map toClientSummary (clip bounded (scs_items resp)))))"

definition GetClientInfo :: "grpc_env \<Rightarrow> grpcClient \<Rightarrow> nat \<Rightarrow> string \<Rightarrow> ClientDetail rpc_run" where
  "GetClientInfo ge c t clientID =
     (let req = \<lparr>gcr_client_id = clientID\<rparr> in
      rpc_then (RPC_GetClient req) (gc_clientDetail c t req)
        (\<lambda>answer. case answer of
           Inl err \<Rightarrow> rpc_fail (rpc_error ge ''get client info'' err)
         | Inr resp \<Rightarrow>
             if ac_client_id resp = []
             then rpc_fail (Errorf [Lit ''velociraptor: get client info: '', Wrap (Sentinel ErrClientNotFound)])
             else rpc_ok \<lparr>cd_Summary = toClientSummary resp, cd_Labels = ac_labels resp,
                          cd_MacAddresses = (case ac_os_info resp of Some osInfo \<Rightarrow> un_mac_addresses osInfo | None \<Rightarrow> [])\<rparr>))"

subsection \<open>Artifacts\<close>

definition toArtifactParameters :: "PbArtifactParameter list \<Rightarrow> ArtifactParameter list" where
  "toArtifactParameters params =
     map (\<lambda>p. \<lparr>ap_Name = pap_name p, ap_Type = pap_type p, ap_Description = pap_description p, ap_Default = pap_default p\<rparr>) params"

text \<open>A call through a nil catalog is a nil dereference; only \<^verbatim>\<open>resolveArtifactSourceNames\<close> tests for one, and
  \<^const>\<open>NewGRPCClient\<close> never leaves it nil.\<close>

definition GetArtifacts :: "grpcClient \<Rightarrow> nat \<Rightarrow> GetArtifactsRequest \<Rightarrow> gerror + ArtifactDescriptors" where
  "GetArtifacts c t req =
     (case gc_artifacts c of
        Some catalog \<Rightarrow> catalog t req
      | None \<Rightarrow> Inl (errorf ''runtime error: invalid memory address or nil pointer dereference''))"

definition ListArtifactNames :: "grpc_env \<Rightarrow> grpcClient \<Rightarrow> nat \<Rightarrow> ArtifactSummary list rpc_run" where
  "ListArtifactNames ge c t =
     (let bounded = effectiveMaxRows c;
          req = \<lparr>gar_search_term = [], gar_number_of_results = uint64 bounded, gar_names = []\<rparr> in
      rpc_then (RPC_GetArtifacts req) (GetArtifacts c t req)
        (\<lambda>answer. case answer of
           Inl err \<Rightarrow> rpc_fail (rpc_error ge ''list artifact names'' err)
         | Inr resp \<Rightarrow> rpc_ok (map (\<lambda>a. \<lparr>as_Name = art_name a, as_Description = art_description a\<rparr>) (clip bounded (ads_items resp)))))"

definition GetArtifactDetails :: "grpc_env \<Rightarrow> grpcClient \<Rightarrow> nat \<Rightarrow> string \<Rightarrow> ArtifactDetail rpc_run" where
  "GetArtifactDetails ge c t name =
     (let req = \<lparr>gar_search_term = [], gar_number_of_results = 0, gar_names = [name]\<rparr> in
      rpc_then (RPC_GetArtifacts req) (GetArtifacts c t req)
        (\<lambda>answer. case answer of
           Inl err \<Rightarrow> rpc_fail (rpc_error ge ''get artifact details'' err)
         | Inr resp \<Rightarrow>
             (case ads_items resp of
                [] \<Rightarrow> rpc_fail (Errorf [Lit ''velociraptor: artifact '', Quo name, Lit '' not found: '', Wrap (Sentinel ErrArtifactNotFound)])
              | a # _ \<Rightarrow> rpc_ok \<lparr>ad_Summary = \<lparr>as_Name = art_name a, as_Description = art_description a\<rparr>,
                                ad_Parameters = toArtifactParameters (art_parameters a)\<rparr>)))"

subsection \<open>Result sources\<close>

definition resolveArtifactSourceNames :: "grpc_env \<Rightarrow> grpcClient \<Rightarrow> nat \<Rightarrow> string \<Rightarrow> string list rpc_run" where
  "resolveArtifactSourceNames ge c t artifact =
     (case gc_artifacts c of
        None \<Rightarrow> rpc_ok []
      | Some catalog \<Rightarrow>
          let req = \<lparr>gar_search_term = [], gar_number_of_results = 0, gar_names = [artifact]\<rparr> in
          rpc_then (RPC_GetArtifacts req) (catalog t req)
            (\<lambda>answer. case answer of
               Inl err \<Rightarrow> rpc_fail (rpc_error ge ''resolve artifact sources'' err)
             | Inr resp \<Rightarrow>
                 (case ads_items resp of
                    [] \<Rightarrow> rpc_ok []
                  | a # _ \<Rightarrow> rpc_ok (filter (\<lambda>n. n \<noteq> []) (map src_name (art_sources a))))))"

text \<open>The callers ignore the error and go on with no sources.\<close>

definition sources_or_none :: "string list rpc_run \<Rightarrow> string list" where
  "sources_or_none run = (case snd run of Inl err \<Rightarrow> [] | Inr names \<Rightarrow> names)"

definition containsString :: "string list \<Rightarrow> string \<Rightarrow> bool" where
  "containsString items target \<longleftrightarrow> list_ex (\<lambda>item. item = target) items"

text \<open>The four results of the source: qualified name, whether a source is required, the available sources, the error.\<close>

definition resolveResultArtifact :: "string \<Rightarrow> string \<Rightarrow> string list \<Rightarrow> string \<times> bool \<times> string list \<times> gerror option" where
  "resolveResultArtifact artifact requestedSource sources =
     (if requestedSource \<noteq> []
      then if sources \<noteq> [] \<and> \<not> containsString sources requestedSource
           then ([], False, sources,
                 Some (Errorf [Lit ''velociraptor: '', Wrap (Sentinel ErrUnknownResultSource), Lit '': '', Quo requestedSource,
                               Lit ('' (available: '' @ strings_Join sources '', '' @ '')'')]))
           else (artifact @ ''/'' @ requestedSource, False, [], None)
      else case sources of
        [] \<Rightarrow> (artifact, False, [], None)
      | [s] \<Rightarrow> (artifact @ ''/'' @ s, False, [], None)
      | _ \<Rightarrow> ([], True, sources, None))"

subsection \<open>A server for examples\<close>

definition sample_ge :: grpc_env where
  "sample_ge = \<lparr>ge_decode = \<lparr>de_Unmarshal = (\<lambda>j. Inr [VString j]), de_float64 = (\<lambda>p. None)\<rparr>, ge_quote = id, ge_lowerU = id\<rparr>"

text \<open>It answers every call with an error.\<close>

definition silent_api :: APIClient where
  "silent_api = (let no = errorf ''unavailable'' in
     \<lparr>api_Check = (\<lambda>t r. Inl no), api_ListClients = (\<lambda>t r. Inl no), api_GetClient = (\<lambda>t r. Inl no), api_GetArtifacts = (\<lambda>t r. Inl no),
      api_flows = \<lparr>fs_GetClientFlows = (\<lambda>t r. Inl no), fs_GetFlowDetails = (\<lambda>t r. Inl no), fs_CollectArtifact = (\<lambda>t r. Inl no),
        fs_CancelFlow = (\<lambda>t r. Inl no)\<rparr>,
      api_GetTable = (\<lambda>t r. Inl no), api_VFSGetBuffer = (\<lambda>t r. Inl no),
      api_hunts = \<lparr>hs_CreateHunt = (\<lambda>t r. Inl no), hs_ModifyHunt = (\<lambda>t r. Inl no), hs_ListHunts = (\<lambda>t r. Inl no),
        hs_GetHunt = (\<lambda>t r. Inl no), hs_GetHuntResults = (\<lambda>t r. Inl no), hs_EstimateHunt = (\<lambda>t r. Inl no)\<rparr>\<rparr>)"

definition sample_te :: "(string, string) tls_env" where
  "sample_te = \<lparr>te_api = sample_api_env, te_X509KeyPair = (\<lambda>cert key. Inr (cert @ key)), te_AppendCertsFromPEM = Some,
     te_NewClient = (\<lambda>addr tls. Inr silent_api)\<rparr>"

text \<open>The client \<^const>\<open>NewGRPCClient\<close> makes of a service.\<close>

definition client_of :: "APIClient \<Rightarrow> int \<Rightarrow> grpcClient" where
  "client_of api maxRows = \<lparr>gc_health = api_Check api, gc_clients = api_ListClients api, gc_clientDetail = api_GetClient api,
     gc_artifacts = Some (api_GetArtifacts api), gc_flows = api_flows api, gc_tables = api_GetTable api,
     gc_vfs = api_VFSGetBuffer api, gc_hunts = api_hunts api, gc_timeout = 30, gc_orgID = ''root'', gc_maxRows = maxRows\<rparr>"

subsection \<open>Timestamps\<close>

lemma microsecondsToRFC3339_second:
  "ts \<noteq> 0 \<Longrightarrow> json_time (1000 * int64 ts) \<Longrightarrow> ParseTime (microsecondsToRFC3339 ts) = second * (1000 * int64 ts div second)"
  by (simp add: microsecondsToRFC3339_def ParseTime_RFC3339)

subsection \<open>Sanitized errors\<close>

lemma strip_pem_eq: "strip_pem msg = SanitizeString msg"
proof (induction msg rule: strip_pem.induct)
  case (1 msg)
  show ?case
    by (subst strip_pem.simps, subst SanitizeString.simps)
       (use 1 in \<open>auto simp: redactedPlaceholder_def Let_def split: option.splits\<close>)
qed

text \<open>A header-free text, a character that no header contains, and a header-free text make a header-free text.\<close>

lemma join_clean:
  assumes "\<not> Contains p pemBegin" and "c \<notin> set pemBegin" and "\<not> Contains r pemBegin"
  shows "\<not> Contains (p @ c # r) pemBegin"
  using Index_shift [of p pemBegin c r] assms by (simp add: Contains_def)

lemma rpc_error_clean:
  assumes "\<not> Contains what pemBegin"
  shows "\<not> Contains (Error_text quote (rpc_error ge what err)) pemBegin"
proof -
  have none: "\<not> Contains [] pemBegin" and name: "\<not> Contains ''velociraptor:'' pemBegin" by code_simp+
  have head: "\<not> Contains (''velociraptor:'' @ CHR '' '' # what) pemBegin" by (rule join_clean [OF name _ assms]) simp
  have tail: "\<not> Contains ([] @ CHR '' '' # strip_pem m) pemBegin" for m
    by (rule join_clean [OF none]) (simp_all add: strip_pem_eq SanitizeString_clean)
  have "\<not> Contains ((''velociraptor:'' @ CHR '' '' # what) @ CHR '':'' # [] @ CHR '' '' # strip_pem m) pemBegin" for m
    by (rule join_clean [OF head _ tail]) simp
  then show ?thesis by (simp add: sanitizeTLSError_def)
qed



subsection \<open>Result sources\<close>

text \<open>
  Which table is read for the results of an artifact: a source that was asked for is used exactly when the
  artifact declares it or declares no named source at all, and is otherwise refused as unknown, with the declared
  ones listed; without one, an artifact with no named source is read by its bare name, with one named source by that source, and with
  several no table is chosen and all are offered.
\<close>

theorem result_source_resolution:
  "(\<forall>src. src \<noteq> [] \<longrightarrow>
     (if sources = [] \<or> src \<in> set sources
      then resolveResultArtifact artifact src sources = (artifact @ ''/'' @ src, False, [], None)
      else \<exists>err. resolveResultArtifact artifact src sources = ([], False, sources, Some err)
             \<and> errors_Is ErrUnknownResultSource err))
   \<and> resolveResultArtifact artifact [] sources =
       (if length sources = 0 then (artifact, False, [], None)
        else if length sources = 1 then (artifact @ ''/'' @ hd sources, False, [], None)
        else ([], True, sources, None))"
  by (auto simp: resolveResultArtifact_def containsString_def list_ex_iff split: list.splits)

theorem result_source_resolution_witness:
  "resolveResultArtifact ''Generic.Client.Info'' ''Users'' [''BasicInformation'', ''Users''] = (''Generic.Client.Info/Users'', False, [], None)"
  using result_source_resolution [of "[''BasicInformation'', ''Users'']" "''Generic.Client.Info''"] by force

subsection \<open>The connection\<close>

lemma NewGRPCClient_ok_iff:
  "NewGRPCClient ge te path orgID timeout maxRows = Inr c \<longleftrightarrow>
     (\<exists>cfg cert pool api. LoadAPIConfig (te_api te) path = Inr cfg
       \<and> te_X509KeyPair te (apc_ClientCert cfg) (apc_ClientPrivateKey cfg) = Inr cert
       \<and> te_AppendCertsFromPEM te (apc_CACertificate cfg) = Some pool
       \<and> te_NewClient te (apc_APIConnectionString cfg)
           \<lparr>tc_Certificates = [cert], tc_RootCAs = pool,
            tc_ServerName = (if apc_PinnedServerName cfg = [] then defaultPinnedServerName else apc_PinnedServerName cfg),
            tc_MinVersion = VersionTLS13\<rparr> = Inr api
       \<and> c = \<lparr>gc_health = api_Check api, gc_clients = api_ListClients api, gc_clientDetail = api_GetClient api,
               gc_artifacts = Some (api_GetArtifacts api), gc_flows = api_flows api, gc_tables = api_GetTable api,
               gc_vfs = api_VFSGetBuffer api, gc_hunts = api_hunts api,
               gc_timeout = timeout, gc_orgID = orgID, gc_maxRows = maxRows\<rparr>)"
  unfolding NewGRPCClient_def by (auto simp: Let_def split: sum.splits option.splits)

text \<open>
  Property C16 (safety). A real client only ever speaks over a connection that was set up with the one client certificate and key of an accepted
  credentials file, trusts only the certificate authority of that file, pins a non-empty server name, and
  allows nothing below TLS 1.3; every service of the client is that connection.
\<close>

theorem connection_is_pinned:
  assumes "NewGRPCClient ge te path orgID timeout maxRows = Inr c"
  shows "\<exists>cfg tls api. LoadAPIConfig (te_api te) path = Inr cfg
    \<and> te_NewClient te (apc_APIConnectionString cfg) tls = Inr api
    \<and> (\<exists>cert. tc_Certificates tls = [cert] \<and> te_X509KeyPair te (apc_ClientCert cfg) (apc_ClientPrivateKey cfg) = Inr cert)
    \<and> te_AppendCertsFromPEM te (apc_CACertificate cfg) = Some (tc_RootCAs tls)
    \<and> tc_ServerName tls \<noteq> [] \<and> (apc_PinnedServerName cfg \<noteq> [] \<longrightarrow> tc_ServerName tls = apc_PinnedServerName cfg)
    \<and> tc_MinVersion tls = 0x0304
    \<and> gc_health c = api_Check api \<and> gc_clients c = api_ListClients api \<and> gc_clientDetail c = api_GetClient api
    \<and> gc_artifacts c = Some (api_GetArtifacts api) \<and> gc_flows c = api_flows api \<and> gc_tables c = api_GetTable api
    \<and> gc_vfs c = api_VFSGetBuffer api \<and> gc_hunts c = api_hunts api
    \<and> gc_timeout c = timeout \<and> gc_orgID c = orgID \<and> gc_maxRows c = maxRows"
proof -
  obtain cfg cert pool api where
    a: "LoadAPIConfig (te_api te) path = Inr cfg" "te_X509KeyPair te (apc_ClientCert cfg) (apc_ClientPrivateKey cfg) = Inr cert"
      "te_AppendCertsFromPEM te (apc_CACertificate cfg) = Some pool"
    and n: "te_NewClient te (apc_APIConnectionString cfg) \<lparr>tc_Certificates = [cert], tc_RootCAs = pool,
        tc_ServerName = (if apc_PinnedServerName cfg = [] then defaultPinnedServerName else apc_PinnedServerName cfg),
        tc_MinVersion = VersionTLS13\<rparr> = Inr api" (is "te_NewClient te _ ?tls = _")
    and c: "c = \<lparr>gc_health = api_Check api, gc_clients = api_ListClients api, gc_clientDetail = api_GetClient api,
               gc_artifacts = Some (api_GetArtifacts api), gc_flows = api_flows api, gc_tables = api_GetTable api,
               gc_vfs = api_VFSGetBuffer api, gc_hunts = api_hunts api,
               gc_timeout = timeout, gc_orgID = orgID, gc_maxRows = maxRows\<rparr>"
    using assms unfolding NewGRPCClient_ok_iff by blast
  show ?thesis
    by (rule exI [of _ cfg], rule exI [of _ ?tls], rule exI [of _ api])
       (use a n in \<open>simp add: c VersionTLS13_def defaultPinnedServerName_def\<close>)
qed

theorem connection_is_pinned_witness:
  "\<exists>c. NewGRPCClient sample_ge sample_te ''api.yaml'' ''root'' 30 50 = Inr c \<and> gc_maxRows c = 50
     \<and> gc_health c = api_Check silent_api"
proof -
  have n: "\<exists>c. NewGRPCClient sample_ge sample_te ''api.yaml'' ''root'' 30 50 = Inr c"
    by (simp add: NewGRPCClient_def sample_te_def sample_credentials_load)
  then obtain c where c: "NewGRPCClient sample_ge sample_te ''api.yaml'' ''root'' 30 50 = Inr c" by blast
  from connection_is_pinned [OF c] show ?thesis using c by (auto simp: sample_te_def)
qed

end
