(* ===== verification/Grpc_Flows.thy ===== *)
theory Grpc_Flows
  imports Grpc_Client
begin

text \<open>
  \<^verbatim>\<open>internal/velociraptor/grpcclient_flows.go\<close>: flows of the real client. A parameter map is an association
  list in the order the loop visits it.

  \<open>bound_params_for\<close>: what a collection binds. \<open>flow_pages_cover\<close>: following the cursors of a flow's results
  yields every row once.
\<close>

subsection \<open>States\<close>

definition FlowStateRunning :: string where "FlowStateRunning = ''running''"
definition FlowStateFinished :: string where "FlowStateFinished = ''finished''"
definition FlowStateError :: string where "FlowStateError = ''error''"
definition FlowStateCancelled :: string where "FlowStateCancelled = ''cancelled''"

definition mapFlowState :: "string \<Rightarrow> string \<Rightarrow> string" where
  "mapFlowState state status =
     (if state = ''FINISHED'' then FlowStateFinished
      else if state = ''ERROR''
      then if HasPrefix status ''Cancelled by '' then FlowStateCancelled else FlowStateError
      else if state \<in> {''RUNNING'', ''WAITING'', ''IN_PROGRESS'', ''UNRESPONSIVE''} then FlowStateRunning
      else FlowStateRunning)"

subsection \<open>Requests\<close>

definition firstArtifactName :: "ArtifactCollectorArgs option \<Rightarrow> string" where
  "firstArtifactName req =
     (case req of
        None \<Rightarrow> []
      | Some r \<Rightarrow>
          (case aca_artifacts r of
             a # _ \<Rightarrow> a
           | [] \<Rightarrow> (case aca_specs r of s # _ \<Rightarrow> spec_artifact s | [] \<Rightarrow> [])))"

definition envFromParams :: "string gomap \<Rightarrow> VQLEnv list" where
  "envFromParams params = map (\<lambda>(k, v). \<lparr>env_key = k, env_value = v\<rparr>) params"

definition artifactCollectorArgsFor :: "string \<Rightarrow> string \<Rightarrow> string gomap \<Rightarrow> ArtifactCollectorArgs" where
  "artifactCollectorArgsFor clientID artifact params =
     \<lparr>aca_creator = [], aca_client_id = clientID, aca_flow_id = [], aca_artifacts = [artifact],
      aca_specs = [\<lparr>spec_artifact = artifact, spec_parameters = Some \<lparr>aps_env = envFromParams params\<rparr>\<rparr>],
      aca_timeout = 0, aca_max_rows = 0, aca_max_upload_bytes = 0\<rparr>"

definition toFlowSummaryFromContext :: "string \<Rightarrow> ArtifactCollectorContext \<Rightarrow> FlowSummary" where
  "toFlowSummaryFromContext clientID fctx =
     \<lparr>fl_FlowID = acc_session_id fctx, fl_ClientID = clientID, fl_Artifact = firstArtifactName (acc_request fctx),
      fl_State = mapFlowState (CollectorState_String (acc_state fctx)) (acc_status fctx),
      fl_CreatedAt = microsecondsToRFC3339 (acc_create_time fctx)\<rparr>"

definition toFlowSummaryFromRow :: "grpc_env \<Rightarrow> string \<Rightarrow> row \<Rightarrow> FlowSummary" where
  "toFlowSummaryFromRow ge clientID row =
     \<lparr>fl_FlowID = rowStr row [''FlowId''], fl_ClientID = clientID,
      fl_Artifact = (case rowStringSlice row [''Artifacts''] of a # _ \<Rightarrow> a | [] \<Rightarrow> []),
      fl_State = mapFlowState (rowStr row [''State'']) [],
      fl_CreatedAt = microsecondsToRFC3339 (uint64 (rowInt64 (ge_decode ge) row [''Created'']))\<rparr>"

subsection \<open>Reading flows\<close>

definition ListFlows :: "grpc_env \<Rightarrow> grpcClient \<Rightarrow> nat \<Rightarrow> string \<Rightarrow> int \<Rightarrow> string \<Rightarrow> FlowSummary list rpc_run" where
  "ListFlows ge c t clientID limit cursor =
     (let bounded = boundLimit limit (effectiveMaxRows c);
          startRow = parseOffsetCursor cursor;
          req = \<lparr>gtr_rows = uint64 bounded, gtr_start_row = uint64 startRow, gtr_client_id = clientID, gtr_flow_id = [],
                 gtr_artifact = [], gtr_type = [], gtr_hunt_id = [], gtr_sort_column = ''FlowId'', gtr_sort_direction = True\<rparr> in
      rpc_then (RPC_GetClientFlows req) (fs_GetClientFlows (gc_flows c) t req)
        (\<lambda>answer. case answer of
           Inl err \<Rightarrow> rpc_fail (rpc_error ge ''list flows'' err)
         | Inr resp \<Rightarrow>
             (case decodeTableRows (ge_decode ge) (Some resp) of
                Inl err \<Rightarrow> rpc_fail (Errorf [Lit ''velociraptor: list flows: '', Wrap err])
              | Inr rows \<Rightarrow> rpc_ok (map (toFlowSummaryFromRow ge clientID) rows))))"

definition GetFlowStatus :: "grpc_env \<Rightarrow> grpcClient \<Rightarrow> nat \<Rightarrow> string \<Rightarrow> string \<Rightarrow> FlowSummary rpc_run" where
  "GetFlowStatus ge c t clientID flowID =
     (let req = \<lparr>afr_client_id = clientID, afr_flow_id = flowID\<rparr>;
          notFound = Errorf [Lit ''velociraptor: get flow status: '', Wrap (Sentinel ErrFlowNotFound)] in
      rpc_then (RPC_GetFlowDetails req) (fs_GetFlowDetails (gc_flows c) t req)
        (\<lambda>answer. case answer of
           Inl err \<Rightarrow> if isNotFoundError ge err then rpc_fail notFound else rpc_fail (rpc_error ge ''get flow status'' err)
         | Inr resp \<Rightarrow>
             (case fd_context resp of
                None \<Rightarrow> rpc_fail notFound
              | Some fctx \<Rightarrow>
                  if acc_session_id fctx = [] then rpc_fail notFound
                  else rpc_ok (toFlowSummaryFromContext clientID fctx))))"

abbreviation empty_page :: FlowResultPage where
  "empty_page \<equiv> \<lparr>fp_Rows = [], fp_Truncated = False, fp_TotalRows = 0, fp_ReturnedRows = 0, fp_NextCursor = [],
     fp_SourceRequired = False, fp_AvailableSources = []\<rparr>"

text \<open>The page made of a decoded table read from \<open>startRow\<close>, shared with the hunt results.\<close>

definition result_page :: "int \<Rightarrow> int \<Rightarrow> int \<Rightarrow> row list \<Rightarrow> FlowResultPage" where
  "result_page bounded startRow totalRows rows =
     (let returned = int (length rows);
          truncated = (returned \<ge> bounded \<and> (totalRows = 0 \<or> wrap64 (startRow + returned) < totalRows)) in
      \<lparr>fp_Rows = rows, fp_Truncated = truncated, fp_TotalRows = totalRows, fp_ReturnedRows = returned,
       fp_NextCursor = (if truncated then offsetCursor (wrap64 (startRow + returned)) else []),
       fp_SourceRequired = False, fp_AvailableSources = []\<rparr>)"

definition GetFlowResults ::
  "grpc_env \<Rightarrow> grpcClient \<Rightarrow> nat \<Rightarrow> string \<Rightarrow> string \<Rightarrow> string \<Rightarrow> int \<Rightarrow> int \<Rightarrow> string \<Rightarrow> FlowResultPage rpc_run" where
  "GetFlowResults ge c t clientID flowID source maxRows maxBytes cursor =
     (let what = ''velociraptor: get flow results: '';
          notFound = Errorf [Lit what, Wrap (Sentinel ErrFlowNotFound)];
          req = \<lparr>afr_client_id = clientID, afr_flow_id = flowID\<rparr> in
      rpc_then (RPC_GetFlowDetails req) (fs_GetFlowDetails (gc_flows c) t req)
        (\<lambda>answer. case answer of
           Inl err \<Rightarrow> if isNotFoundError ge err then rpc_fail notFound else rpc_fail (rpc_error ge ''get flow results'' err)
         | Inr details \<Rightarrow>
             (case fd_context details of
                None \<Rightarrow> rpc_fail notFound
              | Some fctx \<Rightarrow>
                  if acc_session_id fctx = [] then rpc_fail notFound
                  else
                    let artifact = firstArtifactName (acc_request fctx) in
                    if artifact = [] then rpc_ok empty_page
                    else
                      let found = resolveArtifactSourceNames ge c t artifact in
                      (case resolveResultArtifact artifact source (sources_or_none found) of
                         (tableArtifact, sourceRequired, availableSources, Some err) \<Rightarrow> (fst found, Inl (Errorf [Lit what, Wrap err]))
                       | (tableArtifact, sourceRequired, availableSources, None) \<Rightarrow>
                           if sourceRequired
                           then (fst found, Inr (empty_page\<lparr>fp_SourceRequired := True, fp_AvailableSources := availableSources\<rparr>))
                           else
                             let bounded = boundLimit maxRows (effectiveMaxRows c);
                                 startRow = parseOffsetCursor cursor;
                                 treq = \<lparr>gtr_rows = uint64 bounded, gtr_start_row = uint64 startRow, gtr_client_id = clientID,
                                         gtr_flow_id = flowID, gtr_artifact = tableArtifact, gtr_type = [], gtr_hunt_id = [],
                                         gtr_sort_column = [], gtr_sort_direction = False\<rparr>;
                                 run = rpc_then (RPC_GetTable treq) (gc_tables c t treq)
                                   (\<lambda>answer. case answer of
                                      Inl err \<Rightarrow> rpc_fail (rpc_error ge ''get flow results'' err)
                                    | Inr resp \<Rightarrow>
                                        (case decodeTableRows (ge_decode ge) (Some resp) of
                                           Inl err \<Rightarrow> rpc_fail (Errorf [Lit what, Wrap err])
                                         | Inr rows \<Rightarrow> rpc_ok (result_page bounded startRow (gts_total_rows resp) rows)))
                             in (fst found @ fst run, snd run)))))"

subsection \<open>Collecting and cancelling\<close>

definition CollectArtifact :: "grpc_env \<Rightarrow> grpcClient \<Rightarrow> nat \<Rightarrow> CollectionRequest \<Rightarrow> FlowSummary rpc_run" where
  "CollectArtifact ge c t req =
     (let args = artifactCollectorArgsFor (cr_ClientID req) (cr_Artifact req) (cr_Parameters req) in
      rpc_then (RPC_CollectArtifact args) (fs_CollectArtifact (gc_flows c) t args)
        (\<lambda>answer. case answer of
           Inl err \<Rightarrow> rpc_fail (rpc_error ge ''collect artifact'' err)
         | Inr resp \<Rightarrow> rpc_ok \<lparr>fl_FlowID = acr_flow_id resp, fl_ClientID = cr_ClientID req, fl_Artifact = cr_Artifact req,
                                fl_State = FlowStateRunning, fl_CreatedAt = []\<rparr>))"

definition CancelFlow :: "grpc_env \<Rightarrow> grpcClient \<Rightarrow> nat \<Rightarrow> string \<Rightarrow> string \<Rightarrow> unit rpc_run" where
  "CancelFlow ge c t clientID flowID =
     (let req = \<lparr>afr_client_id = clientID, afr_flow_id = flowID\<rparr> in
      rpc_then (RPC_CancelFlow req) (fs_CancelFlow (gc_flows c) t req)
        (\<lambda>answer. case answer of
           Inl err \<Rightarrow> rpc_fail (rpc_error ge ''cancel flow'' err)
         | Inr _ \<Rightarrow> rpc_ok ()))"

subsection \<open>What a collection sends\<close>

lemma firstArtifactName_for: "firstArtifactName (Some (artifactCollectorArgsFor clientID artifact params)) = artifact"
  by (simp add: firstArtifactName_def artifactCollectorArgsFor_def)

text \<open>The parameters as the server reads them: the value bound to a key.\<close>

definition bound_params :: "ArtifactCollectorArgs \<Rightarrow> (string \<rightharpoonup> string) list" where
  "bound_params args = map (\<lambda>s. map_of (case spec_parameters s of None \<Rightarrow> [] | Some p \<Rightarrow> map (\<lambda>e. (env_key e, env_value e)) (aps_env p))) (aca_specs args)"

lemma bound_params_for: "bound_params (artifactCollectorArgsFor clientID artifact params) = [map_of params]"
  by (simp add: bound_params_def artifactCollectorArgsFor_def envFromParams_def split_beta o_def)

subsection \<open>Limits\<close>

lemma effectiveMaxRows_pos: "0 < effectiveMaxRows c"
  by (simp add: effectiveMaxRows_def defaultMaxRows_def)

lemma boundLimit_bounds: "0 < ceiling \<Longrightarrow> 0 < boundLimit n ceiling \<and> boundLimit n ceiling \<le> ceiling"
  by (auto simp: boundLimit_def)

lemmas bounded_rows = boundLimit_bounds [OF effectiveMaxRows_pos]

lemma clip_length: "0 \<le> bounded \<Longrightarrow> int (length (clip bounded items)) \<le> bounded"
  by (simp add: clip_def)

lemma clip_prefix: "\<exists>rest. items = clip bounded items @ rest"
  unfolding clip_def by (metis append_Nil2 append_take_drop_id)

subsection \<open>Paging through the results of a flow\<close>

text \<open>
  A server that holds, unchanged, the results of a flow: it knows the flow and the artifact of it, the source
  resolves to one table, and every request for that table is answered with the rows asked for and the length of the table.
\<close>

definition serves_table ::
  "grpc_env \<Rightarrow> grpcClient \<Rightarrow> string \<Rightarrow> string \<Rightarrow> string \<Rightarrow> string list \<Rightarrow> TableRow list \<Rightarrow> bool" where
  "serves_table ge c clientID flowID source columns table \<longleftrightarrow>
     (\<forall>t. \<exists>fctx name. fs_GetFlowDetails (gc_flows c) t \<lparr>afr_client_id = clientID, afr_flow_id = flowID\<rparr> = Inr \<lparr>fd_context = Some fctx\<rparr>
        \<and> acc_session_id fctx \<noteq> [] \<and> firstArtifactName (acc_request fctx) \<noteq> []
        \<and> resolveResultArtifact (firstArtifactName (acc_request fctx)) source
            (sources_or_none (resolveArtifactSourceNames ge c t (firstArtifactName (acc_request fctx)))) = (name, False, [], None)
        \<and> (\<forall>req. gtr_client_id req = clientID \<and> gtr_flow_id req = flowID \<and> gtr_artifact req = name \<longrightarrow>
             gc_tables c t req = Inr \<lparr>gts_columns = columns, gts_rows = take (unat (gtr_rows req)) (drop (unat (gtr_start_row req)) table),
               gts_total_rows = int (length table)\<rparr>))"

lemma unat_uint64: "0 \<le> n \<Longrightarrow> n \<le> maxInt64 \<Longrightarrow> unat (uint64 n) = nat n"
  by (simp add: unat_eq_nat_uint uint_word_of_int_eq take_bit_int_eq_self maxInt64_def)

lemma decode_rows_slice:
  assumes "decode_rows de columns table = Inr rows"
  shows "decode_rows de columns (take n (drop k table)) = Inr (take n (drop k rows))"
  using assms unfolding decode_rows_ok_iff by (intro list_all2_takeI list_all2_dropI)

lemma flow_page_at:
  assumes "serves_table ge c clientID flowID source columns table" and "decode_rows (ge_decode ge) columns table = Inr rows"
    and "effectiveMaxRows c \<le> maxInt64"
  shows "snd (GetFlowResults ge c t clientID flowID source maxRows maxBytes cursor) =
    Inr (result_page (boundLimit maxRows (effectiveMaxRows c)) (parseOffsetCursor cursor) (int (length rows))
      (take (nat (boundLimit maxRows (effectiveMaxRows c))) (drop (nat (parseOffsetCursor cursor)) rows)))"
proof -
  let ?b = "boundLimit maxRows (effectiveMaxRows c)"
  have b: "unat (uint64 ?b) = nat ?b" using bounded_rows [of maxRows c] assms(3) by (intro unat_uint64) auto
  have k: "unat (uint64 (parseOffsetCursor cursor)) = nat (parseOffsetCursor cursor)"
    using parseOffsetCursor_range by (intro unat_uint64) auto
  have len: "length table = length rows"
    using assms(2) by (auto simp: decode_rows_ok_iff dest: list_all2_lengthD)
  from assms(1) obtain fctx name where
    "fs_GetFlowDetails (gc_flows c) t \<lparr>afr_client_id = clientID, afr_flow_id = flowID\<rparr> = Inr \<lparr>fd_context = Some fctx\<rparr>"
    "acc_session_id fctx \<noteq> []" "firstArtifactName (acc_request fctx) \<noteq> []"
    "resolveResultArtifact (firstArtifactName (acc_request fctx)) source
      (sources_or_none (resolveArtifactSourceNames ge c t (firstArtifactName (acc_request fctx)))) = (name, False, [], None)"
    "\<forall>req. gtr_client_id req = clientID \<and> gtr_flow_id req = flowID \<and> gtr_artifact req = name \<longrightarrow>
      gc_tables c t req = Inr \<lparr>gts_columns = columns, gts_rows = take (unat (gtr_rows req)) (drop (unat (gtr_start_row req)) table),
        gts_total_rows = int (length table)\<rparr>"
    unfolding serves_table_def by blast
  then show ?thesis
    by (simp add: GetFlowResults_def Let_def decodeTableRows_def decode_rows_slice [OF assms(2)] b k len)
qed

text \<open>Following the cursors from a first one, for at most \<open>n\<close> calls; \<^const>\<open>None\<close> when a call fails or the last still names another page.\<close>

fun follow :: "(nat \<Rightarrow> string \<Rightarrow> gerror + FlowResultPage) \<Rightarrow> nat \<Rightarrow> nat \<Rightarrow> string \<Rightarrow> row list option" where
  "follow fetch 0 t cursor = None"
| "follow fetch (Suc n) t cursor =
     (case fetch t cursor of
        Inl err \<Rightarrow> None
      | Inr page \<Rightarrow>
          if fp_NextCursor page = [] then Some (fp_Rows page)
          else map_option (\<lambda>rest. fp_Rows page @ rest) (follow fetch n (Suc t) (fp_NextCursor page)))"

lemma offsetCursor_ne: "offsetCursor n \<noteq> []"
  by (simp add: offsetCursor_def)

lemma result_page_slice:
  assumes "0 < b" "0 \<le> k" "int (length rows) \<le> maxInt64" "b \<le> maxInt64"
    and page: "page = result_page b k (int (length rows)) (take (nat b) (drop (nat k) rows))"
  shows "fp_Rows page = take (nat b) (drop (nat k) rows)"
    and "fp_NextCursor page = (if k + b < int (length rows) then offsetCursor (k + b) else [])"
proof -
  have "wrap64 (k + b) = k + b" if "k + b \<le> int (length rows)"
    using that assms by (intro wrap64_id) (auto simp: minInt64_def)
  moreover have "wrap64 (int (length rows)) = int (length rows)"
    using assms(3) by (intro wrap64_id) (auto simp: minInt64_def)
  ultimately show "fp_NextCursor page = (if k + b < int (length rows) then offsetCursor (k + b) else [])"
    using assms(1,2) unfolding page by (auto simp: result_page_def Let_def offsetCursor_ne min_def nat_le_iff split: if_splits)
qed (simp add: page result_page_def Let_def)

lemma follow_rows:
  assumes b: "0 < b" "b \<le> maxInt64" and len: "int (length rows) \<le> maxInt64"
    and fetch: "\<And>t cursor. fetch t cursor = Inr (result_page b (parseOffsetCursor cursor) (int (length rows))
        (take (nat b) (drop (nat (parseOffsetCursor cursor)) rows)))"
    and k: "parseOffsetCursor cursor = int k" and fuel: "length rows - k < n * nat b"
  shows "follow fetch n t cursor = Some (drop k rows)"
  using k fuel
proof (induction n arbitrary: t cursor k)
  case (Suc n)
  note page = result_page_slice [OF b(1) _ len b(2) refl, of "int k"]
  show ?case
  proof (cases "int k + b < int (length rows)")
    case True
    have "parseOffsetCursor (offsetCursor (int k + b)) = int (k + nat b)"
      using parse_print_cursor [of "int k + b"] True b len by simp
    moreover have "length rows - (k + nat b) < n * nat b" using Suc.prems(2) True b by (simp add: algebra_simps)
    ultimately have "follow fetch n (Suc t) (offsetCursor (int k + b)) = Some (drop (k + nat b) rows)" by (rule Suc.IH)
    moreover have "take (nat b) (drop k rows) @ drop (k + nat b) rows = drop k rows"
      by (metis append_take_drop_id drop_drop add.commute)
    ultimately show ?thesis using True page by (simp add: fetch [of t cursor] Suc.prems(1) offsetCursor_ne)
  next
    case False
    then have "take (nat b) (drop k rows) = drop k rows" using b by simp
    then show ?thesis using False page by (simp add: fetch [of t cursor] Suc.prems(1))
  qed
qed simp

text \<open>
  Property C14 (liveness). Against a server that holds the results of a flow, a caller who starts without a cursor and follows the
  cursors the client returns gets every row of the table exactly once and in order, in at most one call more than the
  number of full pages, whatever page size it asked for.
\<close>

theorem flow_pages_cover:
  assumes "serves_table ge c clientID flowID source columns table" and "decode_rows (ge_decode ge) columns table = Inr rows"
    and "effectiveMaxRows c \<le> maxInt64" and "int (length rows) \<le> maxInt64"
  shows "follow (\<lambda>t cursor. snd (GetFlowResults ge c t clientID flowID source maxRows maxBytes cursor))
      (Suc (length rows div nat (boundLimit maxRows (effectiveMaxRows c)))) t [] = Some rows"
proof -
  let ?b = "boundLimit maxRows (effectiveMaxRows c)"
  have b: "0 < ?b" "?b \<le> maxInt64" using bounded_rows [of maxRows c] assms(3) by auto
  have "length rows < Suc (length rows div nat ?b) * nat ?b"
    using b(1) dividend_less_div_times [of "nat ?b" "length rows"] by (simp add: add.commute)
  then have "follow (\<lambda>t cursor. snd (GetFlowResults ge c t clientID flowID source maxRows maxBytes cursor))
      (Suc (length rows div nat ?b)) t [] = Some (drop 0 rows)"
    by (intro follow_rows [OF b assms(4)] flow_page_at [OF assms(1-3)]) (simp_all add: parseOffsetCursor_def HasPrefix_def)
  then show ?thesis by simp
qed

text \<open>A flow with three one-column rows.\<close>

definition sample_table :: "TableRow list" where
  "sample_table = [\<lparr>tr_json = ''a''\<rparr>, \<lparr>tr_json = ''b''\<rparr>, \<lparr>tr_json = ''c''\<rparr>]"

definition table_api :: "TableRow list \<Rightarrow> APIClient" where
  "table_api table = silent_api\<lparr>
     api_flows := (api_flows silent_api)\<lparr>fs_GetFlowDetails := (\<lambda>t r. Inr \<lparr>fd_context = Some
       \<lparr>acc_client_id = afr_client_id r, acc_session_id = afr_flow_id r,
        acc_request = Some (artifactCollectorArgsFor (afr_client_id r) ''Linux.Sys.Pslist'' []),
        acc_create_time = 1, acc_active_time = 1, acc_total_collected_rows = 3, acc_total_uploaded_bytes = 0, acc_status = [],
        acc_state = State_FINISHED\<rparr>\<rparr>)\<rparr>,
     api_GetTable := (\<lambda>t req. Inr \<lparr>gts_columns = [''Name''], gts_rows = take (unat (gtr_rows req)) (drop (unat (gtr_start_row req)) table),
               gts_total_rows = int (length table)\<rparr>)\<rparr>"

lemma table_api_serves:
  "flowID \<noteq> [] \<Longrightarrow> serves_table sample_ge (client_of (table_api table) n) clientID flowID [] [''Name''] table"
  by (simp add: serves_table_def client_of_def table_api_def silent_api_def Let_def firstArtifactName_for
      resolveResultArtifact_def sources_or_none_def resolveArtifactSourceNames_def)

theorem flow_pages_cover_witness:
  "follow (\<lambda>t cursor. snd (GetFlowResults sample_ge (client_of (table_api sample_table) 2) t ''C.1'' ''F.1'' [] 2 1000 cursor)) 2 0 []
     = Some (map (\<lambda>r. [(''Name'', VString (tr_json r))]) sample_table)"
proof -
  have d: "decode_rows (ge_decode sample_ge) [''Name''] sample_table = Inr (map (\<lambda>r. [(''Name'', VString (tr_json r))]) sample_table)"
    by (simp add: sample_table_def sample_ge_def row_of_def)
  let ?c = "client_of (table_api sample_table) 2" and ?rows = "map (\<lambda>r. [(''Name'', VString (tr_json r))]) sample_table"
  have m: "effectiveMaxRows ?c = 2" by (simp add: effectiveMaxRows_def client_of_def)
  have n: "Suc (length ?rows div nat (boundLimit 2 (effectiveMaxRows ?c))) = 2"
    unfolding m by (simp add: boundLimit_def sample_table_def)
  have small: "effectiveMaxRows ?c \<le> maxInt64" "int (length ?rows) \<le> maxInt64"
    unfolding m by (simp_all add: maxInt64_def sample_table_def)
  show ?thesis
    using flow_pages_cover [OF table_api_serves d small, where flowID = "''F.1''" and clientID = "''C.1''" and maxRows = 2 and maxBytes = 1000 and t = 0] by (simp only: n) simp
qed

end
