(* ===== verification/Grpc_Hunts.thy ===== *)
theory Grpc_Hunts
  imports Grpc_Flows
begin

text \<open>
  \<^verbatim>\<open>internal/velociraptor/grpcclient_hunts.go\<close>: hunts of the real client. Velociraptor can scope a hunt by label or to all clients;
  an explicit list of clients is refused.

  \<open>hunt_scope_honest\<close>: preview and start agree on which scopes they refuse and on the condition they send, so a preview counts
  the clients the hunt will run on.
\<close>

definition HuntStateRunning :: string where "HuntStateRunning = ''running''"
definition HuntStateStopped :: string where "HuntStateStopped = ''stopped''"
definition HuntStatePaused :: string where "HuntStatePaused = ''paused''"

definition huntConditionFromScope :: "HuntScopeRequest \<Rightarrow> gerror + HuntCondition option" where
  "huntConditionFromScope scope =
     (if sr_ClientIDs scope \<noteq> [] then Inl (Sentinel ErrHuntScopeClientIDsUnsupported)
      else if sr_Label scope \<noteq> []
      then Inr (Some \<lparr>hcn_excluded_labels = None,
                      hcn_UnionField = Some (HuntCondition_Labels \<lparr>hlc_label = [sr_Label scope]\<rparr>)\<rparr>)
      else Inr None)"

definition mapHuntState :: "Hunt_State \<Rightarrow> string" where
  "mapHuntState s = (case s of Hunt_RUNNING \<Rightarrow> HuntStateRunning | Hunt_PAUSED \<Rightarrow> HuntStatePaused | _ \<Rightarrow> HuntStateStopped)"

definition firstHuntArtifact :: "Hunt option \<Rightarrow> string" where
  "firstHuntArtifact h =
     (case h of
        None \<Rightarrow> []
      | Some h \<Rightarrow> (case hnt_artifacts h of a # _ \<Rightarrow> a | [] \<Rightarrow> firstArtifactName (hnt_start_request h)))"

definition clients_scheduled :: "HuntStats option \<Rightarrow> 64 word" where
  "clients_scheduled stats = (case stats of Some s \<Rightarrow> hst_total_clients_scheduled s | None \<Rightarrow> 0)"

definition toHuntSummary :: "Hunt \<Rightarrow> HuntSummary" where
  "toHuntSummary h =
     \<lparr>hu_HuntID = hnt_hunt_id h, hu_Artifact = firstHuntArtifact (Some h), hu_State = mapHuntState (hnt_state h),
      hu_CreatedAt = microsecondsToRFC3339 (hnt_create_time h), hu_ClientCount = int64 (clients_scheduled (hnt_stats h))\<rparr>"

definition ListHunts :: "grpc_env \<Rightarrow> grpcClient \<Rightarrow> nat \<Rightarrow> int \<Rightarrow> HuntSummary list rpc_run" where
  "ListHunts ge c t limit =
     (let bounded = boundLimit limit (effectiveMaxRows c);
          req = \<lparr>lhr_offset = 0, lhr_count = uint64 bounded, lhr_include_archived = False, lhr_summary = False\<rparr> in
      rpc_then (RPC_ListHunts req) (hs_ListHunts (gc_hunts c) t req)
        (\<lambda>answer. case answer of
           Inl err \<Rightarrow> rpc_fail (rpc_error ge ''list hunts'' err)
         | Inr resp \<Rightarrow> rpc_ok (map toHuntSummary (clip bounded (lhs_items resp)))))"

definition GetHuntStatus :: "grpc_env \<Rightarrow> grpcClient \<Rightarrow> nat \<Rightarrow> string \<Rightarrow> HuntSummary rpc_run" where
  "GetHuntStatus ge c t huntID =
     (let req = \<lparr>ghr_hunt_id = huntID\<rparr>;
          notFound = Errorf [Lit ''velociraptor: get hunt status: '', Wrap (Sentinel ErrHuntNotFound)] in
      rpc_then (RPC_GetHunt req) (hs_GetHunt (gc_hunts c) t req)
        (\<lambda>answer. case answer of
           Inl err \<Rightarrow> if isNotFoundError ge err then rpc_fail notFound else rpc_fail (rpc_error ge ''get hunt status'' err)
         | Inr resp \<Rightarrow> if hnt_hunt_id resp = [] then rpc_fail notFound else rpc_ok (toHuntSummary resp)))"

definition GetHuntResults ::
  "grpc_env \<Rightarrow> grpcClient \<Rightarrow> nat \<Rightarrow> string \<Rightarrow> string \<Rightarrow> int \<Rightarrow> int \<Rightarrow> FlowResultPage rpc_run" where
  "GetHuntResults ge c t huntID source maxRows maxBytes =
     (let what = ''velociraptor: get hunt results: '';
          notFound = Errorf [Lit what, Wrap (Sentinel ErrHuntNotFound)];
          req = \<lparr>ghr_hunt_id = huntID\<rparr> in
      rpc_then (RPC_GetHunt req) (hs_GetHunt (gc_hunts c) t req)
        (\<lambda>answer. case answer of
           Inl err \<Rightarrow> if isNotFoundError ge err then rpc_fail notFound else rpc_fail (rpc_error ge ''get hunt results'' err)
         | Inr hunt \<Rightarrow>
             if hnt_hunt_id hunt = [] then rpc_fail notFound
             else
               let artifact = firstHuntArtifact (Some hunt) in
               if artifact = [] then rpc_ok empty_page
               else
                 let found = resolveArtifactSourceNames ge c t artifact in
                 (case resolveResultArtifact artifact source (sources_or_none found) of
                    (tableArtifact, sourceRequired, availableSources, Some err) \<Rightarrow> (fst found, Inl (Errorf [Lit what, Wrap err]))
                  | (tableArtifact, sourceRequired, availableSources, None) \<Rightarrow>
                      if sourceRequired
                      then (fst found, Inr (empty_page\<lparr>fp_SourceRequired := True, fp_AvailableSources := availableSources\<rparr>))
                      else
                        let bounded = boundLimit maxRows (effectiveMaxRows c);
                            rreq = \<lparr>hrr_offset = 0, hrr_count = uint64 bounded, hrr_hunt_id = huntID, hrr_artifact = tableArtifact\<rparr>;
                            run = rpc_then (RPC_GetHuntResults rreq) (hs_GetHuntResults (gc_hunts c) t rreq)
                              (\<lambda>answer. case answer of
                                 Inl err \<Rightarrow> rpc_fail (rpc_error ge ''get hunt results'' err)
                               | Inr resp \<Rightarrow>
                                   (case decodeTableRows (ge_decode ge) (Some resp) of
                                      Inl err \<Rightarrow> rpc_fail (Errorf [Lit what, Wrap err])
                                    | Inr rows \<Rightarrow> rpc_ok (result_page bounded 0 (gts_total_rows resp) rows)))
                        in (fst found @ fst run, snd run))))"

definition PreviewHuntScope :: "grpc_env \<Rightarrow> grpcClient \<Rightarrow> nat \<Rightarrow> HuntScopeRequest \<Rightarrow> HuntScopePreview rpc_run" where
  "PreviewHuntScope ge c t scope =
     (case huntConditionFromScope scope of
        Inl err \<Rightarrow> rpc_fail (Errorf [Lit ''velociraptor: preview hunt scope: '', Wrap err])
      | Inr cond \<Rightarrow>
          let req = \<lparr>her_last_active = 0, her_condition = cond\<rparr> in
          rpc_then (RPC_EstimateHunt req) (hs_EstimateHunt (gc_hunts c) t req)
            (\<lambda>answer. case answer of
               Inl err \<Rightarrow> rpc_fail (rpc_error ge ''preview hunt scope'' err)
             | Inr resp \<Rightarrow> rpc_ok \<lparr>sp_MatchedClientCount = int64 (hst_total_clients_scheduled resp), sp_SampleClientIDs = [],
                                    sp_ExceedsMaxClients = False\<rparr>))"

definition hunt_for :: "HuntRequest \<Rightarrow> HuntCondition option \<Rightarrow> Hunt" where
  "hunt_for req cond =
     \<lparr>hnt_hunt_id = [], hnt_create_time = 0, hnt_creator = [], hnt_start_time = 0,
      hnt_hunt_description = ''agentic-velociraptor-mcp: '' @ hr_Artifact req,
      hnt_start_request = Some (artifactCollectorArgsFor [] (hr_Artifact req) (hr_Parameters req)),
      hnt_condition = cond, hnt_client_limit = uint64 (hr_MaxClients req), hnt_stats = None, hnt_artifacts = [],
      hnt_state = Hunt_RUNNING\<rparr>"

definition StartHunt :: "grpc_env \<Rightarrow> grpcClient \<Rightarrow> nat \<Rightarrow> HuntRequest \<Rightarrow> HuntSummary rpc_run" where
  "StartHunt ge c t req =
     (case huntConditionFromScope (hr_Scope req) of
        Inl err \<Rightarrow> rpc_fail (Errorf [Lit ''velociraptor: start hunt: '', Wrap err])
      | Inr cond \<Rightarrow>
          let hunt = hunt_for req cond in
          rpc_then (RPC_CreateHunt hunt) (hs_CreateHunt (gc_hunts c) t hunt)
            (\<lambda>answer. case answer of
               Inl err \<Rightarrow> rpc_fail (rpc_error ge ''start hunt'' err)
             | Inr resp \<Rightarrow> rpc_ok \<lparr>hu_HuntID = sfr_flow_id resp, hu_Artifact = hr_Artifact req, hu_State = HuntStateRunning,
                                    hu_CreatedAt = [], hu_ClientCount = 0\<rparr>))"

definition CancelHunt :: "grpc_env \<Rightarrow> grpcClient \<Rightarrow> nat \<Rightarrow> string \<Rightarrow> unit rpc_run" where
  "CancelHunt ge c t huntID =
     (let req = \<lparr>hmu_hunt_id = huntID, hmu_state = Hunt_STOPPED, hmu_user = []\<rparr> in
      rpc_then (RPC_ModifyHunt req) (hs_ModifyHunt (gc_hunts c) t req)
        (\<lambda>answer. case answer of
           Inl err \<Rightarrow> rpc_fail (rpc_error ge ''cancel hunt'' err)
         | Inr _ \<Rightarrow> rpc_ok ()))"

subsection \<open>Scopes\<close>

lemma huntConditionFromScope_refused_iff: "(\<exists>err. huntConditionFromScope scope = Inl err) \<longleftrightarrow> sr_ClientIDs scope \<noteq> []"
  by (simp add: huntConditionFromScope_def)

text \<open>
  Property C18 (safety). Starting a hunt: a scope with an explicit client list, which Velociraptor cannot express, makes no call at all and fails with
  the designated error, at the preview as at the start, so it never turns into a hunt on everyone. Any other start makes exactly one call, which
  creates one running hunt for exactly the requested artifact, parameters and client limit; its condition is the label of the scope,
  or none when the scope has no label; and the preview asks for the number of clients under the very same condition.
\<close>

theorem hunt_scope_honest:
  "(if sr_ClientIDs (hr_Scope req) \<noteq> []
    then fst (StartHunt ge c t req) = [] \<and> fst (PreviewHuntScope ge c t (hr_Scope req)) = []
      \<and> (\<exists>e1 e2. snd (StartHunt ge c t req) = Inl e1 \<and> snd (PreviewHuntScope ge c t (hr_Scope req)) = Inl e2
            \<and> errors_Is ErrHuntScopeClientIDsUnsupported e1 \<and> errors_Is ErrHuntScopeClientIDsUnsupported e2)
    else \<exists>cond. fst (StartHunt ge c t req) = [RPC_CreateHunt (hunt_for req cond)]
      \<and> fst (PreviewHuntScope ge c t (hr_Scope req)) = [RPC_EstimateHunt \<lparr>her_last_active = 0, her_condition = cond\<rparr>]
      \<and> cond = (if sr_Label (hr_Scope req) = [] then None
                else Some \<lparr>hcn_excluded_labels = None, hcn_UnionField = Some (HuntCondition_Labels \<lparr>hlc_label = [sr_Label (hr_Scope req)]\<rparr>)\<rparr>))
   \<and> (\<forall>cond. hnt_state (hunt_for req cond) = Hunt_RUNNING \<and> hnt_condition (hunt_for req cond) = cond
        \<and> hnt_client_limit (hunt_for req cond) = uint64 (hr_MaxClients req)
        \<and> firstHuntArtifact (Some (hunt_for req cond)) = hr_Artifact req
        \<and> (\<exists>args. hnt_start_request (hunt_for req cond) = Some args \<and> aca_artifacts args = [hr_Artifact req]
             \<and> map spec_artifact (aca_specs args) = [hr_Artifact req] \<and> bound_params args = [map_of (hr_Parameters req)]))"
proof
  show "if sr_ClientIDs (hr_Scope req) \<noteq> []
    then fst (StartHunt ge c t req) = [] \<and> fst (PreviewHuntScope ge c t (hr_Scope req)) = []
      \<and> (\<exists>e1 e2. snd (StartHunt ge c t req) = Inl e1 \<and> snd (PreviewHuntScope ge c t (hr_Scope req)) = Inl e2
            \<and> errors_Is ErrHuntScopeClientIDsUnsupported e1 \<and> errors_Is ErrHuntScopeClientIDsUnsupported e2)
    else \<exists>cond. fst (StartHunt ge c t req) = [RPC_CreateHunt (hunt_for req cond)]
      \<and> fst (PreviewHuntScope ge c t (hr_Scope req)) = [RPC_EstimateHunt \<lparr>her_last_active = 0, her_condition = cond\<rparr>]
      \<and> cond = (if sr_Label (hr_Scope req) = [] then None
                else Some \<lparr>hcn_excluded_labels = None, hcn_UnionField = Some (HuntCondition_Labels \<lparr>hlc_label = [sr_Label (hr_Scope req)]\<rparr>)\<rparr>)"
    by (simp add: StartHunt_def PreviewHuntScope_def huntConditionFromScope_def Let_def split: sum.splits)
  show "\<forall>cond. hnt_state (hunt_for req cond) = Hunt_RUNNING \<and> hnt_condition (hunt_for req cond) = cond
        \<and> hnt_client_limit (hunt_for req cond) = uint64 (hr_MaxClients req)
        \<and> firstHuntArtifact (Some (hunt_for req cond)) = hr_Artifact req
        \<and> (\<exists>args. hnt_start_request (hunt_for req cond) = Some args \<and> aca_artifacts args = [hr_Artifact req]
             \<and> map spec_artifact (aca_specs args) = [hr_Artifact req] \<and> bound_params args = [map_of (hr_Parameters req)])"
    by (simp add: hunt_for_def firstHuntArtifact_def firstArtifactName_for bound_params_for)
       (simp add: artifactCollectorArgsFor_def)
qed

end
