(* ===== verification/Grpc_Uploads.thy ===== *)
theory Grpc_Uploads
  imports Grpc_Flows
begin

text \<open>
  \<^verbatim>\<open>internal/velociraptor/grpcclient_uploads.go\<close>: the files a flow uploaded. \<open>download_loop\<close> is the chunked read of
  \<^verbatim>\<open>DownloadFlowUpload\<close>; its termination proof rests on the fact that the loop goes on only after a chunk that was not
  empty. The offset is kept at 64 bits and the length of a request at 32.

  \<open>download_terminates\<close> bounds the number of requests whatever the server answers; \<open>download_exact\<close> says what is returned when the server reads a
  file honestly, and \<open>download_overrun\<close> what a server that sends more than asked for can do.
\<close>

definition defaultMaxUploadBytes :: int where
  "defaultMaxUploadBytes = 10 * 1024 * 1024"

definition vfsChunkSize :: int where
  "vfsChunkSize = 1048576"

subsection \<open>The uploads table\<close>

record uploadRow =
  ur_name :: string
  ur_components :: "string list"
  ur_sizeBytes :: int
  ur_kind :: string

definition uploadRowFromTableRow :: "decode_env \<Rightarrow> row \<Rightarrow> uploadRow" where
  "uploadRowFromTableRow de row =
     \<lparr>ur_name = rowStr row [''Name'', ''name''], ur_components = rowStringSlice row [''Components'', ''components''],
      ur_sizeBytes = rowInt64 de row [''Size'', ''size''], ur_kind = rowStr row [''Type'', ''type'']\<rparr>"

definition toUploadSummary :: "uploadRow \<Rightarrow> UploadSummary" where
  "toUploadSummary u = \<lparr>up_Component = ur_kind u, up_Name = ur_name u, up_SizeBytes = ur_sizeBytes u, up_Hash = []\<rparr>"

definition listFlowUploadRows :: "grpc_env \<Rightarrow> grpcClient \<Rightarrow> nat \<Rightarrow> string \<Rightarrow> string \<Rightarrow> uploadRow list rpc_run" where
  "listFlowUploadRows ge c t clientID flowID =
     (let req = \<lparr>gtr_rows = uint64 (effectiveMaxRows c), gtr_start_row = 0, gtr_client_id = clientID, gtr_flow_id = flowID,
                 gtr_artifact = [], gtr_type = ''uploads'', gtr_hunt_id = [], gtr_sort_column = [], gtr_sort_direction = False\<rparr> in
      rpc_then (RPC_GetTable req) (gc_tables c t req)
        (\<lambda>answer. case answer of
           Inl err \<Rightarrow> rpc_fail (sanitizeTLSError ge err)
         | Inr resp \<Rightarrow>
             (case decodeTableRows (ge_decode ge) (Some resp) of
                Inl err \<Rightarrow> rpc_fail err
              | Inr rows \<Rightarrow> rpc_ok (map (uploadRowFromTableRow (ge_decode ge)) rows))))"

definition ListFlowUploads :: "grpc_env \<Rightarrow> grpcClient \<Rightarrow> nat \<Rightarrow> string \<Rightarrow> string \<Rightarrow> UploadSummary list rpc_run" where
  "ListFlowUploads ge c t clientID flowID =
     (case listFlowUploadRows ge c t clientID flowID of
        (log, Inl err) \<Rightarrow> (log, Inl (Errorf [Lit ''velociraptor: list flow uploads: '', Wrap err]))
      | (log, Inr rows) \<Rightarrow> (log, Inr (map toUploadSummary rows)))"

definition uploadNotFound :: "string \<Rightarrow> gerror" where
  "uploadNotFound uploadName = Errorf [Lit ''velociraptor: upload '', Quo uploadName, Lit '': '', Wrap (Sentinel ErrUploadNotFound)]"

definition GetFlowUploadMetadata :: "grpc_env \<Rightarrow> grpcClient \<Rightarrow> nat \<Rightarrow> string \<Rightarrow> string \<Rightarrow> string \<Rightarrow> UploadSummary rpc_run" where
  "GetFlowUploadMetadata ge c t clientID flowID uploadName =
     (case listFlowUploadRows ge c t clientID flowID of
        (log, Inl err) \<Rightarrow> (log, Inl (Errorf [Lit ''velociraptor: get flow upload metadata: '', Wrap err]))
      | (log, Inr rows) \<Rightarrow>
          (case find (\<lambda>r. ur_name r = uploadName) rows of
             Some r \<Rightarrow> (log, Inr (toUploadSummary r))
           | None \<Rightarrow> (log, Inl (uploadNotFound uploadName))))"

subsection \<open>The chunked read\<close>

text \<open>The length of the next request: a chunk, or what is still missing.\<close>

definition next_length :: "int \<Rightarrow> string \<Rightarrow> int" where
  "next_length toRead buf =
     (let remaining = toRead - int (length buf) in if vfsChunkSize > remaining then remaining else vfsChunkSize)"

definition vfs_request :: "string \<Rightarrow> string list \<Rightarrow> 64 word \<Rightarrow> int \<Rightarrow> VFSFileBuffer" where
  "vfs_request clientID components offset len =
     \<lparr>vfs_client_id = clientID, vfs_offset = offset, vfs_length = word_of_int len, vfs_data = [], vfs_components = components,
      vfs_padding = None\<rparr>"

function download_loop ::
  "grpc_env \<Rightarrow> (VFSFileBuffer \<Rightarrow> gerror + VFSFileBuffer) \<Rightarrow> string \<Rightarrow> string list \<Rightarrow> int \<Rightarrow> string \<Rightarrow> 64 word \<Rightarrow> string rpc_run" where
  "download_loop ge vfs clientID components toRead buf offset =
     (if \<not> int (length buf) < toRead then ([], Inr buf)
      else
        let len = next_length toRead buf;
            req = vfs_request clientID components offset len in
        (case vfs req of
           Inl err \<Rightarrow> ([RPC_VFSGetBuffer req], Inl (rpc_error ge ''download flow upload'' err))
         | Inr resp \<Rightarrow>
             let data = vfs_data resp in
             if length data = 0 then ([RPC_VFSGetBuffer req], Inr buf)
             else if int (length data) < len then ([RPC_VFSGetBuffer req], Inr (buf @ data))
             else
               (case download_loop ge vfs clientID components toRead (buf @ data) (offset + of_nat (length data)) of
                  (log, r) \<Rightarrow> (RPC_VFSGetBuffer req # log, r))))"
  by pat_completeness auto
termination
  by (relation "measure (\<lambda>(ge, vfs, clientID, components, toRead, buf, offset). nat (toRead - int (length buf)))") auto

declare download_loop.simps [simp del]

definition download_target :: "string \<Rightarrow> uploadRow list \<Rightarrow> gerror + uploadRow" where
  "download_target uploadName rows =
     (case find (\<lambda>r. ur_name r = uploadName) rows of
        None \<Rightarrow> Inl (uploadNotFound uploadName)
      | Some r \<Rightarrow>
          if length (ur_components r) = 0
          then Inl (Errorf [Lit ''velociraptor: upload '', Quo uploadName, Lit '' has no file-store location''])
          else Inr r)"

definition DownloadFlowUpload ::
  "grpc_env \<Rightarrow> grpcClient \<Rightarrow> nat \<Rightarrow> string \<Rightarrow> string \<Rightarrow> string \<Rightarrow> int \<Rightarrow> string rpc_run" where
  "DownloadFlowUpload ge c t clientID flowID uploadName maxBytes0 =
     (let maxBytes = (if maxBytes0 \<le> 0 then defaultMaxUploadBytes else maxBytes0) in
      case listFlowUploadRows ge c t clientID flowID of
        (log, Inl err) \<Rightarrow> (log, Inl (Errorf [Lit ''velociraptor: download flow upload: '', Wrap err]))
      | (log, Inr rows) \<Rightarrow>
          (case download_target uploadName rows of
             Inl err \<Rightarrow> (log, Inl err)
           | Inr target \<Rightarrow>
               let toRead = (if ur_sizeBytes target > 0 \<and> ur_sizeBytes target < maxBytes then ur_sizeBytes target else maxBytes);
                   run = download_loop ge (gc_vfs c t) clientID (ur_components target) toRead [] 0 in
               (log @ fst run, snd run)))"

subsection \<open>A server for examples\<close>

text \<open>One upload, whose content the server sends as the given function of the request.\<close>

definition upload_ge :: grpc_env where
  "upload_ge = sample_ge\<lparr>ge_decode := \<lparr>de_Unmarshal = (\<lambda>j. Inr [VString j, VSlice [VString ''uploads'', VString j]]), de_float64 = (\<lambda>p. None)\<rparr>\<rparr>"

definition upload_api :: "(VFSFileBuffer \<Rightarrow> string) \<Rightarrow> APIClient" where
  "upload_api content = silent_api\<lparr>
     api_GetTable := (\<lambda>t req. Inr \<lparr>gts_columns = [''Name'', ''Components''], gts_rows = [\<lparr>tr_json = ''mem.raw''\<rparr>], gts_total_rows = 1\<rparr>),
     api_VFSGetBuffer := (\<lambda>t req. Inr (req\<lparr>vfs_data := content req\<rparr>))\<rparr>"

lemma upload_rows:
  "snd (listFlowUploadRows upload_ge (client_of (upload_api content) 10) t clientID flowID)
     = Inr [\<lparr>ur_name = ''mem.raw'', ur_components = [''uploads'', ''mem.raw''], ur_sizeBytes = 0, ur_kind = []\<rparr>]"
  by (simp add: listFlowUploadRows_def Let_def client_of_def upload_api_def upload_ge_def decodeTableRows_def row_of_def
      uploadRowFromTableRow_def)

lemma upload_run:
  assumes "0 < maxBytes"
  shows "snd (DownloadFlowUpload upload_ge (client_of (upload_api content) 10) t clientID flowID ''mem.raw'' maxBytes)
     = snd (download_loop upload_ge (\<lambda>req. Inr (req\<lparr>vfs_data := content req\<rparr>)) clientID [''uploads'', ''mem.raw''] maxBytes [] 0)"
proof -
  obtain log where "listFlowUploadRows upload_ge (client_of (upload_api content) 10) t clientID flowID
      = (log, Inr [\<lparr>ur_name = ''mem.raw'', ur_components = [''uploads'', ''mem.raw''], ur_sizeBytes = 0, ur_kind = []\<rparr>])"
    using upload_rows by (metis prod.collapse)
  moreover have "gc_vfs (client_of (upload_api content) 10) t = (\<lambda>req. Inr (req\<lparr>vfs_data := content req\<rparr>))"
    by (simp add: client_of_def upload_api_def)
  ultimately show ?thesis using assms by (simp add: DownloadFlowUpload_def Let_def download_target_def)
qed

subsection \<open>The number of requests\<close>

lemma next_length_bounds:
  "int (length buf) < toRead \<Longrightarrow> 0 < next_length toRead buf \<and> next_length toRead buf \<le> vfsChunkSize
     \<and> next_length toRead buf \<le> toRead - int (length buf)
     \<and> (next_length toRead buf = vfsChunkSize \<or> next_length toRead buf = toRead - int (length buf))"
  by (auto simp: next_length_def Let_def vfsChunkSize_def)

lemma download_loop_eq:
  "download_loop ge vfs clientID components toRead buf offset =
     (if \<not> int (length buf) < toRead then ([], Inr buf)
      else
        let len = next_length toRead buf;
            req = vfs_request clientID components offset len in
        (case vfs req of
           Inl err \<Rightarrow> ([RPC_VFSGetBuffer req], Inl (rpc_error ge ''download flow upload'' err))
         | Inr resp \<Rightarrow>
             let data = vfs_data resp;
                 rest = download_loop ge vfs clientID components toRead (buf @ data) (offset + of_nat (length data)) in
             if data = [] then ([RPC_VFSGetBuffer req], Inr buf)
             else if int (length data) < len then ([RPC_VFSGetBuffer req], Inr (buf @ data))
             else (RPC_VFSGetBuffer req # fst rest, snd rest)))"
  by (subst download_loop.simps) (simp add: Let_def split: sum.splits prod.splits)

text \<open>Every request that is followed by another brought a whole chunk, or all that was missing.\<close>

lemma download_loop_calls:
  "int (length (fst (download_loop ge vfs clientID components toRead buf offset))) * vfsChunkSize
     < max 0 (toRead - int (length buf)) + vfsChunkSize"
proof (induction ge vfs clientID components toRead buf offset rule: download_loop.induct)
  case (1 ge vfs clientID components toRead buf offset)
  note loop = download_loop_eq [of ge vfs clientID components toRead buf offset]
  show ?case
  proof (cases "int (length buf) < toRead")
    case True
    define len where "len = next_length toRead buf"
    define req where "req = vfs_request clientID components offset len"
    have len: "0 < len" "len \<le> toRead - int (length buf)" "len = vfsChunkSize \<or> len = toRead - int (length buf)"
      using next_length_bounds [OF True] by (auto simp: len_def)
    show ?thesis
    proof (cases "\<exists>resp. vfs req = Inr resp \<and> vfs_data resp \<noteq> [] \<and> \<not> int (length (vfs_data resp)) < len")
      case more: True
      then obtain resp where r: "vfs req = Inr resp" "vfs_data resp \<noteq> []" "\<not> int (length (vfs_data resp)) < len" by blast
      let ?rest = "download_loop ge vfs clientID components toRead (buf @ vfs_data resp) (offset + of_nat (length (vfs_data resp)))"
      have IH: "int (length (fst ?rest)) * vfsChunkSize < max 0 (toRead - int (length (buf @ vfs_data resp))) + vfsChunkSize"
        by (rule 1 [OF _ len_def req_def r(1) refl]) (use True r in auto)
      define n where "n = int (length (fst ?rest))"
      have "n * vfsChunkSize < toRead - int (length buf)"
      proof (cases "toRead - int (length (buf @ vfs_data resp)) \<le> 0")
        case le: True
        then have "n * 1048576 < 1048576" using IH by (simp add: n_def vfsChunkSize_def)
        then have "n \<le> 0" by arith
        then show ?thesis using True by (simp add: n_def vfsChunkSize_def)
      qed (use IH len r(3) in \<open>auto simp: n_def vfsChunkSize_def\<close>)
      moreover have "fst (download_loop ge vfs clientID components toRead buf offset) = RPC_VFSGetBuffer req # fst ?rest"
        using loop True r by (simp add: Let_def len_def req_def)
      ultimately show ?thesis using True by (simp add: n_def algebra_simps)
    next
      case False
      then have "length (fst (download_loop ge vfs clientID components toRead buf offset)) = 1"
        using True loop by (auto simp: Let_def len_def req_def split: sum.splits)
      then show ?thesis using True by simp
    qed
  qed (simp add: loop vfsChunkSize_def)
qed

definition upload_limit :: "int \<Rightarrow> int" where
  "upload_limit maxBytes = (if maxBytes \<le> 0 then defaultMaxUploadBytes else maxBytes)"

text \<open>Either the download stops before the first chunk is asked for, or it reads the target it found.\<close>

lemma DownloadFlowUpload_cases:
  assumes "DownloadFlowUpload ge c t clientID flowID uploadName maxBytes = (log, r)"
  obtains (early) "\<exists>err. r = Inl err" "log = fst (listFlowUploadRows ge c t clientID flowID)"
  | (read) rows target toRead where
      "snd (listFlowUploadRows ge c t clientID flowID) = Inr rows" "download_target uploadName rows = Inr target"
      "0 < toRead" "toRead \<le> upload_limit maxBytes"
      "toRead = (if ur_sizeBytes target > 0 \<and> ur_sizeBytes target < upload_limit maxBytes then ur_sizeBytes target else upload_limit maxBytes)"
      "log = fst (listFlowUploadRows ge c t clientID flowID) @ fst (download_loop ge (gc_vfs c t) clientID (ur_components target) toRead [] 0)"
      "r = snd (download_loop ge (gc_vfs c t) clientID (ur_components target) toRead [] 0)"
proof -
  obtain log0 rows' where l: "listFlowUploadRows ge c t clientID flowID = (log0, rows')" by fastforce
  show thesis
  proof (cases "\<exists>rows target. rows' = Inr rows \<and> download_target uploadName rows = Inr target")
    case True
    then obtain rows target where "rows' = Inr rows" "download_target uploadName rows = Inr target" by blast
    then show ?thesis using assms l
      by (intro read [of rows target "if ur_sizeBytes target > 0 \<and> ur_sizeBytes target < upload_limit maxBytes then ur_sizeBytes target else upload_limit maxBytes"])
         (auto simp: DownloadFlowUpload_def Let_def upload_limit_def defaultMaxUploadBytes_def)
  next
    case False
    then show ?thesis using assms l
      by (intro early) (auto simp: DownloadFlowUpload_def Let_def split: sum.splits)
  qed
qed

text \<open>
  Property C13 (termination). A download always ends, whatever the server sends: after one request for the table of uploads it makes fewer than
  one request per started mebibyte of its limit plus one, so at most eleven under the default limit, and no other call.
\<close>

theorem download_terminates:
  assumes "DownloadFlowUpload ge c t clientID flowID uploadName maxBytes = (log, r)"
  shows "\<exists>req chunks. log = RPC_GetTable req # chunks \<and> gtr_type req = ''uploads''
    \<and> list_all (\<lambda>call. \<exists>b. call = RPC_VFSGetBuffer b) chunks
    \<and> int (length chunks) * 1048576 < (if maxBytes \<le> 0 then 10485760 else maxBytes) + 1048576"
proof -
  have table: "\<exists>req. fst (listFlowUploadRows ge c t clientID flowID) = [RPC_GetTable req] \<and> gtr_type req = ''uploads''"
    by (auto simp: listFlowUploadRows_def Let_def split: sum.splits)
  have chunks: "list_all (\<lambda>call. \<exists>b. call = RPC_VFSGetBuffer b) (fst (download_loop ge vfs clientID components toRead buf offset))"
    for vfs components toRead buf offset
  proof (induction ge vfs clientID components toRead buf offset rule: download_loop.induct)
    case (1 ge vfs clientID components toRead buf offset)
    show ?case by (subst download_loop_eq) (use 1 in \<open>auto simp: Let_def split: sum.splits\<close>)
  qed
  show ?thesis
    using assms
  proof (cases rule: DownloadFlowUpload_cases)
    case early
    then show ?thesis using table by auto
  next
    case (read rows target toRead)
    have "int (length (fst (download_loop ge (gc_vfs c t) clientID (ur_components target) toRead [] 0))) * vfsChunkSize
        < upload_limit maxBytes + vfsChunkSize"
      using download_loop_calls [of ge "gc_vfs c t" clientID "ur_components target" toRead "[]" 0] read(3,4) by simp
    then show ?thesis using table chunks [of "gc_vfs c t" "ur_components target" toRead "[]" 0] read(6)
      by (auto simp: vfsChunkSize_def upload_limit_def defaultMaxUploadBytes_def)
  qed
qed

subsection \<open>What is downloaded\<close>

text \<open>A server that reads a file: it answers every request for the components with the bytes asked for.\<close>

definition serves_file :: "(VFSFileBuffer \<Rightarrow> gerror + VFSFileBuffer) \<Rightarrow> string \<Rightarrow> string list \<Rightarrow> string \<Rightarrow> bool" where
  "serves_file vfs clientID components content \<longleftrightarrow>
     (\<forall>req. vfs_client_id req = clientID \<and> vfs_components req = components \<longrightarrow>
        (\<exists>resp. vfs req = Inr resp \<and> vfs_data resp = take (unat (vfs_length req)) (drop (unat (vfs_offset req)) content)))"

lemma unat_length: "0 \<le> n \<Longrightarrow> n \<le> vfsChunkSize \<Longrightarrow> unat (word_of_int n :: 32 word) = nat n"
  by (simp add: unat_eq_nat_uint uint_word_of_int_eq take_bit_int_eq_self vfsChunkSize_def)

lemma unat_offset: "length content < 2 ^ 64 \<Longrightarrow> n \<le> length content \<Longrightarrow> unat (of_nat n :: 64 word) = n"
  by (simp add: unat_of_nat take_bit_nat_eq_self)

text \<open>The next chunk of a served file, when the bytes so far are its beginning.\<close>

lemma served_chunk:
  assumes "serves_file vfs clientID components content" and "length content < 2 ^ 64"
    and buf: "buf = take (length buf) content" and "int (length buf) < toRead"
  defines "len \<equiv> next_length toRead buf"
  obtains resp where "vfs (vfs_request clientID components (of_nat (length buf)) len) = Inr resp"
    "vfs_data resp = take (nat len) (drop (length buf) content)" "buf @ vfs_data resp = take (length buf + nat len) content"
proof -
  define req where "req = vfs_request clientID components (of_nat (length buf)) len"
  have len: "0 < len" "len \<le> vfsChunkSize" using next_length_bounds [OF assms(4)] by (auto simp: len_def)
  have le: "length buf \<le> length content" using buf by (metis length_take min.cobounded1)
  have "vfs_client_id req = clientID" "vfs_components req = components" by (simp_all add: req_def vfs_request_def)
  then have "\<exists>resp. vfs req = Inr resp \<and> vfs_data resp = take (unat (vfs_length req)) (drop (unat (vfs_offset req)) content)"
    using assms(1) unfolding serves_file_def by blast
  then obtain resp where resp: "vfs req = Inr resp" "vfs_data resp = take (nat len) (drop (length buf) content)"
    using len unat_offset [OF assms(2) le] by (auto simp: req_def vfs_request_def unat_length)
  moreover have "buf @ vfs_data resp = take (length buf + nat len) content" using buf resp(2) by (metis take_add)
  ultimately show ?thesis using that unfolding req_def by blast
qed

lemma download_loop_file:
  assumes "serves_file vfs clientID components content" and "length content < 2 ^ 64"
    and "buf = take (length buf) content" and "offset = of_nat (length buf)" and "int (length buf) \<le> toRead"
  shows "snd (download_loop ge vfs clientID components toRead buf offset) = Inr (take (nat toRead) content)"
  using assms
proof (induction ge vfs clientID components toRead buf offset rule: download_loop.induct)
  case (1 ge vfs clientID components toRead buf offset)
  note loop = download_loop_eq [of ge vfs clientID components toRead buf offset]
  show ?case
  proof (cases "int (length buf) < toRead")
    case True
    define len where "len = next_length toRead buf"
    have len: "0 < len" "len \<le> toRead - int (length buf)" using next_length_bounds [OF True] by (auto simp: len_def)
    obtain resp where resp: "vfs (vfs_request clientID components offset len) = Inr resp"
      and data: "vfs_data resp = take (nat len) (drop (length buf) content)"
      and join: "buf @ vfs_data resp = take (length buf + nat len) content"
      using served_chunk [OF 1(2-4) True] unfolding len_def 1(5) by blast
    show ?thesis
    proof (cases "int (length (vfs_data resp)) < len")
      case short: True
      then have "take (nat toRead) content = content" "buf @ vfs_data resp = content" using len(2) data join by auto
      moreover have "snd (download_loop ge vfs clientID components toRead buf offset) = Inr (buf @ vfs_data resp)"
        using loop True short resp by (auto simp: Let_def len_def)
      ultimately show ?thesis by simp
    next
      case False
      then have full: "length (vfs_data resp) = nat len" using len(1) by (simp add: data)
      let ?rest = "download_loop ge vfs clientID components toRead (buf @ vfs_data resp) (offset + of_nat (length (vfs_data resp)))"
      have "snd ?rest = Inr (take (nat toRead) content)"
      proof (rule 1(1) [OF _ len_def refl resp refl _ _ 1(2,3)])
        show "buf @ vfs_data resp = take (length (buf @ vfs_data resp)) content"
          unfolding length_append full by (rule join)
        show "offset + of_nat (length (vfs_data resp)) = of_nat (length (buf @ vfs_data resp))" using 1(5) by simp
        show "int (length (buf @ vfs_data resp)) \<le> toRead" using len full by simp
      qed (use True False full len in auto)
      moreover have "snd (download_loop ge vfs clientID components toRead buf offset) = snd ?rest"
        using loop True False resp full len(1) by (auto simp: Let_def len_def)
      ultimately show ?thesis by simp
    qed
  next
    case False
    then have "nat toRead = length buf" using 1(6) by simp
    then show ?thesis using False loop 1(4) by simp
  qed
qed

text \<open>A server that never sends more than it was asked for.\<close>

definition honours_length :: "(VFSFileBuffer \<Rightarrow> gerror + VFSFileBuffer) \<Rightarrow> bool" where
  "honours_length vfs \<longleftrightarrow> (\<forall>req resp. vfs req = Inr resp \<longrightarrow> length (vfs_data resp) \<le> unat (vfs_length req))"

lemma download_loop_within:
  assumes "honours_length vfs" and "int (length buf) \<le> toRead"
    and "snd (download_loop ge vfs clientID components toRead buf offset) = Inr content"
  shows "int (length content) \<le> toRead"
  using assms
proof (induction ge vfs clientID components toRead buf offset rule: download_loop.induct)
  case (1 ge vfs clientID components toRead buf offset)
  note loop = download_loop_eq [of ge vfs clientID components toRead buf offset]
  define len where "len = next_length toRead buf"
  define req where "req = vfs_request clientID components offset len"
  show ?case
  proof (cases "int (length buf) < toRead")
    case True
    have len: "0 < len" "len \<le> vfsChunkSize" "len \<le> toRead - int (length buf)" using next_length_bounds [OF True] by (auto simp: len_def)
    obtain resp where r: "vfs req = Inr resp" using 1(4) loop True by (auto simp: Let_def len_def req_def split: sum.splits)
    have "length (vfs_data resp) \<le> nat len"
      using 1(2) r len(1,2) unat_length [of len] by (fastforce simp: honours_length_def req_def vfs_request_def)
    then have fits: "int (length (buf @ vfs_data resp)) \<le> toRead" using len by simp
    show ?thesis
    proof (cases "vfs_data resp = [] \<or> int (length (vfs_data resp)) < len")
      case last_chunk: True
      then have "content = buf \<or> content = buf @ vfs_data resp"
        using loop True r 1(4) by (auto simp: Let_def len_def req_def split: if_splits)
      then show ?thesis using 1(3) fits by auto
    next
      case False
      then have "snd (download_loop ge vfs clientID components toRead (buf @ vfs_data resp) (offset + of_nat (length (vfs_data resp)))) = Inr content"
        using loop True r 1(4) by (auto simp: Let_def len_def req_def)
      with False fits show ?thesis using True by (intro 1(1) [OF _ len_def req_def r refl _ _ 1(2)]) auto
    qed
  qed (use 1(3,4) loop in simp)
qed

text \<open>
  Property C12 (functional). A download from a server that reads the file behind the upload returns the file, cut at the limit and at the size the
  uploads table names: byte for byte the beginning of the file, of at most the limit, however many chunks it took. From any server
  that sends no more than asked for it returns at most the limit.
\<close>

theorem download_exact:
  assumes "DownloadFlowUpload ge c t clientID flowID uploadName maxBytes = (log, Inr content)"
  shows "\<exists>rows target. snd (listFlowUploadRows ge c t clientID flowID) = Inr rows \<and> target \<in> set rows \<and> ur_name target = uploadName
    \<and> (\<forall>whole. serves_file (gc_vfs c t) clientID (ur_components target) whole \<and> length whole < 2 ^ 64 \<longrightarrow>
         content = take (nat (if ur_sizeBytes target > 0 \<and> ur_sizeBytes target < upload_limit maxBytes
                              then ur_sizeBytes target else upload_limit maxBytes)) whole)
    \<and> (honours_length (gc_vfs c t) \<longrightarrow> int (length content) \<le> upload_limit maxBytes)"
  using assms
proof (cases rule: DownloadFlowUpload_cases)
  case (read rows target toRead)
  have target: "target \<in> set rows" "ur_name target = uploadName"
    using read(2) find_in [of _ rows target] by (auto simp: download_target_def split: option.splits if_splits)
  have "content = take (nat toRead) whole"
    if "serves_file (gc_vfs c t) clientID (ur_components target) whole" "length whole < 2 ^ 64" for whole
    using download_loop_file [OF that, of "[]" 0 toRead ge] read(3,7) by simp
  moreover have "honours_length (gc_vfs c t) \<longrightarrow> int (length content) \<le> upload_limit maxBytes"
    using download_loop_within [of "gc_vfs c t" "[]" toRead ge clientID "ur_components target" 0 content] read(3,4,7) by auto
  ultimately show ?thesis using read(1,5) target by blast
qed simp

theorem download_exact_witness:
  "\<exists>log. DownloadFlowUpload upload_ge (client_of (upload_api (\<lambda>req. take (unat (vfs_length req)) (drop (unat (vfs_offset req)) ''evidence''))) 10)
     0 ''C.1'' ''F.1'' ''mem.raw'' 5 = (log, Inr ''evide'')"
proof -
  let ?content = "\<lambda>req. take (unat (vfs_length req)) (drop (unat (vfs_offset req)) ''evidence'')"
  let ?c = "client_of (upload_api ?content) 10"
  have f: "serves_file (gc_vfs ?c 0) ''C.1'' [''uploads'', ''mem.raw''] ''evidence''"
    by (simp add: serves_file_def client_of_def upload_api_def)
  have "snd (DownloadFlowUpload upload_ge ?c 0 ''C.1'' ''F.1'' ''mem.raw'' 5) = Inr (take 5 ''evidence'')"
    using download_loop_file [OF f, of "[]" 0 5 upload_ge] upload_run [of 5 ?content 0 "''C.1''" "''F.1''"]
    by (simp add: client_of_def upload_api_def)
  then obtain log where run: "DownloadFlowUpload upload_ge ?c 0 ''C.1'' ''F.1'' ''mem.raw'' 5 = (log, Inr (take 5 ''evidence''))"
    by (cases "DownloadFlowUpload upload_ge ?c 0 ''C.1'' ''F.1'' ''mem.raw'' 5") auto
  obtain rows target where rows: "snd (listFlowUploadRows upload_ge ?c 0 ''C.1'' ''F.1'') = Inr rows" "target \<in> set rows"
    and exact: "\<forall>whole. serves_file (gc_vfs ?c 0) ''C.1'' (ur_components target) whole \<and> length whole < 2 ^ 64 \<longrightarrow>
         take 5 ''evidence'' = take (nat (if ur_sizeBytes target > 0 \<and> ur_sizeBytes target < upload_limit 5 then ur_sizeBytes target else upload_limit 5)) whole"
    using download_exact [OF run] by blast
  have "target = \<lparr>ur_name = ''mem.raw'', ur_components = [''uploads'', ''mem.raw''], ur_sizeBytes = 0, ur_kind = []\<rparr>"
    using rows by (auto simp: upload_rows)
  with exact [rule_format, of "''evidence''"] f have "take 5 ''evidence'' = take (nat (upload_limit 5)) ''evidence''" by simp
  then have "take 5 ''evidence'' = ''evide''" by (simp add: upload_limit_def)
  with run show ?thesis by (intro exI [of _ log]) (simp only:)
qed

theorem download_terminates_witness:
  "\<exists>req chunks. fst (DownloadFlowUpload upload_ge (client_of (upload_api (\<lambda>req. ''x'')) 10) 0 ''C.1'' ''F.1'' ''mem.raw'' 5) = RPC_GetTable req # chunks
     \<and> int (length chunks) * 1048576 < 5 + 1048576"
  using download_terminates [OF prod.collapse [symmetric], of upload_ge "client_of (upload_api (\<lambda>req. ''x'')) 10" 0 "''C.1''" "''F.1''" "''mem.raw''" 5]
  by auto

text \<open>
  The limit of a download is only asked for, not enforced on what arrives: a server that sends more bytes than the request
  named makes a download with a limit of one byte return all of them, however many.
\<close>

theorem download_overrun:
  "snd (DownloadFlowUpload upload_ge (client_of (upload_api (\<lambda>req. replicate (Suc n) CHR ''x'')) 10) t clientID flowID ''mem.raw'' 1)
     = Inr (replicate (Suc n) CHR ''x'')"
proof -
  let ?vfs = "\<lambda>req :: VFSFileBuffer. Inr (req\<lparr>vfs_data := replicate (Suc n) CHR ''x''\<rparr>) :: gerror + VFSFileBuffer"
  have done': "download_loop upload_ge ?vfs clientID [''uploads'', ''mem.raw''] 1 (replicate (Suc n) CHR ''x'') off = ([], Inr (replicate (Suc n) CHR ''x''))" for off
    by (subst download_loop_eq) simp
  have "snd (download_loop upload_ge ?vfs clientID [''uploads'', ''mem.raw''] 1 [] 0) = Inr (replicate (Suc n) CHR ''x'')"
    using done' by (subst download_loop_eq) (simp add: next_length_def Let_def vfsChunkSize_def)
  then show ?thesis using upload_run [of 1 "\<lambda>req. replicate (Suc n) CHR ''x''"] by simp
qed

end
