(* ===== verification/Real_Server.thy ===== *)
theory Real_Server
  imports Startup Grpc_Hunts Grpc_Uploads
begin

text \<open>
  The server with real clients: the gRPC client as an implementation of the client interface, and what the Velociraptor
  server gets to see of a tool call.

  \<open>grpc_reader\<close> and \<open>grpc_writer\<close> are the two halves of the \<^verbatim>\<open>Client\<close> interface that \<open>grpcClient\<close> implements, \<open>new_client\<close> is
  \<^verbatim>\<open>NewGRPCClient\<close> as \<^verbatim>\<open>buildDeps\<close> calls it. \<open>wire\<close> lists the remote calls behind the effects of a handler, given the read
  and the write client, from the moment of its first effect on (each effect takes one tick).

  \<open>wire_mutations\<close>: the mutating calls on the wire are the write calls of the trace, one for one, with their arguments. So the
  properties of the handlers hold of what the server receives: \<open>read_only_wire\<close>, \<open>wire_single_use\<close>, \<open>collection_on_the_wire\<close>.
  \<open>flow_rows_skipped\<close> shows where the paging of handler and client do not fit together.
\<close>

subsection \<open>The client interface, implemented\<close>

definition grpc_reader :: "grpc_env \<Rightarrow> grpcClient \<Rightarrow> read_client" where
  "grpc_reader ge c =
     \<lparr>rc_HealthCheck = (\<lambda>t. snd (HealthCheck ge c t)),
      rc_SearchClients = (\<lambda>t query limit. snd (SearchClients ge c t query limit)),
      rc_GetClientInfo = (\<lambda>t clientID. snd (GetClientInfo ge c t clientID)),
      rc_ListArtifactNames = (\<lambda>t. snd (ListArtifactNames ge c t)),
      rc_GetArtifactDetails = (\<lambda>t name. snd (GetArtifactDetails ge c t name)),
      rc_ListFlows = (\<lambda>t clientID limit cursor. snd (ListFlows ge c t clientID limit cursor)),
      rc_GetFlowStatus = (\<lambda>t clientID flowID. snd (GetFlowStatus ge c t clientID flowID)),
      rc_GetFlowResults = (\<lambda>t clientID flowID source maxRows maxBytes cursor.
        snd (GetFlowResults ge c t clientID flowID source maxRows maxBytes cursor)),
      rc_ListFlowUploads = (\<lambda>t clientID flowID. snd (ListFlowUploads ge c t clientID flowID)),
      rc_GetFlowUploadMetadata = (\<lambda>t clientID flowID uploadName. snd (GetFlowUploadMetadata ge c t clientID flowID uploadName)),
      rc_ListHunts = (\<lambda>t limit. snd (ListHunts ge c t limit)),
      rc_GetHuntStatus = (\<lambda>t huntID. snd (GetHuntStatus ge c t huntID)),
      rc_GetHuntResults = (\<lambda>t huntID source maxRows maxBytes. snd (GetHuntResults ge c t huntID source maxRows maxBytes)),
      rc_PreviewHuntScope = (\<lambda>t scope. snd (PreviewHuntScope ge c t scope))\<rparr>"

abbreviation error_of :: "gerror + unit \<Rightarrow> gerror option" where
  "error_of r \<equiv> (case r of Inl err \<Rightarrow> Some err | Inr _ \<Rightarrow> None)"

definition grpc_writer :: "grpc_env \<Rightarrow> grpcClient \<Rightarrow> write_client" where
  "grpc_writer ge c =
     \<lparr>wc_Supports = Some (SupportsBackendOperation c),
      wc_CollectArtifact = (\<lambda>t req. snd (CollectArtifact ge c t req)),
      wc_CancelFlow = (\<lambda>t clientID flowID. error_of (snd (CancelFlow ge c t clientID flowID))),
      wc_StartHunt = (\<lambda>t req. snd (StartHunt ge c t req)),
      wc_CancelHunt = (\<lambda>t huntID. error_of (snd (CancelHunt ge c t huntID))),
      wc_DownloadFlowUpload = (\<lambda>t clientID flowID uploadName maxBytes. snd (DownloadFlowUpload ge c t clientID flowID uploadName maxBytes))\<rparr>"

definition new_client ::
  "grpc_env \<Rightarrow> ('c, 'p) tls_env \<Rightarrow> string \<Rightarrow> string \<Rightarrow> int \<Rightarrow> int \<Rightarrow> gerror + (read_client \<times> write_client)" where
  "new_client ge te path orgID timeout maxRows =
     (case NewGRPCClient ge te path orgID timeout maxRows of
        Inl err \<Rightarrow> Inl err
      | Inr c \<Rightarrow> Inr (grpc_reader ge c, grpc_writer ge c))"

subsection \<open>What the server sees\<close>

fun read_rpcs :: "grpc_env \<Rightarrow> grpcClient \<Rightarrow> nat \<Rightarrow> read_call \<Rightarrow> rpc list" where
  "read_rpcs ge c t HealthCheckCall = fst (HealthCheck ge c t)"
| "read_rpcs ge c t (SearchClientsCall query limit) = fst (SearchClients ge c t query limit)"
| "read_rpcs ge c t (GetClientInfoCall clientID) = fst (GetClientInfo ge c t clientID)"
| "read_rpcs ge c t ListArtifactNamesCall = fst (ListArtifactNames ge c t)"
| "read_rpcs ge c t (GetArtifactDetailsCall name) = fst (GetArtifactDetails ge c t name)"
| "read_rpcs ge c t (ListFlowsCall clientID limit cursor) = fst (ListFlows ge c t clientID limit cursor)"
| "read_rpcs ge c t (GetFlowStatusCall clientID flowID) = fst (GetFlowStatus ge c t clientID flowID)"
| "read_rpcs ge c t (GetFlowResultsCall clientID flowID source maxRows maxBytes cursor)
     = fst (GetFlowResults ge c t clientID flowID source maxRows maxBytes cursor)"
| "read_rpcs ge c t (ListFlowUploadsCall clientID flowID) = fst (ListFlowUploads ge c t clientID flowID)"
| "read_rpcs ge c t (GetFlowUploadMetadataCall clientID flowID uploadName) = fst (GetFlowUploadMetadata ge c t clientID flowID uploadName)"
| "read_rpcs ge c t (ListHuntsCall limit) = fst (ListHunts ge c t limit)"
| "read_rpcs ge c t (GetHuntStatusCall huntID) = fst (GetHuntStatus ge c t huntID)"
| "read_rpcs ge c t (GetHuntResultsCall huntID source maxRows maxBytes) = fst (GetHuntResults ge c t huntID source maxRows maxBytes)"
| "read_rpcs ge c t (PreviewHuntScopeCall scope) = fst (PreviewHuntScope ge c t scope)"

fun write_rpcs :: "grpc_env \<Rightarrow> grpcClient \<Rightarrow> nat \<Rightarrow> write_call \<Rightarrow> rpc list" where
  "write_rpcs ge c t (CollectArtifactCall req) = fst (CollectArtifact ge c t req)"
| "write_rpcs ge c t (CancelFlowCall clientID flowID) = fst (CancelFlow ge c t clientID flowID)"
| "write_rpcs ge c t (StartHuntCall req) = fst (StartHunt ge c t req)"
| "write_rpcs ge c t (CancelHuntCall huntID) = fst (CancelHunt ge c t huntID)"
| "write_rpcs ge c t (DownloadCall clientID flowID uploadName maxBytes) = fst (DownloadFlowUpload ge c t clientID flowID uploadName maxBytes)"

text \<open>The calls behind effects, given those behind a read and a write call at a moment.\<close>

fun effect_rpcs :: "(nat \<Rightarrow> read_call \<Rightarrow> rpc list) \<Rightarrow> (nat \<Rightarrow> write_call \<Rightarrow> rpc list) \<Rightarrow> nat \<Rightarrow> effect \<Rightarrow> rpc list" where
  "effect_rpcs rd wr t (Called call) = wr t call"
| "effect_rpcs rd wr t (Queried call) = rd t call"
| "effect_rpcs rd wr t _ = []"

fun wire :: "(nat \<Rightarrow> read_call \<Rightarrow> rpc list) \<Rightarrow> (nat \<Rightarrow> write_call \<Rightarrow> rpc list) \<Rightarrow> nat \<Rightarrow> effect list \<Rightarrow> rpc list" where
  "wire rd wr t [] = []"
| "wire rd wr t (x # xs) = effect_rpcs rd wr t x @ wire rd wr (Suc t) xs"

fun session_wire ::
  "(nat \<Rightarrow> read_call \<Rightarrow> rpc list) \<Rightarrow> (nat \<Rightarrow> write_call \<Rightarrow> rpc list) \<Rightarrow> env \<Rightarrow> Deps \<Rightarrow> tool_call list \<Rightarrow> world \<Rightarrow>
   (tool_call \<times> rpc list) list" where
  "session_wire rd wr env deps [] w = []"
| "session_wire rd wr env deps (c # cs) w =
     (c, wire rd wr (w_tick w) (call_effects env deps c w)) # session_wire rd wr env deps cs (dispatch env deps c w)"

subsection \<open>The contract of a client\<close>

abbreviation inert :: "rpc list \<Rightarrow> bool" where
  "inert rpcs \<equiv> list_all (\<lambda>r. \<not> mutating r) rpcs"

text \<open>The mutating calls of a write call, written out.\<close>

fun mutations :: "write_call \<Rightarrow> rpc list" where
  "mutations (CollectArtifactCall req) =
     [RPC_CollectArtifact (artifactCollectorArgsFor (cr_ClientID req) (cr_Artifact req) (cr_Parameters req))]"
| "mutations (CancelFlowCall clientID flowID) = [RPC_CancelFlow \<lparr>afr_client_id = clientID, afr_flow_id = flowID\<rparr>]"
| "mutations (StartHuntCall req) =
     (case huntConditionFromScope (hr_Scope req) of Inl err \<Rightarrow> [] | Inr cond \<Rightarrow> [RPC_CreateHunt (hunt_for req cond)])"
| "mutations (CancelHuntCall huntID) = [RPC_ModifyHunt \<lparr>hmu_hunt_id = huntID, hmu_state = Hunt_STOPPED, hmu_user = []\<rparr>]"
| "mutations (DownloadCall clientID flowID uploadName maxBytes) = []"

text \<open>The calls of a session under one approval reference that changed something on the server.\<close>

definition wire_executions :: "string \<Rightarrow> (tool_call \<times> rpc list) list \<Rightarrow> nat" where
  "wire_executions i log =
     length (filter (\<lambda>(c, rpcs). case c of Gated g \<Rightarrow> gated_reference g = i \<and> list_ex mutating rpcs | Read r \<Rightarrow> False) log)"

lemma filter_inert: "inert rpcs \<Longrightarrow> filter mutating rpcs = []"
  by (simp add: filter_empty_conv list_all_iff)

lemma not_inert: "list_ex mutating rpcs \<longleftrightarrow> \<not> inert rpcs"
  by (simp add: list_ex_iff list_all_iff)

text \<open>
  What the handlers rely on: a read call changes nothing on the server, a write call changes what it says. Everything about sessions
  on the wire follows from these two laws.
\<close>

locale wired_client =
  fixes rd :: "nat \<Rightarrow> read_call \<Rightarrow> rpc list" and wr :: "nat \<Rightarrow> write_call \<Rightarrow> rpc list"
  assumes rd_inert: "inert (rd t rcall)"
    and wr_exact: "filter mutating (wr t wcall) = mutations wcall"
begin

lemma wire_mutates: "filter mutating (wire rd wr t effs) = concat (map mutations (calls effs))"
proof (induction effs arbitrary: t rule: calls.induct)
  case (2 c effs)
  then show ?case by (simp add: wr_exact)
qed (simp_all add: filter_inert [OF rd_inert])

lemma harmless_wire: "harmless effs \<Longrightarrow> inert (wire rd wr t effs)"
  using wire_mutates [of t effs] by (simp add: harmless_calls filter_empty_conv list_all_iff)

lemma session_wire_log:
  "list_all2 (\<lambda>(c, rpcs) (c', effs). c = c' \<and> (\<exists>t. rpcs = wire rd wr t effs))
     (session_wire rd wr env deps cs w) (snd (session env deps cs w))"
proof (induction cs arbitrary: w)
  case (Cons c cs)
  then show ?case by (cases "session env deps cs (dispatch env deps c w)") (use Cons [of "dispatch env deps c w"] in auto)
qed simp

lemma harmless_session_wire:
  assumes "list_all (\<lambda>call. harmless (snd call)) (snd (session env deps cs w))"
  shows "list_all (\<lambda>call. inert (snd call)) (session_wire rd wr env deps cs w)"
  using session_wire_log [of env deps cs w] assms
  by (induction rule: list_all2_induct) (auto split: prod.splits intro: harmless_wire)

lemma wire_executions_le: "wire_executions i (session_wire rd wr env deps cs w) \<le> executions i (snd (session env deps cs w))"
  using session_wire_log [of env deps cs w]
proof (induction rule: list_all2_induct)
  case (Cons x log y log')
  obtain c rpcs effs t where x: "x = (c, rpcs)" "y = (c, effs)" "rpcs = wire rd wr t effs"
    using Cons(1) by (auto split: prod.splits)
  have "list_ex mutating rpcs \<Longrightarrow> \<not> harmless effs" using harmless_wire x(3) not_inert by blast
  then show ?case using Cons(3) x(1,2) by (auto simp: wire_executions_def executions_def split: tool_call.splits)
qed (simp add: wire_executions_def)

end

subsection \<open>Reading does not change the server\<close>

lemma resolve_inert: "inert (fst (resolveArtifactSourceNames ge c t artifact))"
  by (simp add: resolveArtifactSourceNames_def Let_def split: option.splits sum.splits list.splits)

lemma upload_rows_inert: "inert (fst (listFlowUploadRows ge c t clientID flowID))"
  by (simp add: listFlowUploadRows_def Let_def split: sum.splits)

lemma flow_results_inert: "inert (fst (GetFlowResults ge c t clientID flowID source maxRows maxBytes cursor))"
  using resolve_inert by (auto simp: GetFlowResults_def Let_def split: sum.splits option.splits prod.splits)

lemma hunt_results_inert: "inert (fst (GetHuntResults ge c t huntID source maxRows maxBytes))"
  using resolve_inert by (auto simp: GetHuntResults_def Let_def split: sum.splits option.splits prod.splits)

lemma read_rpcs_inert: "inert (read_rpcs ge c t call)"
proof (cases call)
  case (ListFlowUploadsCall clientID flowID)
  then show ?thesis using upload_rows_inert [of ge c t clientID flowID]
    by (auto simp: ListFlowUploads_def split: prod.splits sum.splits)
next
  case (GetFlowUploadMetadataCall clientID flowID uploadName)
  then show ?thesis using upload_rows_inert [of ge c t clientID flowID]
    by (auto simp: GetFlowUploadMetadata_def split: prod.splits sum.splits option.splits)
next
  case (PreviewHuntScopeCall scope)
  then show ?thesis by (auto simp: PreviewHuntScope_def Let_def split: sum.splits)
qed (simp_all add: HealthCheck_def SearchClients_def GetClientInfo_def ListArtifactNames_def GetArtifactDetails_def
  ListFlows_def GetFlowStatus_def ListHunts_def GetHuntStatus_def flow_results_inert hunt_results_inert Let_def
  split: sum.splits option.splits list.splits)

subsection \<open>Writing changes what the call says\<close>

lemma download_loop_inert: "inert (fst (download_loop ge vfs clientID components toRead buf offset))"
proof (induction ge vfs clientID components toRead buf offset rule: download_loop.induct)
  case (1 ge vfs clientID components toRead buf offset)
  show ?case by (subst download_loop_eq) (use 1 in \<open>auto simp: Let_def split: sum.splits\<close>)
qed

lemma download_inert: "inert (fst (DownloadFlowUpload ge c t clientID flowID uploadName maxBytes))"
proof -
  obtain log r where "DownloadFlowUpload ge c t clientID flowID uploadName maxBytes = (log, r)" by fastforce
  then show ?thesis
    by (cases rule: DownloadFlowUpload_cases)
       (use download_loop_inert upload_rows_inert [of ge c t clientID flowID] \<open>DownloadFlowUpload _ _ _ _ _ _ _ = _\<close> in auto)
qed

lemma write_rpcs_mutations: "filter mutating (write_rpcs ge c t call) = mutations call"
  by (cases call)
     (auto simp: CollectArtifact_def CancelFlow_def StartHunt_def CancelHunt_def Let_def filter_inert [OF download_inert]
       split: sum.splits)

interpretation grpc: wired_client "read_rpcs ge rcl" "write_rpcs ge wcl" for ge rcl wcl
  by unfold_locales (simp_all add: read_rpcs_inert write_rpcs_mutations)

text \<open>
  Property C10 (refinement). The mutating calls that reach Velociraptor are the write calls of the trace and no others, in the same order: a collection, a
  cancellation of a flow or of a hunt is exactly one call with the arguments of the trace (the hunt is only ever stopped), a hunt one call unless its scope is a
  list of clients, which sends nothing; downloads and all reads change nothing. A collection names its client and
  its artifact, and binds the parameters of the call as a map.
\<close>

theorem wire_mutations:
  "filter mutating (wire (read_rpcs ge rcl) (write_rpcs ge wcl) t effs) = concat (map mutations (calls effs))
   \<and> mutations (CancelFlowCall clientID flowID) = [RPC_CancelFlow \<lparr>afr_client_id = clientID, afr_flow_id = flowID\<rparr>]
   \<and> mutations (CancelHuntCall huntID) = [RPC_ModifyHunt \<lparr>hmu_hunt_id = huntID, hmu_state = Hunt_STOPPED, hmu_user = []\<rparr>]
   \<and> mutations (DownloadCall clientID flowID uploadName maxBytes) = []
   \<and> (\<exists>args. mutations (CollectArtifactCall \<lparr>cr_ClientID = clientID, cr_Artifact = artifact, cr_Parameters = params\<rparr>) = [RPC_CollectArtifact args]
        \<and> aca_client_id args = clientID \<and> aca_artifacts args = [artifact] \<and> map spec_artifact (aca_specs args) = [artifact]
        \<and> bound_params args = [map_of params])
   \<and> mutations (StartHuntCall req) =
       (if sr_ClientIDs (hr_Scope req) \<noteq> [] then []
        else [RPC_CreateHunt (hunt_for req (if sr_Label (hr_Scope req) = [] then None
                else Some \<lparr>hcn_excluded_labels = None, hcn_UnionField = Some (HuntCondition_Labels \<lparr>hlc_label = [sr_Label (hr_Scope req)]\<rparr>)\<rparr>))])"
  using grpc.wire_mutates [of ge rcl wcl t effs] bound_params_for [of clientID artifact params]
  by (simp add: huntConditionFromScope_def artifactCollectorArgsFor_def)

subsection \<open>Sessions on the wire\<close>

text \<open>
  Property C11 (safety). The server's default is felt on the wire: a server whose configuration is not in controlled mode, or
  has no approval store or no write configuration, sends Velociraptor no call that changes anything, whatever
  its client does in a session, whichever clients it talks through.
\<close>

theorem read_only_wire:
  assumes "runServer su f s = (s', Serve deps sink name)" and "Load su (fl_config f) = Inr cfg"
    and "pc_Mode (c_Policy cfg) \<noteq> PolicyModeControlled \<or> pa_StorePath (c_Approval cfg) = []
      \<or> vc_WriteAPIConfigPath (c_Velociraptor cfg) = []"
  shows "list_all (\<lambda>call. inert (snd call)) (session_wire (read_rpcs ge rcl) (write_rpcs ge wcl) env deps cs w)"
  using assms by (intro grpc.harmless_session_wire read_only_harmless)

theorem read_only_wire_witness:
  "\<exists>deps sink name. snd (runServer sample_startup \<lparr>fl_version = False, fl_config = ''c'', fl_profilesDir = ''p'', fl_profilesDirSet = True\<rparr>
      sample_store) = Serve deps sink name
    \<and> list_all (\<lambda>call. inert (snd call)) (session_wire (read_rpcs sample_ge (client_of silent_api 10)) (write_rpcs sample_ge (client_of silent_api 10)) sample_env deps
         [Gated (CallCollectArtifact sample_input)] sample_world)"
proof -
  let ?f = "\<lparr>fl_version = False, fl_config = ''c'', fl_profilesDir = ''p'', fl_profilesDirSet = True\<rparr>"
  obtain deps sink name where "buildDeps sample_startup ''c'' ''p'' sample_store = (sample_store, Inr (deps, sink, name))"
    using sample_builds by blast
  then have r: "runServer sample_startup ?f sample_store = (sample_store, Serve deps sink name)"
    by (simp add: runServer_def resolveProfilesDir_def)
  have "list_all (\<lambda>call. inert (snd call)) (session_wire (read_rpcs sample_ge (client_of silent_api 10)) (write_rpcs sample_ge (client_of silent_api 10)) sample_env deps
         [Gated (CallCollectArtifact sample_input)] sample_world)"
    by (rule read_only_wire [OF r, where cfg = Default]) (simp_all add: sample_startup_loads Default_def)
  with r show ?thesis by simp
qed

text \<open>
  One approval reaches Velociraptor at most once: over a whole session, whatever the calls and their order, of the gated calls
  made under one approval reference at most one sends a call that changes anything on the server, and none if the reference was
  consumed before, as long as no other process turns a consumed approval back into an unconsumed one.
\<close>

theorem wire_single_use:
  assumes "lawful env"
  shows "wire_executions i (session_wire (read_rpcs ge rcl) (write_rpcs ge wcl) env deps cs w) \<le> (if consumed_in (records_at (w_store w)) i then 0 else 1)"
  using grpc.wire_executions_le [of i ge rcl wcl env deps cs w] session_spends [OF assms, of i deps cs w]
  by (simp add: is_spent_def split: if_splits)

theorem wire_single_use_witness:
  "wire_executions ''REF-1'' (session_wire (read_rpcs sample_ge (client_of silent_api 10)) (write_rpcs sample_ge (client_of silent_api 10)) sample_env sample_deps
     [Gated (CallCollectArtifact sample_input), Gated (CallCollectArtifact sample_input)] sample_world) \<le> 1"
proof -
  have "lawful sample_env" by (simp add: lawful_def sample_env_def)
  from wire_single_use [OF this, of "''REF-1''" sample_ge "client_of silent_api 10" "client_of silent_api 10" sample_deps
      "[Gated (CallCollectArtifact sample_input), Gated (CallCollectArtifact sample_input)]" sample_world]
  show ?thesis by (simp only: split: if_splits)
qed

text \<open>
  Property C9 (safety). A collection end to end: whatever the input, either Velociraptor gets no call that changes anything, or it gets exactly one, which collects
  the artifact of the input on the client of the input with exactly its parameters; then the artifact was on the allowlist and the trace
  shows that the call came after a usable approval for this very request was found and consumed.
\<close>

theorem collection_on_the_wire:
  "authorised (w_audit w \<noteq> None) (ci_ApprovalReference i) (collect_candidate i) (effects_of (newCollectArtifactHandler env deps i) w)
   \<and> (filter mutating (wire (read_rpcs ge rcl) (write_rpcs ge wcl) t (effects_of (newCollectArtifactHandler env deps i) w)) = []
      \<or> (\<exists>args. filter mutating (wire (read_rpcs ge rcl) (write_rpcs ge wcl) t (effects_of (newCollectArtifactHandler env deps i) w)) = [RPC_CollectArtifact args]
           \<and> aca_client_id args = ci_ClientID i \<and> aca_artifacts args = [ci_Artifact i]
           \<and> map spec_artifact (aca_specs args) = [ci_Artifact i] \<and> bound_params args = [map_of (ci_Parameters i)])
        \<and> policy_allows deps (\<lambda>p. \<not> ReadOnly p \<and> ArtifactAllowed p (ci_Artifact i)))"
proof -
  let ?t = "effects_of (newCollectArtifactHandler env deps i) w"
  let ?args = "artifactCollectorArgsFor (ci_ClientID i) (ci_Artifact i) (ci_Parameters i)"
  have a: "authorised (w_audit w \<noteq> None) (ci_ApprovalReference i) (collect_candidate i) ?t"
    and c: "harmless ?t \<or> calls ?t = [CollectArtifactCall \<lparr>cr_ClientID = ci_ClientID i, cr_Artifact = ci_Artifact i, cr_Parameters = ci_Parameters i\<rparr>]
      \<and> policy_allows deps (\<lambda>p. \<not> ReadOnly p \<and> ArtifactAllowed p (ci_Artifact i))"
    using collect_artifact_shape [of w i env deps] by blast+
  have args: "aca_client_id ?args = ci_ClientID i" "aca_artifacts ?args = [ci_Artifact i]" "map spec_artifact (aca_specs ?args) = [ci_Artifact i]"
    by (simp_all add: artifactCollectorArgsFor_def)
  from c show ?thesis
  proof
    assume "harmless ?t"
    then show ?thesis using a filter_inert [OF grpc.harmless_wire] by blast
  next
    assume call: "calls ?t = [CollectArtifactCall \<lparr>cr_ClientID = ci_ClientID i, cr_Artifact = ci_Artifact i, cr_Parameters = ci_Parameters i\<rparr>]
      \<and> policy_allows deps (\<lambda>p. \<not> ReadOnly p \<and> ArtifactAllowed p (ci_Artifact i))"
    then have "filter mutating (wire (read_rpcs ge rcl) (write_rpcs ge wcl) t ?t) = [RPC_CollectArtifact ?args]" by (simp add: grpc.wire_mutates)
    then show ?thesis using a args call bound_params_for [of "ci_ClientID i" "ci_Artifact i" "ci_Parameters i"] by simp
  qed
qed

subsection \<open>Lists are bounded\<close>

text \<open>
  Whatever the caller asks for and whatever the server returns, a list of clients, of artifact names or of hunts from the real client
  is no longer than the bound, which is positive and at most the configured maximum (100 when that is not positive), also
  when no limit or a negative one was asked for; the request names that bound.
\<close>

theorem client_lists_bounded:
  assumes "gc_maxRows c \<le> maxInt64"
  defines "ceiling \<equiv> (if gc_maxRows c > 0 then gc_maxRows c else 100)"
  shows "(\<forall>xs. snd (SearchClients ge c t query limit) = Inr xs \<longrightarrow> int (length xs) \<le> boundLimit limit ceiling)
    \<and> (\<forall>xs. snd (ListHunts ge c t limit) = Inr xs \<longrightarrow> int (length xs) \<le> boundLimit limit ceiling)
    \<and> (\<forall>xs. snd (ListArtifactNames ge c t) = Inr xs \<longrightarrow> int (length xs) \<le> ceiling)
    \<and> 0 < boundLimit limit ceiling \<and> boundLimit limit ceiling \<le> ceiling \<and> (0 < limit \<and> limit \<le> ceiling \<longrightarrow> boundLimit limit ceiling = limit)
    \<and> (\<exists>req. fst (SearchClients ge c t query limit) = [RPC_ListClients req] \<and> uint (scr_limit req) = boundLimit limit ceiling \<and> scr_query req = query)
    \<and> (\<exists>req. fst (ListHunts ge c t limit) = [RPC_ListHunts req] \<and> uint (lhr_count req) = boundLimit limit ceiling)"
proof -
  have e: "effectiveMaxRows c = ceiling" by (simp add: ceiling_def effectiveMaxRows_def defaultMaxRows_def)
  let ?b = "boundLimit limit ceiling"
  have b: "0 < ?b" "?b \<le> ceiling" "0 < ceiling" using bounded_rows [of limit c] effectiveMaxRows_pos [of c] by (simp_all add: e)
  have u: "uint (uint64 ?b) = ?b"
    using b assms(1) by (simp add: uint_word_of_int_eq take_bit_int_eq_self ceiling_def maxInt64_def split: if_splits)
  have "0 < limit \<and> limit \<le> ceiling \<longrightarrow> ?b = limit" using b(3) by (simp add: boundLimit_def)
  moreover have "int (length xs) \<le> ?b" if "snd (SearchClients ge c t query limit) = Inr xs" for xs
    using that clip_length [of ?b] b(1) by (auto simp: SearchClients_def Let_def e split: sum.splits)
  moreover have "int (length xs) \<le> ?b" if "snd (ListHunts ge c t limit) = Inr xs" for xs
    using that clip_length [of ?b] b(1) by (auto simp: ListHunts_def Let_def e split: sum.splits)
  moreover have "int (length xs) \<le> ceiling" if "snd (ListArtifactNames ge c t) = Inr xs" for xs
    using that clip_length [of ceiling] b(3) by (auto simp: ListArtifactNames_def Let_def e split: sum.splits)
  moreover have "\<exists>req. fst (SearchClients ge c t query limit) = [RPC_ListClients req] \<and> uint (scr_limit req) = ?b \<and> scr_query req = query"
    by (simp add: SearchClients_def Let_def e u split: sum.splits)
  moreover have "\<exists>req. fst (ListHunts ge c t limit) = [RPC_ListHunts req] \<and> uint (lhr_count req) = ?b"
    by (simp add: ListHunts_def Let_def e u split: sum.splits)
  ultimately show ?thesis using b by blast
qed

theorem client_lists_bounded_witness:
  "fst (SearchClients sample_ge (client_of silent_api 0) 0 ''host:a'' 500)
     = [RPC_ListClients \<lparr>scr_offset = 0, scr_limit = 100, scr_query = ''host:a''\<rparr>] \<and> boundLimit 500 100 = 100"
proof -
  have "gc_maxRows (client_of silent_api 0) \<le> maxInt64" by (simp add: client_of_def maxInt64_def)
  from client_lists_bounded [OF this, where limit = 500] have "boundLimit 500 100 \<le> 100" by (simp add: client_of_def)
  moreover have "boundLimit 500 100 = 100" by (simp add: boundLimit_def)
  ultimately show ?thesis by (simp add: SearchClients_def Let_def effectiveMaxRows_def client_of_def defaultMaxRows_def
      silent_api_def)
qed

subsection \<open>Paging through handler and client\<close>

text \<open>
  Property C39 (error). Rows between two pages can get lost: when the byte limit of the results handler keeps fewer rows than the client
  delivered and the table goes on behind the client's page, the handler returns the kept rows with the client's cursor, which
  points behind the whole page. The rows that were cut off are on no page that follows.
\<close>

theorem flow_rows_skipped:
  assumes "d_VelociraptorReadMode deps = VelociraptorModeReal" and "d_ReadClient deps = Some (grpc_reader ge c)"
    and valid: "ClientID (gri_ClientID i) = None" "FlowID (gri_FlowID i) = None" "gri_Source i = []"
    and "serves_table ge c (gri_ClientID i) (gri_FlowID i) (gri_Source i) columns table" "decode_rows (ge_decode ge) columns table = Inr rows"
    and "effectiveMaxRows c \<le> maxInt64" "int (length rows) \<le> maxInt64"
  defines "b \<equiv> boundLimit (flow_results_limit deps i) (effectiveMaxRows c)" and "k \<equiv> parseOffsetCursor (gri_Cursor i)"
  assumes more: "k + b < int (length rows)"
    and cut: "boundRowsByLimitAndBytes env (take (nat b) (drop (nat k) rows)) (flow_results_limit deps i) (configuredMaxResultBytes deps)
      = (kept, bytes, True)" "int (length kept) < b"
  shows "\<exists>w' out. newGetFlowResultsHandler env deps i w = (w', Inr out) \<and> gro_Rows out = kept
    \<and> parseOffsetCursor (gro_NextCursor out) = k + b \<and> k + int (length kept) < k + b"
proof -
  define page where "page = result_page b k (int (length rows)) (take (nat b) (drop (nat k) rows))"
  have b: "0 < b" "b \<le> maxInt64" using bounded_rows [of _ c] assms(8) by (auto simp: b_def intro: order_trans)
  have k: "0 \<le> k" using parseOffsetCursor_range by (simp add: k_def)
  have answer: "rc_GetFlowResults (grpc_reader ge c) (w_tick w) (gri_ClientID i) (gri_FlowID i) (gri_Source i)
      (flow_results_limit deps i) (configuredMaxResultBytes deps) (gri_Cursor i) = Inr page"
    using flow_page_at [OF assms(6-8)] by (simp add: grpc_reader_def page_def b_def k_def)
  note slice = result_page_slice [OF b(1) k assms(9) b(2) page_def]
  have page: "fp_Rows page = take (nat b) (drop (nat k) rows)" "fp_NextCursor page = offsetCursor (k + b)" "\<not> fp_SourceRequired page"
    using slice more by (simp_all add: page_def result_page_def Let_def)
  have cursor: "parseOffsetCursor (offsetCursor (k + b)) = k + b"
    using parse_print_cursor [of "k + b"] b(1) k more assms(9) by simp
  have "\<exists>w' out. newGetFlowResultsHandler env deps i w = (w', Inr out)
      \<and> out = snd (flow_results_page env deps i (flow_event ''velo_get_flow_results'' (gri_ClientID i) (gri_FlowID i)) (flow_results_limit deps i) page)"
    using answer assms(1,2) valid
    by (simp add: newGetFlowResultsHandler_def Let_def guarded_def check_def validateFlowReadInput_None_iff [THEN iffD2] read_tool_def)
  then obtain w' out where "newGetFlowResultsHandler env deps i w = (w', Inr out)"
    "out = snd (flow_results_page env deps i (flow_event ''velo_get_flow_results'' (gri_ClientID i) (gri_FlowID i)) (flow_results_limit deps i) page)" by blast
  then show ?thesis using cut page cursor
    by (intro exI [of _ w'] exI [of _ out]) (simp add: flow_results_page_def Let_def offsetCursor_ne)
qed

text \<open>Three rows, pages of two, and a byte limit that only one row fits in.\<close>

definition narrow_config :: Config where
  "narrow_config = Default\<lparr>c_Velociraptor := (c_Velociraptor Default)\<lparr>vc_MaxResultBytes := 5\<rparr>\<rparr>"

definition narrow_deps :: Deps where
  "narrow_deps = reader_deps\<lparr>d_Config := Some narrow_config, d_ReadClient := Some (grpc_reader sample_ge (client_of (table_api sample_table) 2))\<rparr>"

theorem flow_rows_skipped_witness:
  "\<exists>w' out. newGetFlowResultsHandler sample_env narrow_deps reader_input reader_world = (w', Inr out)
     \<and> gro_Rows out = [[(''Name'', VString ''a'')]] \<and> parseOffsetCursor (gro_NextCursor out) = 2"
proof -
  let ?c = "client_of (table_api sample_table) 2" and ?rows = "map (\<lambda>r. [(''Name'', VString (tr_json r))]) sample_table"
  have d: "decode_rows (ge_decode sample_ge) [''Name''] sample_table = Inr ?rows"
    by (simp add: sample_table_def sample_ge_def row_of_def)
  have m: "effectiveMaxRows ?c = 2" by (simp add: effectiveMaxRows_def client_of_def)
  have l: "flow_results_limit narrow_deps reader_input = 2"
    by (simp add: flow_results_limit_def boundToolLimit_def configuredMaxRows_def narrow_deps_def narrow_config_def reader_input_def Default_def)
  have y: "configuredMaxResultBytes narrow_deps = 5"
    by (simp add: configuredMaxResultBytes_def narrow_deps_def narrow_config_def)
  have k: "parseOffsetCursor (gri_Cursor reader_input) = 0" by (simp add: reader_input_def parseOffsetCursor_def HasPrefix_def)
  have b: "boundLimit 2 2 = 2" by (simp add: boundLimit_def)
  have ok: "ClientID (gri_ClientID reader_input) = None" "FlowID (gri_FlowID reader_input) = None" by code_simp+
  have cut: "boundRowsByLimitAndBytes sample_env (take (nat (boundLimit (flow_results_limit narrow_deps reader_input) (effectiveMaxRows ?c)))
      (drop (nat (parseOffsetCursor (gri_Cursor reader_input))) ?rows)) (flow_results_limit narrow_deps reader_input) (configuredMaxResultBytes narrow_deps)
      = ([[(''Name'', VString ''a'')]], 4, True)"
    unfolding m l y k b by (simp add: boundRowsByLimitAndBytes_def row_bytes_def sample_env_def wrap64_def sample_table_def)
  have "\<exists>w' out. newGetFlowResultsHandler sample_env narrow_deps reader_input reader_world = (w', Inr out)
     \<and> gro_Rows out = [[(''Name'', VString ''a'')]]
     \<and> parseOffsetCursor (gro_NextCursor out) = parseOffsetCursor (gri_Cursor reader_input)
         + boundLimit (flow_results_limit narrow_deps reader_input) (effectiveMaxRows ?c)
     \<and> parseOffsetCursor (gri_Cursor reader_input) + int (length [[(''Name'', VString ''a'')]])
         < parseOffsetCursor (gri_Cursor reader_input) + boundLimit (flow_results_limit narrow_deps reader_input) (effectiveMaxRows ?c)"
  proof (rule flow_rows_skipped [OF _ _ ok _ _ d _ _ _ cut])
    show "serves_table sample_ge ?c (gri_ClientID reader_input) (gri_FlowID reader_input) (gri_Source reader_input) [''Name''] sample_table"
      using table_api_serves [of "gri_FlowID reader_input"] by (simp add: reader_input_def)
    show "parseOffsetCursor (gri_Cursor reader_input) + boundLimit (flow_results_limit narrow_deps reader_input) (effectiveMaxRows ?c) < int (length ?rows)"
      unfolding m l k b by (simp add: sample_table_def)
  qed (unfold m l b, simp_all add: narrow_deps_def reader_deps_def reader_input_def maxInt64_def sample_table_def)
  then show ?thesis unfolding m l k b by auto
qed

subsection \<open>Starting with real clients\<close>

lemma new_client_ok: "new_client ge te path orgID timeout maxRows = Inr rw \<Longrightarrow>
   \<exists>c. NewGRPCClient ge te path orgID timeout maxRows = Inr c \<and> rw = (grpc_reader ge c, grpc_writer ge c)"
  by (auto simp: new_client_def split: sum.splits)

lemma connect_real:
  assumes "connect su cfg what path = Inr (rw, mode)" and "su_NewGRPCClient su = new_client ge te"
  shows "if path = [] then rw = (placeholderReader, placeholderClient)
    else \<exists>c. NewGRPCClient ge te path (vc_OrgID (c_Velociraptor cfg)) (Seconds (vc_TimeoutSeconds (c_Velociraptor cfg))) (vc_MaxRows (c_Velociraptor cfg)) = Inr c
      \<and> rw = (grpc_reader ge c, grpc_writer ge c)"
  using assms by (auto simp: connect_def Let_def split: if_splits sum.splits dest!: new_client_ok)

lemma buildDeps_clients:
  assumes "buildDeps su configPath profilesDir s = (s', Inr (deps, sink, name))" and "Load su configPath = Inr cfg"
  obtains rc rm wc wm where "connect su cfg ''read'' (vc_ReadAPIConfigPath (c_Velociraptor cfg)) = Inr (rc, rm)" "d_ReadClient deps = Some (fst rc)"
    "connect su cfg ''write'' (vc_WriteAPIConfigPath (c_Velociraptor cfg)) = Inr (wc, wm)" "d_WriteClient deps = Some (snd wc)"
  using assms unfolding buildDeps_def by (auto split: sum.splits option.splits prod.splits)

lemma grpc_writer_ready:
  "op \<in> {BackendOpCollectArtifact, BackendOpCancelFlow, BackendOpDownloadFlowUpload, BackendOpStartHunt, BackendOpCancelHunt} \<Longrightarrow>
   backendOperationReady env (Some (grpc_writer ge c)) op = zeroResult"
  by (simp add: backendOperationReady_def grpc_writer_def SupportsBackendOperation_def)

text \<open>
  Property C15 (safety). The two credentials are kept apart: a server that starts reads through a client built from the read credentials file
  only and writes through a client built from the write credentials file only, with the organisation, timeout and row bound of
  the configuration; without a write file it has the client that supports nothing, and with one the backend is ready for
  all five write operations.
\<close>

theorem credentials_separate:
  assumes "buildDeps su configPath profilesDir s = (s', Inr (deps, sink, name))" and "Load su configPath = Inr cfg"
    and "su_NewGRPCClient su = new_client ge te"
  defines "v \<equiv> c_Velociraptor cfg"
  shows "(if vc_ReadAPIConfigPath v = [] then d_ReadClient deps = Some placeholderReader
      else \<exists>c. NewGRPCClient ge te (vc_ReadAPIConfigPath v) (vc_OrgID v) (Seconds (vc_TimeoutSeconds v)) (vc_MaxRows v) = Inr c
        \<and> d_ReadClient deps = Some (grpc_reader ge c))
    \<and> (if vc_WriteAPIConfigPath v = [] then d_WriteClient deps = Some placeholderClient
      else (\<exists>c. NewGRPCClient ge te (vc_WriteAPIConfigPath v) (vc_OrgID v) (Seconds (vc_TimeoutSeconds v)) (vc_MaxRows v) = Inr c
             \<and> d_WriteClient deps = Some (grpc_writer ge c))
           \<and> list_all (\<lambda>op. backendOperationReady env (d_WriteClient deps) op = zeroResult)
               [BackendOpCollectArtifact, BackendOpCancelFlow, BackendOpDownloadFlowUpload, BackendOpStartHunt, BackendOpCancelHunt])"
  using assms(1,2)
proof (rule buildDeps_clients)
  fix rc rm wc wm
  assume r: "connect su cfg ''read'' (vc_ReadAPIConfigPath (c_Velociraptor cfg)) = Inr (rc, rm)" "d_ReadClient deps = Some (fst rc)"
    and w: "connect su cfg ''write'' (vc_WriteAPIConfigPath (c_Velociraptor cfg)) = Inr (wc, wm)" "d_WriteClient deps = Some (snd wc)"
  show ?thesis
    using connect_real [OF r(1) assms(3)] connect_real [OF w(1) assms(3)] r(2) w(2) grpc_writer_ready
    by (auto simp: v_def split: if_splits)
qed

text \<open>A machine whose configuration names the credentials file for reading and none for writing.\<close>

definition real_config :: Config where
  "real_config = Default\<lparr>c_Velociraptor := (c_Velociraptor Default)\<lparr>vc_ReadAPIConfigPath := ''api.yaml''\<rparr>\<rparr>"

definition real_startup :: startup_env where
  "real_startup = sample_startup\<lparr>su_Unmarshal := (\<lambda>d. Inr real_config), su_NewGRPCClient := new_client sample_ge sample_te\<rparr>"

theorem credentials_separate_witness:
  "\<exists>deps sink name c. buildDeps real_startup ''c'' ''p'' sample_store = (sample_store, Inr (deps, sink, name))
     \<and> d_ReadClient deps = Some (grpc_reader sample_ge c) \<and> d_WriteClient deps = Some placeholderClient"
proof -
  have l: "Load real_startup ''c'' = Inr real_config" by (simp add: Load_def real_startup_def sample_startup_def)
  have paths: "vc_ReadAPIConfigPath (c_Velociraptor real_config) = ''api.yaml''" "vc_WriteAPIConfigPath (c_Velociraptor real_config) = []"
    "pa_StorePath (c_Approval real_config) = []" by (simp_all add: real_config_def Default_def)
  have "\<exists>k. open_sink real_startup (c_Audit real_config) = Inr k"
    by (simp add: open_sink_def real_startup_def sample_startup_def NewJSONLWriterWithRotation_def calm_audit_def)
  moreover have "LoadDir (su_dfir real_startup) ''p'' = Inr sample_registry"
    using sample_registry_loads by (simp add: sample_startup_def real_startup_def)
  moreover have "Validate (Some real_config) = None" by (simp add: Validate_None_iff config_ok_def real_config_def Default_def)
  moreover have "\<exists>c. NewGRPCClient sample_ge sample_te ''api.yaml'' orgID timeout maxRows = Inr c" for orgID timeout maxRows
    by (simp add: NewGRPCClient_def sample_te_def sample_credentials_load)
  then have "\<exists>rw. new_client sample_ge sample_te ''api.yaml'' orgID timeout maxRows = Inr rw" for orgID timeout maxRows
    unfolding new_client_def by (metis sum.case(2))
  then have "\<exists>rc. connect real_startup real_config ''read'' ''api.yaml'' = Inr (rc, VelociraptorModeReal)"
    by (simp add: connect_def Let_def real_startup_def) (metis (no_types, lifting) sum.case(2))
  ultimately obtain deps sink name where b: "buildDeps real_startup ''c'' ''p'' sample_store = (sample_store, Inr (deps, sink, name))"
    by (auto simp: buildDeps_def l paths connect_def [of _ _ _ "[]"] open_approvals_def)
  have "su_NewGRPCClient real_startup = new_client sample_ge sample_te" by (simp add: real_startup_def)
  from credentials_separate [OF b l this] show ?thesis using b by (auto simp: paths)
qed

end
