(* ===== verification/Flag_Parse.thy ===== *)
theory Flag_Parse
  imports Approve_CLI Paging
begin

text \<open>
  What the program uses of Go's \<^verbatim>\<open>flag\<close> package: a flag set with boolean, integer and string flags and
  the program's own two flag types, and \<^verbatim>\<open>FlagSet.Parse\<close> with its conventions: one or two dashes,
  \<^verbatim>\<open>-name=value\<close> or the value as the next argument, booleans without a value, \<^verbatim>\<open>--\<close> and the first argument
  that is not a flag ending the flags. \<^verbatim>\<open>strconv.ParseBool\<close> and \<^verbatim>\<open>strconv.ParseInt\<close> with base 0 are
  modelled with their prefixes, underscores and range errors.

  \<open>Parse_settings\<close> is the lemma the command line theory rests on: arguments of the form
  \<^verbatim>\<open>--name=value\<close> set their flags one after another, whatever the values are.
\<close>

subsection \<open>Reading values (\<^verbatim>\<open>strconv\<close>)\<close>

definition ParseBool :: "string \<Rightarrow> bool option" where
  "ParseBool s =
     (if s \<in> set [''1'', ''t'', ''T'', ''true'', ''TRUE'', ''True''] then Some True
      else if s \<in> set [''0'', ''f'', ''F'', ''false'', ''FALSE'', ''False''] then Some False
      else None)"

datatype num_error = ErrSyntax | ErrRange

definition digit_value :: "char \<Rightarrow> nat option" where
  "digit_value c =
     (let n = of_char c; l = of_char (lower_char c) :: nat in
      if is_digit c then Some (n - 48)
      else if 97 \<le> l \<and> l \<le> 122 then Some (l - 97 + 10)
      else None)"

fun parse_digits :: "nat \<Rightarrow> nat \<Rightarrow> string \<Rightarrow> num_error + nat" where
  "parse_digits base n [] = Inr n"
| "parse_digits base n (c # cs) =
     (if c = CHR ''_'' then parse_digits base n cs
      else case digit_value c of
        None \<Rightarrow> Inl ErrSyntax
      | Some d \<Rightarrow>
          if base \<le> d then Inl ErrSyntax
          else if 2 ^ 64 \<le> n * base + d then Inl ErrRange
          else parse_digits base (n * base + d) cs)"

text \<open>\<open>underscoreOK\<close>: underscores only between digits, the base prefix counting as a digit. The state is the
  kind of the last character seen.\<close>

datatype saw = SawBegin | SawDigit | SawUnderscore | SawOther

fun underscores :: "bool \<Rightarrow> saw \<Rightarrow> string \<Rightarrow> bool" where
  "underscores hex saw [] = (saw \<noteq> SawUnderscore)"
| "underscores hex saw (c # cs) =
     (if is_digit c \<or> hex \<and> lower_char c \<in> set ''abcdef'' then underscores hex SawDigit cs
      else if c = CHR ''_'' then saw = SawDigit \<and> underscores hex SawUnderscore cs
      else saw \<noteq> SawUnderscore \<and> underscores hex SawOther cs)"

definition has_prefix_digit :: "nat \<Rightarrow> string \<Rightarrow> char \<Rightarrow> bool" where
  "has_prefix_digit least s c \<longleftrightarrow> least \<le> length s \<and> s ! 0 = CHR ''0'' \<and> lower_char (s ! 1) = c"

definition underscoreOK :: "string \<Rightarrow> bool" where
  "underscoreOK s =
     (let s = (if s \<noteq> [] \<and> (hd s = CHR ''-'' \<or> hd s = CHR ''+'') then tl s else s) in
      if has_prefix_digit 2 s (CHR ''b'') \<or> has_prefix_digit 2 s (CHR ''o'') \<or> has_prefix_digit 2 s (CHR ''x'')
      then underscores (lower_char (s ! 1) = CHR ''x'') SawDigit (drop 2 s)
      else underscores False SawBegin s)"

definition ParseUint :: "string \<Rightarrow> num_error + nat" where
  "ParseUint s =
     (if s = [] then Inl ErrSyntax
      else let (base, digits) =
          (if hd s = CHR ''0''
           then if has_prefix_digit 3 s (CHR ''b'') then (2, drop 2 s)
                else if has_prefix_digit 3 s (CHR ''o'') then (8, drop 2 s)
                else if has_prefix_digit 3 s (CHR ''x'') then (16, drop 2 s)
                else (8, tl s)
           else (10, s))
        in case parse_digits base 0 digits of
             Inl err \<Rightarrow> Inl err
           | Inr n \<Rightarrow> if CHR ''_'' \<in> set digits \<and> \<not> underscoreOK s then Inl ErrSyntax else Inr n)"

definition ParseInt :: "string \<Rightarrow> num_error + int" where
  "ParseInt s =
     (if s = [] then Inl ErrSyntax
      else let neg = (hd s = CHR ''-''); digits = (if hd s = CHR ''+'' \<or> neg then tl s else s)
        in case ParseUint digits of
             Inl err \<Rightarrow> Inl err
           | Inr un \<Rightarrow>
               if \<not> neg \<and> 2 ^ 63 \<le> un \<or> neg \<and> 2 ^ 63 < un then Inl ErrRange
               else Inr (if neg then - int un else int un))"

subsection \<open>Flag sets\<close>

datatype flag_value =
    BoolValue bool
  | IntValue int
  | StringValue string
  | ParamMap "string gomap"
  | StringSlice "string list"

fun Value_Set :: "flag_value \<Rightarrow> string \<Rightarrow> gerror + flag_value" where
  "Value_Set (BoolValue _) s = (case ParseBool s of None \<Rightarrow> Inl (errorf ''parse error'') | Some b \<Rightarrow> Inr (BoolValue b))"
| "Value_Set (IntValue _) s =
     (case ParseInt s of
        Inl ErrSyntax \<Rightarrow> Inl (errorf ''parse error'')
      | Inl ErrRange \<Rightarrow> Inl (errorf ''value out of range'')
      | Inr i \<Rightarrow> Inr (IntValue i))"
| "Value_Set (StringValue _) s = Inr (StringValue s)"
| "Value_Set (ParamMap m) s = map_sum id ParamMap (paramMapFlag_Set m s)"
| "Value_Set (StringSlice vs) s = Inr (StringSlice (stringSliceFlag_Set vs s))"

fun IsBoolFlag :: "flag_value \<Rightarrow> bool" where
  "IsBoolFlag (BoolValue _) = True"
| "IsBoolFlag _ = False"

record FlagSet =
  fs_formal :: "flag_value gomap"
  fs_actual :: "string list"
  fs_args :: "string list"

datatype parse_error = ErrHelp | Failf gerror

definition set_flag :: "string \<Rightarrow> flag_value \<Rightarrow> FlagSet \<Rightarrow> FlagSet" where
  "set_flag name v fs = fs\<lparr>fs_formal := gomap_put name v (fs_formal fs), fs_actual := name # fs_actual fs\<rparr>"

text \<open>The name and the value of an argument, without its dashes; the first character is not looked at.\<close>

fun split_value :: "string \<Rightarrow> string \<times> string option" where
  "split_value [] = ([], None)"
| "split_value (c # cs) = (case Cut_eq cs of None \<Rightarrow> (c # cs, None) | Some (k, v) \<Rightarrow> (c # k, Some v))"

definition flag_error :: "string \<Rightarrow> string \<Rightarrow> string \<Rightarrow> string \<Rightarrow> gerror \<Rightarrow> parse_error" where
  "flag_error what value sep name err = Failf (Errorf [Lit what, Quo value, Lit (sep @ name @ '': ''), Wrap err])"

text \<open>The flag \<open>name\<close> is defined as \<open>v\<close>; \<open>given\<close> is what followed its equals sign, \<open>rest\<close> the arguments after it.\<close>

definition parse_value :: "FlagSet \<Rightarrow> string \<Rightarrow> flag_value \<Rightarrow> string option \<Rightarrow> string list \<Rightarrow> parse_error + FlagSet" where
  "parse_value fs name v given rest =
     (if IsBoolFlag v
      then (case Value_Set v (case given of Some value \<Rightarrow> value | None \<Rightarrow> ''true'') of
              Inl err \<Rightarrow> Inl (flag_error ''invalid boolean value '' (case given of Some value \<Rightarrow> value | None \<Rightarrow> ''true'') '' for -'' name err)
            | Inr v' \<Rightarrow> Inr ((set_flag name v' fs)\<lparr>fs_args := rest\<rparr>))
      else case (case given of Some value \<Rightarrow> Some (value, rest)
                 | None \<Rightarrow> (case rest of [] \<Rightarrow> None | value # rest' \<Rightarrow> Some (value, rest'))) of
             None \<Rightarrow> Inl (Failf (errorf (''flag needs an argument: -'' @ name)))
           | Some (value, rest') \<Rightarrow>
               (case Value_Set v value of
                  Inl err \<Rightarrow> Inl (flag_error ''invalid value '' value '' for flag -'' name err)
                | Inr v' \<Rightarrow> Inr ((set_flag name v' fs)\<lparr>fs_args := rest'\<rparr>)))"

text \<open>One step; the boolean says whether a flag was seen.\<close>

definition parseOne :: "FlagSet \<Rightarrow> parse_error + bool \<times> FlagSet" where
  "parseOne fs =
     (case fs_args fs of
        [] \<Rightarrow> Inr (False, fs)
      | s # rest \<Rightarrow>
          if length s < 2 \<or> s ! 0 \<noteq> CHR ''-'' then Inr (False, fs)
          else if s = ''--'' then Inr (False, fs\<lparr>fs_args := rest\<rparr>)
          else let body = drop (if s ! 1 = CHR ''-'' then 2 else 1) s in
            if hd body = CHR ''-'' \<or> hd body = CHR ''='' then Inl (Failf (errorf (''bad flag syntax: '' @ s)))
            else (case split_value body of (name, given) \<Rightarrow>
              (case map_of (fs_formal fs) name of
                 None \<Rightarrow> if name = ''help'' \<or> name = ''h'' then Inl ErrHelp
                         else Inl (Failf (errorf (''flag provided but not defined: -'' @ name)))
               | Some v \<Rightarrow> map_sum id (\<lambda>fs'. (True, fs')) (parse_value fs name v given rest))))"

lemma parse_value_args: "parse_value fs name v given rest = Inr fs' \<Longrightarrow> length (fs_args fs') \<le> length rest"
  by (auto simp: parse_value_def split: if_splits sum.splits option.splits list.splits prod.splits)

lemma parseOne_args: "parseOne fs = Inr (True, fs') \<Longrightarrow> length (fs_args fs') < length (fs_args fs)"
  by (auto simp: parseOne_def Let_def map_sum_def split: list.splits if_splits prod.splits option.splits sum.splits
      dest!: parse_value_args)

function Parse :: "FlagSet \<Rightarrow> parse_error + FlagSet" where
  "Parse fs =
     (case parseOne fs of
        Inl err \<Rightarrow> Inl err
      | Inr (seen, fs') \<Rightarrow> if seen then Parse fs' else Inr fs')"
  by pat_completeness auto
termination
  by (relation "measure (\<lambda>fs. length (fs_args fs))") (auto dest: parseOne_args)

declare Parse.simps [simp del]

subsection \<open>Numerals are read back\<close>

lemma ParseBool_print: "ParseBool (if b then ''true'' else ''false'') = Some b"
  by (simp add: ParseBool_def)

lemma digit_value_digit_char: "d < 10 \<Longrightarrow> digit_value (digit_char d) = Some d"
  by (simp add: digit_value_def of_char_digit_char)

lemma digit_char_not_underscore: "d < 10 \<Longrightarrow> digit_char d \<noteq> CHR ''_''"
  using of_char_digit_char [of d] by auto

lemma parse_digits_append:
  "parse_digits base n (xs @ ys) = (case parse_digits base n xs of Inl err \<Rightarrow> Inl err | Inr m \<Rightarrow> parse_digits base m ys)"
  by (induction base n xs rule: parse_digits.induct) (auto split: option.split)

lemma parse_digits_Itoa: "n < 2 ^ 64 \<Longrightarrow> parse_digits 10 0 (Itoa n) = Inr n"
proof (induction n rule: Itoa.induct)
  case (1 n)
  show ?case
  proof (cases "n < 10")
    case True
    then show ?thesis by (simp add: Itoa.simps [of n] digit_value_digit_char digit_char_not_underscore)
  next
    case False
    moreover have "n div 10 < 2 ^ 64" using 1(2) by simp
    ultimately have "parse_digits 10 0 (Itoa (n div 10)) = Inr (n div 10)" using 1(1) by simp
    moreover have "n div 10 * 10 + n mod 10 = n" by simp
    ultimately show ?thesis using False 1(2)
      by (simp add: Itoa.simps [of n] parse_digits_append digit_value_digit_char digit_char_not_underscore)
  qed
qed

lemma Itoa_hd: "0 < n \<Longrightarrow> hd (Itoa n) \<noteq> CHR ''0''"
proof (induction n rule: Itoa.induct)
  case (1 n)
  show ?case
  proof (cases "n < 10")
    case True
    then show ?thesis using 1(2) of_char_digit_char [OF True] by (auto simp: Itoa.simps [of n])
  next
    case False
    then show ?thesis using 1 by (simp add: Itoa.simps [of n] hd_append)
  qed
qed

lemma Itoa_no_underscore: "CHR ''_'' \<notin> set (Itoa n)"
  using Itoa_digits [of "CHR ''_''" n] by (auto simp: is_digit_def)

lemma Itoa_0: "Itoa 0 = ''0''"
  by (simp add: Itoa.simps [of 0] digit_char_def) (code_simp)

lemma ParseUint_Itoa: "n < 2 ^ 64 \<Longrightarrow> ParseUint (Itoa n) = Inr n"
proof (cases "n = 0")
  case True
  then show ?thesis by (simp add: Itoa_0 ParseUint_def has_prefix_digit_def)
next
  case False
  moreover assume "n < 2 ^ 64"
  ultimately show ?thesis using Itoa_hd [of n] Itoa_no_underscore [of n] parse_digits_Itoa [of n] by (simp add: ParseUint_def)
qed

lemma ParseInt_FormatInt:
  assumes "minInt64 \<le> i" and "i \<le> maxInt64" shows "ParseInt (FormatInt i) = Inr i"
proof (cases "i < 0")
  case True
  then have "nat (- i) \<le> 2 ^ 63" using assms(1) by (simp add: minInt64_def)
  moreover have "ParseUint (Itoa (nat (- i))) = Inr (nat (- i))" by (rule ParseUint_Itoa) (use calculation in simp)
  ultimately show ?thesis using True by (simp add: ParseInt_def FormatInt_def)
next
  case False
  then have "nat i < 2 ^ 63" using assms(2) by (simp add: maxInt64_def)
  moreover have "ParseUint (Itoa (nat i)) = Inr (nat i)" by (rule ParseUint_Itoa) (use calculation in simp)
  moreover obtain c cs where "Itoa (nat i) = c # cs" using Itoa_ne by (metis list.exhaust)
  ultimately show ?thesis using False Itoa_no_sign [of "nat i" c cs] by (simp add: ParseInt_def FormatInt_def)
qed

subsection \<open>Arguments that set flags\<close>

definition setting :: "string \<times> string \<Rightarrow> string" where
  "setting nv = ''--'' @ fst nv @ ''='' @ snd nv"

definition flag_name_ok :: "string \<Rightarrow> bool" where
  "flag_name_ok name \<longleftrightarrow> name \<noteq> [] \<and> hd name \<noteq> CHR ''-'' \<and> CHR ''='' \<notin> set name"

fun apply_settings :: "(string \<times> string) list \<Rightarrow> FlagSet \<Rightarrow> parse_error + FlagSet" where
  "apply_settings [] fs = Inr fs"
| "apply_settings ((name, value) # nvs) fs =
     (case map_of (fs_formal fs) name of
        None \<Rightarrow> if name = ''help'' \<or> name = ''h'' then Inl ErrHelp
                else Inl (Failf (errorf (''flag provided but not defined: -'' @ name)))
      | Some v \<Rightarrow>
          (case Value_Set v value of
             Inl err \<Rightarrow> Inl (if IsBoolFlag v then flag_error ''invalid boolean value '' value '' for -'' name err
                            else flag_error ''invalid value '' value '' for flag -'' name err)
           | Inr v' \<Rightarrow> apply_settings nvs (set_flag name v' fs)))"

lemma Cut_eq_append: "CHR ''='' \<notin> set k \<Longrightarrow> Cut_eq (k @ CHR ''='' # v) = Some (k, v)"
  by (induction k) auto

lemma split_value_setting: "flag_name_ok name \<Longrightarrow> split_value (name @ CHR ''='' # v) = (name, Some v)"
  by (cases name) (auto simp: flag_name_ok_def Cut_eq_append)

lemma set_flag_args [simp]: "fs_args (set_flag name v fs) = fs_args fs"
  by (simp add: set_flag_def)

lemma set_flag_update_args [simp]: "set_flag name v (fs\<lparr>fs_args := as\<rparr>) = (set_flag name v fs)\<lparr>fs_args := as\<rparr>"
  by (simp add: set_flag_def)

lemma parseOne_setting:
  assumes "flag_name_ok name"
  shows "parseOne (fs\<lparr>fs_args := setting (name, value) # rest\<rparr>) =
     map_sum id (\<lambda>fs'. (True, fs'\<lparr>fs_args := rest\<rparr>)) (apply_settings [(name, value)] fs)"
proof -
  let ?fs = "fs\<lparr>fs_args := setting (name, value) # rest\<rparr>"
  have n: "name \<noteq> []" "hd name \<noteq> CHR ''-''" "hd name \<noteq> CHR ''=''"
    using assms by (auto simp: flag_name_ok_def dest: hd_in_set)
  have "parseOne ?fs = (case map_of (fs_formal fs) name of
      None \<Rightarrow> if name = ''help'' \<or> name = ''h'' then Inl ErrHelp
              else Inl (Failf (errorf (''flag provided but not defined: -'' @ name)))
    | Some v \<Rightarrow> map_sum id (\<lambda>fs'. (True, fs')) (parse_value ?fs name v (Some value) rest))"
    by (simp add: parseOne_def setting_def n split_value_setting [OF assms] split: option.split)
  then show ?thesis by (simp add: parse_value_def split: option.split sum.split)
qed

lemma Parse_setting:
  assumes "flag_name_ok name"
  shows "Parse (fs\<lparr>fs_args := setting (name, value) # rest\<rparr>) =
     (case apply_settings [(name, value)] fs of Inl err \<Rightarrow> Inl err | Inr fs' \<Rightarrow> Parse (fs'\<lparr>fs_args := rest\<rparr>))"
proof (cases "apply_settings [(name, value)] fs")
  case (Inl err)
  then show ?thesis unfolding Parse.simps [of "fs\<lparr>fs_args := _\<rparr>"] parseOne_setting [OF assms] by (simp del: apply_settings.simps)
next
  case (Inr fs')
  then show ?thesis unfolding Parse.simps [of "fs\<lparr>fs_args := _\<rparr>"] parseOne_setting [OF assms] by (simp del: apply_settings.simps)
qed

lemma apply_settings_Cons:
  "apply_settings (nv # nvs) fs = (case apply_settings [nv] fs of Inl err \<Rightarrow> Inl err | Inr fs' \<Rightarrow> apply_settings nvs fs')"
  by (cases nv) (simp split: option.split sum.split)

lemma apply_settings_append:
  "apply_settings (xs @ ys) fs = (case apply_settings xs fs of Inl err \<Rightarrow> Inl err | Inr fs' \<Rightarrow> apply_settings ys fs')"
proof (induction xs arbitrary: fs)
  case (Cons x xs)
  show ?case
    unfolding append_Cons apply_settings_Cons [of x "xs @ ys"] apply_settings_Cons [of x xs] Cons
    by (cases "apply_settings [x] fs") (simp_all del: apply_settings.simps)
qed simp

lemma Parse_settings:
  "list_all (\<lambda>nv. flag_name_ok (fst nv)) nvs \<Longrightarrow> Parse (fs\<lparr>fs_args := map setting nvs @ rest\<rparr>) =
     (case apply_settings nvs fs of Inl err \<Rightarrow> Inl err | Inr fs' \<Rightarrow> Parse (fs'\<lparr>fs_args := rest\<rparr>))"
proof (induction nvs arbitrary: fs)
  case (Cons nv nvs)
  obtain name x where nv: "nv = (name, x)" by (cases nv)
  have ok: "flag_name_ok name" and all: "list_all (\<lambda>nv. flag_name_ok (fst nv)) nvs" using Cons.prems by (simp_all add: nv)
  show ?case
    unfolding list.map append_Cons nv Parse_setting [OF ok] apply_settings_Cons [of "(name, x)" nvs]
    by (cases "apply_settings [(name, x)] fs") (simp_all add: Cons.IH [OF all] del: apply_settings.simps)
qed simp

lemma Parse_no_args: "Parse (fs\<lparr>fs_args := []\<rparr>) = Inr (fs\<lparr>fs_args := []\<rparr>)"
  by (subst Parse.simps) (simp add: parseOne_def)

text \<open>An argument that is not a flag.\<close>

definition positional :: "string \<Rightarrow> bool" where
  "positional s \<longleftrightarrow> length s < 2 \<or> s ! 0 \<noteq> CHR ''-''"

lemma Parse_positional: "positional w \<Longrightarrow> Parse (fs\<lparr>fs_args := w # rest\<rparr>) = Inr (fs\<lparr>fs_args := w # rest\<rparr>)"
  by (subst Parse.simps) (simp add: parseOne_def positional_def)

end
