(* ===== verification/Registration.thy ===== *)
theory Registration
  imports Session
begin

text \<open>
  Tool registration: \<^verbatim>\<open>ToolSpec\<close>, the annotations and \<^verbatim>\<open>New\<close> of \<^verbatim>\<open>internal/mcpserver/server.go\<close>, and
  the table and the \<^verbatim>\<open>register\<close> function of each \<^verbatim>\<open>tools_*.go\<close>. What the protocol library does with a
  registration is not modelled: \<open>mcp_Server\<close> is the implementation's name and version and the
  sequence of \<^verbatim>\<open>mcp.AddTool\<close> calls made on it. A handler is generic in its input type; here \<open>typed\<close>
  makes each one a partial function on \<open>tool_call\<close>, the sum of all input types, defined exactly on
  the inputs of its own type.

  The contract of a \<^verbatim>\<open>register\<close> function is the locale \<open>tool_group\<close>, with one interpretation each.
  \<open>server_is_dispatch\<close>: the 28 registrations together are the function \<open>dispatch\<close> that the theorems
  on sessions are about. \<open>annotations_honest\<close>: what a tool's annotations tell a client is true.
\<close>

subsection \<open>Tools, annotations and the server\<close>

record ToolSpec =
  ts_Name :: string
  ts_Description :: string
  ts_RequiresApproval :: bool
  ts_ReadOnly :: bool

record ToolAnnotations =
  ta_Title :: string
  ta_ReadOnlyHint :: bool
  ta_DestructiveHint :: "bool option"
  ta_OpenWorldHint :: "bool option"
  ta_IdempotentHint :: bool

record Tool =
  t_Name :: string
  t_Description :: string
  t_Annotations :: ToolAnnotations

type_synonym tool_handler = "tool_call \<Rightarrow> (world \<Rightarrow> world) option"

record mcp_Server =
  ms_Name :: string
  ms_Version :: string
  ms_tools :: "(Tool \<times> tool_handler) list"

record mcpserver_Server =
  sv_mcp :: mcp_Server
  sv_deps :: Deps

definition boolPtr :: "bool \<Rightarrow> bool option" where
  "boolPtr b = Some b"

definition readOnlyAnnotations :: "string \<Rightarrow> ToolAnnotations" where
  "readOnlyAnnotations title = \<lparr>ta_Title = title, ta_ReadOnlyHint = True, ta_DestructiveHint = boolPtr False,
     ta_OpenWorldHint = boolPtr False, ta_IdempotentHint = True\<rparr>"

definition writeAnnotations :: "string \<Rightarrow> ToolAnnotations" where
  "writeAnnotations title = \<lparr>ta_Title = title, ta_ReadOnlyHint = False, ta_DestructiveHint = boolPtr False,
     ta_OpenWorldHint = boolPtr False, ta_IdempotentHint = False\<rparr>"

definition typed :: "(tool_call \<Rightarrow> 'i option) \<Rightarrow> ('i \<Rightarrow> world \<Rightarrow> world \<times> 'o) \<Rightarrow> tool_handler" where
  "typed input h c = map_option (\<lambda>i w. fst (h i w)) (input c)"

definition add_tools :: "(Tool \<times> tool_handler) list \<Rightarrow> mcp_Server \<Rightarrow> mcp_Server" where
  "add_tools ts s = s\<lparr>ms_tools := ms_tools s @ ts\<rparr>"

subsection \<open>The tables\<close>

definition VisibilityTools :: "ToolSpec list" where
  "VisibilityTools =
    [\<lparr>ts_Name = ''velo_health_check'',
       ts_Description = ''Report connectivity and identity of the configured Velociraptor read API without touching any '' @
         ''client/endpoint state.'',
       ts_RequiresApproval = False, ts_ReadOnly = True\<rparr>,
     \<lparr>ts_Name = ''velo_search_clients'',
       ts_Description = ''Search for Velociraptor clients by hostname/IP/label substring. Never accepts raw VQL.'',
       ts_RequiresApproval = False, ts_ReadOnly = True\<rparr>,
     \<lparr>ts_Name = ''velo_get_client_info'',
       ts_Description = ''Return detail (hostname, OS, labels, last seen) for one already-identified client ID.'',
       ts_RequiresApproval = False, ts_ReadOnly = True\<rparr>,
     \<lparr>ts_Name = ''velo_list_artifact_names'',
       ts_Description = ''List artifact names visible to this tool; restricted to the configured allowlist unless '' @
         ''policy.allow_list_all_artifacts is set.'',
       ts_RequiresApproval = False, ts_ReadOnly = True\<rparr>,
     \<lparr>ts_Name = ''velo_get_artifact_details'',
       ts_Description = ''Return the parameter schema (not VQL body) for one artifact.'',
       ts_RequiresApproval = False, ts_ReadOnly = True\<rparr>]"

definition ProfileTools :: "ToolSpec list" where
  "ProfileTools =
    [\<lparr>ts_Name = ''velo_list_dfir_profiles'',
       ts_Description = ''List allowlisted DFIR profiles with their target OS and category.'',
       ts_RequiresApproval = False, ts_ReadOnly = True\<rparr>,
     \<lparr>ts_Name = ''velo_get_dfir_profile'',
       ts_Description = ''Return the full definition (artifact list) of one allowlisted DFIR profile.'',
       ts_RequiresApproval = False, ts_ReadOnly = True\<rparr>,
     \<lparr>ts_Name = ''velo_validate_dfir_profile'',
       ts_Description = ''Check a DFIR profile definition against the current artifact allowlist and schema rules without '' @
         ''collecting anything.'',
       ts_RequiresApproval = False, ts_ReadOnly = True\<rparr>]"

definition WorkflowTools :: "ToolSpec list" where
  "WorkflowTools =
    [\<lparr>ts_Name = ''velo_plan_dfir_triage'',
       ts_Description = ''Recommend read-only DFIR profile workflow steps for a case type and target OS without '' @
         ''collecting anything.'',
       ts_RequiresApproval = False, ts_ReadOnly = True\<rparr>,
     \<lparr>ts_Name = ''velo_compare_dfir_profiles'',
       ts_Description = ''Compare loaded DFIR profiles by metadata and artifact overlap without executing them.'',
       ts_RequiresApproval = False, ts_ReadOnly = True\<rparr>,
     \<lparr>ts_Name = ''velo_find_profiles_by_artifact'',
       ts_Description = ''Find loaded DFIR profiles that reference a given artifact name without querying endpoints.'',
       ts_RequiresApproval = False, ts_ReadOnly = True\<rparr>]"

definition CollectionTools :: "ToolSpec list" where
  "CollectionTools =
    [\<lparr>ts_Name = ''velo_collect_artifact_with_approval'',
       ts_Description = ''Collect one allowlisted artifact from one client. Requires case_id, reason, requester, and a '' @
         ''pre-approved approval_reference.'',
       ts_RequiresApproval = True, ts_ReadOnly = False\<rparr>,
     \<lparr>ts_Name = ''velo_collect_dfir_profile_with_approval'',
       ts_Description = ''Collect every artifact in one allowlisted DFIR profile from one client. Requires case_id, '' @
         ''reason, requester, and a pre-approved approval_reference.'',
       ts_RequiresApproval = True, ts_ReadOnly = False\<rparr>,
     \<lparr>ts_Name = ''velo_cancel_flow_with_approval'',
       ts_Description = ''Cancel a running flow on a client. Requires case_id, reason, requester, and a pre-approved '' @
         ''approval_reference.'',
       ts_RequiresApproval = True, ts_ReadOnly = False\<rparr>]"

definition FlowTools :: "ToolSpec list" where
  "FlowTools =
    [\<lparr>ts_Name = ''velo_list_flows'',
       ts_Description = ''List collection flows for a client. Read-only; validates client_id and applies max_rows plus '' @
         ''cursor pagination.'',
       ts_RequiresApproval = False, ts_ReadOnly = True\<rparr>,
     \<lparr>ts_Name = ''velo_get_flow_status'',
       ts_Description = ''Get the state of one flow (running/finished/error/cancelled). Read-only; validates client_id '' @
         ''and flow_id.'',
       ts_RequiresApproval = False, ts_ReadOnly = True\<rparr>,
     \<lparr>ts_Name = ''velo_get_flow_results'',
       ts_Description = ''Get result rows for one flow, bounded by max_rows/max_result_bytes; response states explicitly '' @
         ''if truncated.'',
       ts_RequiresApproval = False, ts_ReadOnly = True\<rparr>,
     \<lparr>ts_Name = ''velo_list_flow_uploads'',
       ts_Description = ''List uploaded files attached to a flow'' @ [CHR 0x27] @ ''s results, without content.'',
       ts_RequiresApproval = False, ts_ReadOnly = True\<rparr>,
     \<lparr>ts_Name = ''velo_get_flow_upload_metadata'',
       ts_Description = ''Get size/hash metadata for one flow upload, without content.'',
       ts_RequiresApproval = False, ts_ReadOnly = True\<rparr>,
     \<lparr>ts_Name = ''velo_download_flow_upload_with_approval'',
       ts_Description = ''Download bytes of one flow upload, bounded by max_upload_bytes, and save to a local '' @
         ''operator-configured directory. Requires case_id, reason, requester, and a pre-approved '' @
         ''approval_reference; treated as evidence disclosure, not a read.'',
       ts_RequiresApproval = True, ts_ReadOnly = False\<rparr>]"

definition HuntTools :: "ToolSpec list" where
  "HuntTools =
    [\<lparr>ts_Name = ''velo_preview_hunt_scope'',
       ts_Description = ''Resolve a proposed hunt scope (client IDs, label, or all) against the current client population '' @
         ''without starting anything.'',
       ts_RequiresApproval = False, ts_ReadOnly = True\<rparr>,
     \<lparr>ts_Name = ''velo_start_hunt_with_approval'',
       ts_Description = ''Start a hunt for one allowlisted artifact across a previewed, bounded scope. Requires approval.'',
       ts_RequiresApproval = True, ts_ReadOnly = False\<rparr>,
     \<lparr>ts_Name = ''velo_start_dfir_hunt_with_approval'',
       ts_Description = ''Start a hunt for every artifact in one allowlisted DFIR profile across a previewed, bounded '' @
         ''scope. Requires approval.'',
       ts_RequiresApproval = True, ts_ReadOnly = False\<rparr>,
     \<lparr>ts_Name = ''velo_list_hunts'',
       ts_Description = ''List hunts.'',
       ts_RequiresApproval = False, ts_ReadOnly = True\<rparr>,
     \<lparr>ts_Name = ''velo_get_hunt_status'',
       ts_Description = ''Get the state and client count of one hunt.'',
       ts_RequiresApproval = False, ts_ReadOnly = True\<rparr>,
     \<lparr>ts_Name = ''velo_get_hunt_results'',
       ts_Description = ''Get result rows for one hunt, bounded by max_rows/max_result_bytes.'',
       ts_RequiresApproval = False, ts_ReadOnly = True\<rparr>,
     \<lparr>ts_Name = ''velo_cancel_hunt_with_approval'',
       ts_Description = ''Stop a running hunt. Requires approval.'',
       ts_RequiresApproval = True, ts_ReadOnly = False\<rparr>]"

definition IOCTools :: "ToolSpec list" where
  "IOCTools =
    [\<lparr>ts_Name = ''velo_hunt_ioc_with_approval'',
       ts_Description = ''Hunt for a validated hash, IP, domain, process, or path indicator across a previewed, bounded '' @
         ''scope using a fixed IOC template. Requires approval.'',
       ts_RequiresApproval = True, ts_ReadOnly = False\<rparr>]"

subsection \<open>The registrations, in the order of the calls\<close>

definition registerVisibilityTools :: "env \<Rightarrow> Deps \<Rightarrow> mcp_Server \<Rightarrow> mcp_Server" where
  "registerVisibilityTools env deps s =
    (let title = if d_VelociraptorReadMode deps = VelociraptorModeReal then ''Velociraptor health check''
       else ''Velociraptor health check (mock)''
     in add_tools
    [(\<lparr>t_Name = ''velo_health_check'', t_Description = ts_Description (VisibilityTools ! 0),
         t_Annotations = readOnlyAnnotations title\<rparr>,
       typed (\<lambda>c. case c of Read CallHealthCheck \<Rightarrow> Some () | _ \<Rightarrow> None) (newHealthCheckHandler env deps)),
     (\<lparr>t_Name = ''velo_search_clients'', t_Description = ts_Description (VisibilityTools ! 1),
         t_Annotations = readOnlyAnnotations ''Search Velociraptor clients''\<rparr>,
       typed (\<lambda>c. case c of Read (CallSearchClients i) \<Rightarrow> Some i | _ \<Rightarrow> None) (newSearchClientsHandler env deps)),
     (\<lparr>t_Name = ''velo_get_client_info'', t_Description = ts_Description (VisibilityTools ! 2),
         t_Annotations = readOnlyAnnotations ''Get Velociraptor client info''\<rparr>,
       typed (\<lambda>c. case c of Read (CallGetClientInfo i) \<Rightarrow> Some i | _ \<Rightarrow> None) (newGetClientInfoHandler env deps)),
     (\<lparr>t_Name = ''velo_list_artifact_names'', t_Description = ts_Description (VisibilityTools ! 3),
         t_Annotations = readOnlyAnnotations ''List Velociraptor artifact names''\<rparr>,
       typed (\<lambda>c. case c of Read CallListArtifactNames \<Rightarrow> Some () | _ \<Rightarrow> None) (newListArtifactNamesHandler env deps)),
     (\<lparr>t_Name = ''velo_get_artifact_details'', t_Description = ts_Description (VisibilityTools ! 4),
         t_Annotations = readOnlyAnnotations ''Get Velociraptor artifact details''\<rparr>,
       typed (\<lambda>c. case c of Read (CallGetArtifactDetails i) \<Rightarrow> Some i | _ \<Rightarrow> None) (newGetArtifactDetailsHandler env deps))] s)"

definition registerProfileTools :: "env \<Rightarrow> Deps \<Rightarrow> mcp_Server \<Rightarrow> mcp_Server" where
  "registerProfileTools env deps s =
    add_tools
    [(\<lparr>t_Name = ''velo_list_dfir_profiles'', t_Description = ts_Description (ProfileTools ! 0),
         t_Annotations = readOnlyAnnotations ''List DFIR profiles''\<rparr>,
       typed (\<lambda>c. case c of Read CallListDFIRProfiles \<Rightarrow> Some () | _ \<Rightarrow> None) (newListDFIRProfilesHandler env deps)),
     (\<lparr>t_Name = ''velo_get_dfir_profile'', t_Description = ts_Description (ProfileTools ! 1),
         t_Annotations = readOnlyAnnotations ''Get DFIR profile''\<rparr>,
       typed (\<lambda>c. case c of Read (CallGetDFIRProfile i) \<Rightarrow> Some i | _ \<Rightarrow> None) (newGetDFIRProfileHandler env deps)),
     (\<lparr>t_Name = ''velo_validate_dfir_profile'', t_Description = ts_Description (ProfileTools ! 2),
         t_Annotations = readOnlyAnnotations ''Validate DFIR profile''\<rparr>,
       typed (\<lambda>c. case c of Read (CallValidateDFIRProfile i) \<Rightarrow> Some i | _ \<Rightarrow> None) (newValidateDFIRProfileHandler env deps))] s"

definition registerWorkflowTools :: "env \<Rightarrow> Deps \<Rightarrow> mcp_Server \<Rightarrow> mcp_Server" where
  "registerWorkflowTools env deps s =
    add_tools
    [(\<lparr>t_Name = ''velo_plan_dfir_triage'', t_Description = ts_Description (WorkflowTools ! 0),
         t_Annotations = readOnlyAnnotations ''Plan DFIR triage workflow''\<rparr>,
       typed (\<lambda>c. case c of Read (CallPlanDFIRTriage i) \<Rightarrow> Some i | _ \<Rightarrow> None) (newPlanDFIRTriageHandler env deps)),
     (\<lparr>t_Name = ''velo_compare_dfir_profiles'', t_Description = ts_Description (WorkflowTools ! 1),
         t_Annotations = readOnlyAnnotations ''Compare DFIR profiles''\<rparr>,
       typed (\<lambda>c. case c of Read (CallCompareDFIRProfiles i) \<Rightarrow> Some i | _ \<Rightarrow> None) (newCompareDFIRProfilesHandler env deps)),
     (\<lparr>t_Name = ''velo_find_profiles_by_artifact'', t_Description = ts_Description (WorkflowTools ! 2),
         t_Annotations = readOnlyAnnotations ''Find DFIR profiles by artifact''\<rparr>,
       typed (\<lambda>c. case c of Read (CallFindProfilesByArtifact i) \<Rightarrow> Some i | _ \<Rightarrow> None) (newFindProfilesByArtifactHandler env deps))] s"

definition registerCollectionTools :: "env \<Rightarrow> Deps \<Rightarrow> mcp_Server \<Rightarrow> mcp_Server" where
  "registerCollectionTools env deps s =
    add_tools
    [(\<lparr>t_Name = ''velo_collect_artifact_with_approval'', t_Description = ts_Description (CollectionTools ! 0),
         t_Annotations = writeAnnotations ''Collect Velociraptor artifact (approval-gated)''\<rparr>,
       typed (\<lambda>c. case c of Gated (CallCollectArtifact i) \<Rightarrow> Some i | _ \<Rightarrow> None) (newCollectArtifactHandler env deps)),
     (\<lparr>t_Name = ''velo_collect_dfir_profile_with_approval'', t_Description = ts_Description (CollectionTools ! 1),
         t_Annotations = writeAnnotations ''Collect DFIR profile (approval-gated)''\<rparr>,
       typed (\<lambda>c. case c of Gated (CallCollectDFIRProfile i) \<Rightarrow> Some i | _ \<Rightarrow> None) (newCollectDFIRProfileHandler env deps)),
     (\<lparr>t_Name = ''velo_cancel_flow_with_approval'', t_Description = ts_Description (CollectionTools ! 2),
         t_Annotations = writeAnnotations ''Cancel Velociraptor flow (approval-gated)''\<rparr>,
       typed (\<lambda>c. case c of Gated (CallCancelFlow i) \<Rightarrow> Some i | _ \<Rightarrow> None) (newCancelFlowHandler env deps))] s"

definition registerFlowTools :: "env \<Rightarrow> Deps \<Rightarrow> mcp_Server \<Rightarrow> mcp_Server" where
  "registerFlowTools env deps s =
    add_tools
    [(\<lparr>t_Name = ''velo_list_flows'', t_Description = ts_Description (FlowTools ! 0),
         t_Annotations = readOnlyAnnotations ''List Velociraptor flows''\<rparr>,
       typed (\<lambda>c. case c of Read (CallListFlows i) \<Rightarrow> Some i | _ \<Rightarrow> None) (newListFlowsHandler env deps)),
     (\<lparr>t_Name = ''velo_get_flow_status'', t_Description = ts_Description (FlowTools ! 1),
         t_Annotations = readOnlyAnnotations ''Get Velociraptor flow status''\<rparr>,
       typed (\<lambda>c. case c of Read (CallGetFlowStatus i) \<Rightarrow> Some i | _ \<Rightarrow> None) (newGetFlowStatusHandler env deps)),
     (\<lparr>t_Name = ''velo_get_flow_results'', t_Description = ts_Description (FlowTools ! 2),
         t_Annotations = readOnlyAnnotations ''Get Velociraptor flow results''\<rparr>,
       typed (\<lambda>c. case c of Read (CallGetFlowResults i) \<Rightarrow> Some i | _ \<Rightarrow> None) (newGetFlowResultsHandler env deps)),
     (\<lparr>t_Name = ''velo_list_flow_uploads'', t_Description = ts_Description (FlowTools ! 3),
         t_Annotations = readOnlyAnnotations ''List Velociraptor flow uploads''\<rparr>,
       typed (\<lambda>c. case c of Read (CallListFlowUploads i) \<Rightarrow> Some i | _ \<Rightarrow> None) (newListFlowUploadsHandler env deps)),
     (\<lparr>t_Name = ''velo_get_flow_upload_metadata'', t_Description = ts_Description (FlowTools ! 4),
         t_Annotations = readOnlyAnnotations ''Get Velociraptor flow upload metadata''\<rparr>,
       typed (\<lambda>c. case c of Read (CallGetFlowUploadMetadata i) \<Rightarrow> Some i | _ \<Rightarrow> None) (newGetFlowUploadMetadataHandler env deps)),
     (\<lparr>t_Name = ''velo_download_flow_upload_with_approval'', t_Description = ts_Description (FlowTools ! 5),
         t_Annotations = writeAnnotations ''Download Velociraptor flow upload (approval-gated)''\<rparr>,
       typed (\<lambda>c. case c of Gated (CallDownloadFlowUpload i) \<Rightarrow> Some i | _ \<Rightarrow> None) (newDownloadFlowUploadHandler env deps))] s"

definition registerHuntTools :: "env \<Rightarrow> Deps \<Rightarrow> mcp_Server \<Rightarrow> mcp_Server" where
  "registerHuntTools env deps s =
    add_tools
    [(\<lparr>t_Name = ''velo_preview_hunt_scope'', t_Description = ts_Description (HuntTools ! 0),
         t_Annotations = readOnlyAnnotations ''Preview hunt scope''\<rparr>,
       typed (\<lambda>c. case c of Read (CallPreviewHuntScope i) \<Rightarrow> Some i | _ \<Rightarrow> None) (newPreviewHuntScopeHandler env deps)),
     (\<lparr>t_Name = ''velo_start_hunt_with_approval'', t_Description = ts_Description (HuntTools ! 1),
         t_Annotations = writeAnnotations ''Start hunt (approval-gated)''\<rparr>,
       typed (\<lambda>c. case c of Gated (CallStartHunt i) \<Rightarrow> Some i | _ \<Rightarrow> None) (newStartHuntHandler env deps)),
     (\<lparr>t_Name = ''velo_start_dfir_hunt_with_approval'', t_Description = ts_Description (HuntTools ! 2),
         t_Annotations = writeAnnotations ''Start DFIR profile hunt (approval-gated)''\<rparr>,
       typed (\<lambda>c. case c of Gated (CallStartDFIRHunt i) \<Rightarrow> Some i | _ \<Rightarrow> None) (newStartDFIRHuntHandler env deps)),
     (\<lparr>t_Name = ''velo_list_hunts'', t_Description = ts_Description (HuntTools ! 3),
         t_Annotations = readOnlyAnnotations ''List hunts''\<rparr>,
       typed (\<lambda>c. case c of Read (CallListHunts i) \<Rightarrow> Some i | _ \<Rightarrow> None) (newListHuntsHandler env deps)),
     (\<lparr>t_Name = ''velo_get_hunt_status'', t_Description = ts_Description (HuntTools ! 4),
         t_Annotations = readOnlyAnnotations ''Get hunt status''\<rparr>,
       typed (\<lambda>c. case c of Read (CallGetHuntStatus i) \<Rightarrow> Some i | _ \<Rightarrow> None) (newGetHuntStatusHandler env deps)),
     (\<lparr>t_Name = ''velo_get_hunt_results'', t_Description = ts_Description (HuntTools ! 5),
         t_Annotations = readOnlyAnnotations ''Get hunt results''\<rparr>,
       typed (\<lambda>c. case c of Read (CallGetHuntResults i) \<Rightarrow> Some i | _ \<Rightarrow> None) (newGetHuntResultsHandler env deps)),
     (\<lparr>t_Name = ''velo_cancel_hunt_with_approval'', t_Description = ts_Description (HuntTools ! 6),
         t_Annotations = writeAnnotations ''Cancel hunt (approval-gated)''\<rparr>,
       typed (\<lambda>c. case c of Gated (CallCancelHunt i) \<Rightarrow> Some i | _ \<Rightarrow> None) (newCancelHuntHandler env deps))] s"

definition registerIOCTools :: "env \<Rightarrow> Deps \<Rightarrow> mcp_Server \<Rightarrow> mcp_Server" where
  "registerIOCTools env deps s =
    add_tools
    [(\<lparr>t_Name = ''velo_hunt_ioc_with_approval'', t_Description = ts_Description (IOCTools ! 0),
         t_Annotations = writeAnnotations ''Hunt IOC (approval-gated)''\<rparr>,
       typed (\<lambda>c. case c of Gated (CallHuntIOC i) \<Rightarrow> Some i | _ \<Rightarrow> None) (newHuntIOCHandler env deps))] s"

definition New :: "env \<Rightarrow> string \<Rightarrow> string \<Rightarrow> Deps \<Rightarrow> mcpserver_Server" where
  "New env name version deps =
     (let s = \<lparr>ms_Name = name, ms_Version = version, ms_tools = []\<rparr>;
          s = registerVisibilityTools env deps s;
          s = registerProfileTools env deps s;
          s = registerWorkflowTools env deps s;
          s = registerCollectionTools env deps s;
          s = registerFlowTools env deps s;
          s = registerHuntTools env deps s;
          s = registerIOCTools env deps s
      in \<lparr>sv_mcp = s, sv_deps = deps\<rparr>)"

definition Server_Run :: "(mcp_Server \<Rightarrow> gerror option) \<Rightarrow> mcpserver_Server \<Rightarrow> gerror option" where
  "Server_Run serve s = map_option (\<lambda>err. Errorf [Lit ''mcpserver: run: '', Wrap err]) (serve (sv_mcp s))"

subsection \<open>What a registration promises\<close>

text \<open>The tool a call is meant for, and the handler registered under a name.\<close>

fun read_tool_name :: "read_tool_call \<Rightarrow> string" where
  "read_tool_name CallHealthCheck = ''velo_health_check''"
| "read_tool_name (CallSearchClients i) = ''velo_search_clients''"
| "read_tool_name (CallGetClientInfo i) = ''velo_get_client_info''"
| "read_tool_name CallListArtifactNames = ''velo_list_artifact_names''"
| "read_tool_name (CallGetArtifactDetails i) = ''velo_get_artifact_details''"
| "read_tool_name CallListDFIRProfiles = ''velo_list_dfir_profiles''"
| "read_tool_name (CallGetDFIRProfile i) = ''velo_get_dfir_profile''"
| "read_tool_name (CallValidateDFIRProfile i) = ''velo_validate_dfir_profile''"
| "read_tool_name (CallPlanDFIRTriage i) = ''velo_plan_dfir_triage''"
| "read_tool_name (CallCompareDFIRProfiles i) = ''velo_compare_dfir_profiles''"
| "read_tool_name (CallFindProfilesByArtifact i) = ''velo_find_profiles_by_artifact''"
| "read_tool_name (CallListFlows i) = ''velo_list_flows''"
| "read_tool_name (CallGetFlowStatus i) = ''velo_get_flow_status''"
| "read_tool_name (CallGetFlowResults i) = ''velo_get_flow_results''"
| "read_tool_name (CallListFlowUploads i) = ''velo_list_flow_uploads''"
| "read_tool_name (CallGetFlowUploadMetadata i) = ''velo_get_flow_upload_metadata''"
| "read_tool_name (CallPreviewHuntScope i) = ''velo_preview_hunt_scope''"
| "read_tool_name (CallListHunts i) = ''velo_list_hunts''"
| "read_tool_name (CallGetHuntStatus i) = ''velo_get_hunt_status''"
| "read_tool_name (CallGetHuntResults i) = ''velo_get_hunt_results''"

fun gated_tool_name :: "gated_call \<Rightarrow> string" where
  "gated_tool_name (CallCollectArtifact i) = ''velo_collect_artifact_with_approval''"
| "gated_tool_name (CallCollectDFIRProfile i) = ''velo_collect_dfir_profile_with_approval''"
| "gated_tool_name (CallCancelFlow i) = ''velo_cancel_flow_with_approval''"
| "gated_tool_name (CallDownloadFlowUpload i) = ''velo_download_flow_upload_with_approval''"
| "gated_tool_name (CallStartHunt i) = ''velo_start_hunt_with_approval''"
| "gated_tool_name (CallStartDFIRHunt i) = ''velo_start_dfir_hunt_with_approval''"
| "gated_tool_name (CallCancelHunt i) = ''velo_cancel_hunt_with_approval''"
| "gated_tool_name (CallHuntIOC i) = ''velo_hunt_ioc_with_approval''"

fun tool_name :: "tool_call \<Rightarrow> string" where
  "tool_name (Read c) = read_tool_name c"
| "tool_name (Gated c) = gated_tool_name c"

definition handler_named :: "mcp_Server \<Rightarrow> string \<Rightarrow> tool_handler option" where
  "handler_named s = map_of (map (\<lambda>(t, h). (t_Name t, h)) (ms_tools s))"

fun is_read :: "tool_call \<Rightarrow> bool" where
  "is_read (Read c) = True"
| "is_read (Gated c) = False"

text \<open>\<open>serves\<close>: a registered handler takes exactly the calls meant for its tool and does what \<open>dispatch\<close>
  does; the tool is annotated read-only when those calls are reads. \<open>documents\<close>: the table entry
  and the registered tool say the same.\<close>

definition serves :: "env \<Rightarrow> Deps \<Rightarrow> Tool \<times> tool_handler \<Rightarrow> bool" where
  "serves env deps r \<longleftrightarrow>
     (\<forall>c. snd r c = (if t_Name (fst r) = tool_name c then Some (dispatch env deps c) else None)
        \<and> (t_Name (fst r) = tool_name c \<longrightarrow> ta_ReadOnlyHint (t_Annotations (fst r)) = is_read c))"

definition documents :: "ToolSpec \<Rightarrow> Tool \<times> tool_handler \<Rightarrow> bool" where
  "documents sp r \<longleftrightarrow>
     (let t = fst r; a = t_Annotations t
      in ts_Name sp = t_Name t \<and> ts_Description sp = t_Description t \<and> ts_ReadOnly sp = ta_ReadOnlyHint a
         \<and> ts_RequiresApproval sp = (\<not> ta_ReadOnlyHint a) \<and> ta_IdempotentHint a = ta_ReadOnlyHint a
         \<and> ta_DestructiveHint a = Some False \<and> ta_OpenWorldHint a = Some False)"

definition no_tools :: mcp_Server where
  "no_tools = \<lparr>ms_Name = [], ms_Version = [], ms_tools = []\<rparr>"

lemma add_tools_sel [simp]:
  "ms_tools (add_tools ts s) = ms_tools s @ ts" "ms_Name (add_tools ts s) = ms_Name s" "ms_Version (add_tools ts s) = ms_Version s"
  by (simp_all add: add_tools_def)

lemma no_tools_sel [simp]: "ms_tools no_tools = []"
  by (simp add: no_tools_def)

locale tool_group =
  fixes register :: "env \<Rightarrow> Deps \<Rightarrow> mcp_Server \<Rightarrow> mcp_Server" and specs :: "ToolSpec list"
  assumes appends: "ms_tools (register env deps s) = ms_tools s @ ms_tools (register env deps no_tools)"
    and documented: "list_all2 documents specs (ms_tools (register env deps no_tools))"
    and served: "list_all (serves env deps) (ms_tools (register env deps no_tools))"
begin

lemma keeps_served: "list_all (serves env deps) (ms_tools s) \<Longrightarrow> list_all (serves env deps) (ms_tools (register env deps s))"
  using served by (subst appends) simp

lemma keeps_documented:
  "list_all2 documents sps (ms_tools s) \<Longrightarrow> list_all2 documents (sps @ specs) (ms_tools (register env deps s))"
  by (subst appends) (rule list_all2_appendI [OF _ documented])

end

lemma all_read_calls:
  "(\<forall>c. P c) \<longleftrightarrow> P CallHealthCheck \<and> (\<forall>i. P (CallSearchClients i)) \<and> (\<forall>i. P (CallGetClientInfo i))
     \<and> P CallListArtifactNames \<and> (\<forall>i. P (CallGetArtifactDetails i)) \<and> P CallListDFIRProfiles
     \<and> (\<forall>i. P (CallGetDFIRProfile i)) \<and> (\<forall>i. P (CallValidateDFIRProfile i)) \<and> (\<forall>i. P (CallPlanDFIRTriage i))
     \<and> (\<forall>i. P (CallCompareDFIRProfiles i)) \<and> (\<forall>i. P (CallFindProfilesByArtifact i)) \<and> (\<forall>i. P (CallListFlows i))
     \<and> (\<forall>i. P (CallGetFlowStatus i)) \<and> (\<forall>i. P (CallGetFlowResults i)) \<and> (\<forall>i. P (CallListFlowUploads i))
     \<and> (\<forall>i. P (CallGetFlowUploadMetadata i)) \<and> (\<forall>i. P (CallPreviewHuntScope i)) \<and> (\<forall>i. P (CallListHunts i))
     \<and> (\<forall>i. P (CallGetHuntStatus i)) \<and> (\<forall>i. P (CallGetHuntResults i))"
  by (rule iffI, simp, rule allI, case_tac c) simp_all

lemma all_gated_calls:
  "(\<forall>c. P c) \<longleftrightarrow> (\<forall>i. P (CallCollectArtifact i)) \<and> (\<forall>i. P (CallCollectDFIRProfile i)) \<and> (\<forall>i. P (CallCancelFlow i))
     \<and> (\<forall>i. P (CallDownloadFlowUpload i)) \<and> (\<forall>i. P (CallStartHunt i)) \<and> (\<forall>i. P (CallStartDFIRHunt i))
     \<and> (\<forall>i. P (CallCancelHunt i)) \<and> (\<forall>i. P (CallHuntIOC i))"
  by (rule iffI, simp, rule allI, case_tac c) simp_all

lemma all_tool_calls: "(\<forall>c. P c) \<longleftrightarrow> (\<forall>c. P (Read c)) \<and> (\<forall>c. P (Gated c))"
  by (rule iffI, simp, rule allI, case_tac c) simp_all

lemma readOnlyAnnotations_sel [simp]:
  "ta_ReadOnlyHint (readOnlyAnnotations title)" "ta_IdempotentHint (readOnlyAnnotations title)"
  "ta_DestructiveHint (readOnlyAnnotations title) = Some False" "ta_OpenWorldHint (readOnlyAnnotations title) = Some False"
  by (simp_all add: readOnlyAnnotations_def boolPtr_def)

lemma writeAnnotations_sel [simp]:
  "\<not> ta_ReadOnlyHint (writeAnnotations title)" "\<not> ta_IdempotentHint (writeAnnotations title)"
  "ta_DestructiveHint (writeAnnotations title) = Some False" "ta_OpenWorldHint (writeAnnotations title) = Some False"
  by (simp_all add: writeAnnotations_def boolPtr_def)

lemmas serves_simps = serves_def typed_def all_tool_calls all_read_calls all_gated_calls fun_eq_iff

subsection \<open>The seven groups\<close>

interpretation visibility_tools: tool_group registerVisibilityTools VisibilityTools
  by unfold_locales (simp_all add: registerVisibilityTools_def VisibilityTools_def documents_def Let_def serves_simps)

interpretation profile_tools: tool_group registerProfileTools ProfileTools
  by unfold_locales (simp_all add: registerProfileTools_def ProfileTools_def documents_def Let_def serves_simps)

interpretation workflow_tools: tool_group registerWorkflowTools WorkflowTools
  by unfold_locales (simp_all add: registerWorkflowTools_def WorkflowTools_def documents_def Let_def serves_simps)

interpretation collection_tools: tool_group registerCollectionTools CollectionTools
  by unfold_locales (simp_all add: registerCollectionTools_def CollectionTools_def documents_def Let_def serves_simps)

interpretation flow_tools: tool_group registerFlowTools FlowTools
  by unfold_locales (simp_all add: registerFlowTools_def FlowTools_def documents_def Let_def serves_simps)

interpretation hunt_tools: tool_group registerHuntTools HuntTools
  by unfold_locales (simp_all add: registerHuntTools_def HuntTools_def documents_def Let_def serves_simps)

interpretation ioc_tools: tool_group registerIOCTools IOCTools
  by unfold_locales (simp_all add: registerIOCTools_def IOCTools_def documents_def Let_def serves_simps)

subsection \<open>The whole server\<close>

definition AllTools :: "ToolSpec list" where
  "AllTools = VisibilityTools @ ProfileTools @ WorkflowTools @ CollectionTools @ FlowTools @ HuntTools @ IOCTools"

lemma New_served: "list_all (serves env deps) (ms_tools (sv_mcp (New env name version deps)))"
  by (simp add: New_def Let_def ioc_tools.keeps_served hunt_tools.keeps_served flow_tools.keeps_served
    collection_tools.keeps_served workflow_tools.keeps_served profile_tools.keeps_served visibility_tools.keeps_served)

lemma New_documented: "list_all2 documents AllTools (ms_tools (sv_mcp (New env name version deps)))"
proof -
  have "list_all2 documents ((((((([] @ VisibilityTools) @ ProfileTools) @ WorkflowTools) @ CollectionTools) @ FlowTools) @ HuntTools) @ IOCTools)
    (ms_tools (sv_mcp (New env name version deps)))"
    unfolding New_def Let_def
    by (simp only: mcpserver_Server.select_convs)
      (intro ioc_tools.keeps_documented hunt_tools.keeps_documented flow_tools.keeps_documented
        collection_tools.keeps_documented workflow_tools.keeps_documented profile_tools.keeps_documented
        visibility_tools.keeps_documented, simp)
  then show ?thesis by (simp add: AllTools_def)
qed

lemma documents_names: "list_all2 documents sps ts \<Longrightarrow> map (\<lambda>(t, h). t_Name t) ts = map ts_Name sps"
  by (induction rule: list_all2_induct) (auto simp: documents_def Let_def)

lemma New_names: "map (\<lambda>(t, h). t_Name t) (ms_tools (sv_mcp (New env name version deps))) = map ts_Name AllTools"
  by (rule documents_names [OF New_documented])

lemmas tool_tables = AllTools_def VisibilityTools_def ProfileTools_def WorkflowTools_def CollectionTools_def FlowTools_def
  HuntTools_def IOCTools_def

lemma names_distinct: "distinct (map ts_Name AllTools)"
  by (simp add: tool_tables)

lemma name_listed: "tool_name c \<in> ts_Name ` set AllTools"
proof -
  have "\<forall>c. tool_name c \<in> set (map ts_Name AllTools)"
    by (simp add: tool_tables all_tool_calls all_read_calls all_gated_calls)
  then show ?thesis by simp
qed

lemma tool_counts: "length (filter ts_ReadOnly AllTools) = 20 \<and> length (filter ts_RequiresApproval AllTools) = 8"
  by (simp add: tool_tables)

text \<open>
  Property C7 (equivalence). The server that New builds is the dispatch function of the session theorems: under every
  name there is at most one registration, a call reaches exactly one handler, the one registered under the name of the
  call's tool, and that handler does what dispatch does on the dependencies the server was given. The 28
  names are those of the seven tables.
\<close>

theorem server_is_dispatch:
  "Option.bind (handler_named (sv_mcp (New env name version deps)) nm) (\<lambda>h. h c)
     = (if nm = tool_name c then Some (dispatch env deps c) else None)
   \<and> length (ms_tools (sv_mcp (New env name version deps))) = 28
   \<and> distinct (map (\<lambda>(t, h). t_Name t) (ms_tools (sv_mcp (New env name version deps))))
   \<and> sv_deps (New env name version deps) = deps"
proof -
  let ?s = "sv_mcp (New env name version deps)"
  let ?ns = "map (\<lambda>(t, h). (t_Name t, h)) (ms_tools ?s)"
  have names: "map fst ?ns = map ts_Name AllTools" using New_names by (simp add: case_prod_unfold comp_def)
  have served: "h c = (if n = tool_name c then Some (dispatch env deps c) else None)" if "(n, h) \<in> set ?ns" for n h
    using that New_served [of env deps name version] by (auto simp: list_all_iff serves_def)
  have "Option.bind (map_of ?ns nm) (\<lambda>h. h c) = (if nm = tool_name c then Some (dispatch env deps c) else None)"
  proof (cases "map_of ?ns nm")
    case None
    then have "nm \<noteq> tool_name c" using name_listed [of c] names by (auto simp: map_of_eq_None_iff simp flip: set_map)
    with None show ?thesis by simp
  next
    case (Some h)
    with served [OF map_of_SomeD] show ?thesis by simp
  qed
  moreover have "length (ms_tools ?s) = 28"
    using list_all2_lengthD [OF New_documented [of env name version deps]] by (simp add: tool_tables)
  moreover have "distinct (map (\<lambda>(t, h). t_Name t) (ms_tools ?s))" unfolding New_names by (rule names_distinct)
  ultimately show ?thesis by (simp add: handler_named_def New_def Let_def)
qed

text \<open>
  Property C8 (safety). The annotations a client is shown are true. A tool registered with the read-only hint
  makes no write call, consumes no approval and writes no file on any input it takes, leaves the approval store
  alone, makes at most one call on the read client and records exactly one audit event when there is a sink; any other tool's table entry says that it requires approval, and whatever it does it has paid for by consuming the
  approval its input names. No tool is documented differently from how it is registered.
\<close>

theorem annotations_honest:
  assumes "(t, h) \<in> set (ms_tools (sv_mcp (New env name version deps)))" and "h c = Some run"
  shows "\<exists>sp \<in> set AllTools. documents sp (t, h) \<and> run = dispatch env deps c
    \<and> (if ta_ReadOnlyHint (t_Annotations t)
       then harmless (call_effects env deps c w) \<and> w_store (run w) = w_store w
         \<and> length (reads (call_effects env deps c w)) \<le> 1
         \<and> length (audits (call_effects env deps c w)) = (if w_audit w \<noteq> None then 1 else 0)
       else ts_RequiresApproval sp \<and> (\<exists>g. c = Gated g \<and> (harmless (call_effects env deps c w)
          \<or> StoreConsume (gated_reference g) (Inr ()) \<in> set (call_effects env deps c w))))"
proof -
  have "serves env deps (t, h)" using New_served assms(1) by (fastforce simp: list_all_iff)
  then have c: "run = dispatch env deps c" "ta_ReadOnlyHint (t_Annotations t) = is_read c"
    using assms(2) by (auto simp: serves_def split: if_splits)
  obtain sp where sp: "sp \<in> set AllTools" "documents sp (t, h)"
    using New_documented [of env name version deps] assms(1)
    by (metis in_set_conv_nth list_all2_conv_all_nth nth_mem)
  then have "ts_RequiresApproval sp = (\<not> is_read c)" using c(2) by (simp add: documents_def Let_def)
  with sp c show ?thesis
    using read_call_harmless read_call_store read_call_reads read_call_audited gated_call_pays by (cases c) fastforce+
qed

lemma some_handler: "\<exists>t h. (t, h) \<in> set (ms_tools (sv_mcp (New env name version deps))) \<and> h c = Some (dispatch env deps c)"
proof -
  have "tool_name c \<in> set (map (\<lambda>(t, h). t_Name t) (ms_tools (sv_mcp (New env name version deps))))"
    unfolding New_names using name_listed by simp
  then obtain t h where t: "(t, h) \<in> set (ms_tools (sv_mcp (New env name version deps)))" "t_Name t = tool_name c" by auto
  then have "serves env deps (t, h)" using New_served by (fastforce simp: list_all_iff)
  then have "h c = Some (dispatch env deps c)" using t(2) by (simp add: serves_def)
  with t(1) show ?thesis by blast
qed

theorem annotations_honest_witness:
  "\<exists>t h sp. (t, h) \<in> set (ms_tools (sv_mcp (New sample_env ''velociraptor'' ''1.0.0'' sample_deps))) \<and> documents sp (t, h)
    \<and> (if ta_ReadOnlyHint (t_Annotations t)
       then harmless (call_effects sample_env sample_deps (Gated (CallCollectArtifact sample_input)) sample_world)
       else ts_RequiresApproval sp)"
proof -
  obtain t h where t: "(t, h) \<in> set (ms_tools (sv_mcp (New sample_env ''velociraptor'' ''1.0.0'' sample_deps)))"
    and h: "h (Gated (CallCollectArtifact sample_input)) = Some (dispatch sample_env sample_deps (Gated (CallCollectArtifact sample_input)))"
    using some_handler by blast
  from annotations_honest [OF t h, of sample_world] t show ?thesis by (auto split: if_splits)
qed

end
