(* ===== verification/Command_Line.thy ===== *)
theory Command_Line
  imports Flag_Parse Registration Startup
begin

text \<open>
  The command line of \<^verbatim>\<open>cmd/agentic-velociraptor-mcp/main.go\<close>: \<^verbatim>\<open>run\<close> chooses between the server and the
  \<^verbatim>\<open>approve\<close> subcommand, each of which declares its flags, parses its arguments and goes on
  with \<open>runServer\<close> or \<open>runApprove\<close>. Texts printed for the user are not modelled; exit codes are.

  \<open>approve_line_roundtrip\<close>: every setting of the approve flags can be written on a command line and
  is read back. \<open>stray_word_hides_flags\<close>: what follows the first argument that is not a flag is
  ignored without an error. \<open>command_line_outcomes\<close>: what any command line can do to the approval store.
\<close>

subsection \<open>Reading a parsed flag set\<close>

definition flag_string :: "FlagSet \<Rightarrow> string \<Rightarrow> string" where
  "flag_string fs name = (case map_of (fs_formal fs) name of Some (StringValue s) \<Rightarrow> s | _ \<Rightarrow> [])"

definition flag_bool :: "FlagSet \<Rightarrow> string \<Rightarrow> bool" where
  "flag_bool fs name = (case map_of (fs_formal fs) name of Some (BoolValue b) \<Rightarrow> b | _ \<Rightarrow> False)"

definition flag_int :: "FlagSet \<Rightarrow> string \<Rightarrow> int" where
  "flag_int fs name = (case map_of (fs_formal fs) name of Some (IntValue i) \<Rightarrow> i | _ \<Rightarrow> 0)"

definition flag_params :: "FlagSet \<Rightarrow> string \<Rightarrow> string gomap" where
  "flag_params fs name = (case map_of (fs_formal fs) name of Some (ParamMap m) \<Rightarrow> m | _ \<Rightarrow> [])"

definition flag_slice :: "FlagSet \<Rightarrow> string \<Rightarrow> string list" where
  "flag_slice fs name = (case map_of (fs_formal fs) name of Some (StringSlice vs) \<Rightarrow> vs | _ \<Rightarrow> [])"

subsection \<open>The two flag sets\<close>

definition version :: string where
  "version = ''1.0.0''"

definition defaultProfilesDir :: string where
  "defaultProfilesDir = ''profiles''"

definition defaultApprovalTTLSeconds :: int where
  "defaultApprovalTTLSeconds = 900"

definition server_FlagSet :: "string list \<Rightarrow> FlagSet" where
  "server_FlagSet args = \<lparr>fs_formal =
     [(''version'', BoolValue False), (''config'', StringValue []), (''profiles-dir'', StringValue defaultProfilesDir)],
     fs_actual = [], fs_args = args\<rparr>"

definition server_flags_of :: "FlagSet \<Rightarrow> server_flags" where
  "server_flags_of fs = \<lparr>fl_version = flag_bool fs ''version'', fl_config = flag_string fs ''config'',
     fl_profilesDir = flag_string fs ''profiles-dir'', fl_profilesDirSet = (''profiles-dir'' \<in> set (fs_actual fs))\<rparr>"

definition approve_FlagSet :: "string list \<Rightarrow> FlagSet" where
  "approve_FlagSet args = \<lparr>fs_formal =
     [(''store'', StringValue []), (''reference'', StringValue []), (''operation'', StringValue []), (''case-id'', StringValue []),
      (''reason'', StringValue []), (''requester'', StringValue []), (''approved-by'', StringValue []), (''note'', StringValue []),
      (''deny'', BoolValue False), (''ttl-seconds'', IntValue defaultApprovalTTLSeconds),
      (''client-id'', StringValue []), (''artifact'', StringValue []), (''profile'', StringValue []), (''flow-id'', StringValue []),
      (''upload-name'', StringValue []), (''hunt-id'', StringValue []), (''label'', StringValue []), (''all'', BoolValue False),
      (''ioc-kind'', StringValue []), (''ioc-value'', StringValue []), (''param'', ParamMap []), (''hunt-client-id'', StringSlice [])],
     fs_actual = [], fs_args = args\<rparr>"

definition approve_flags_of :: "FlagSet \<Rightarrow> approve_flags" where
  "approve_flags_of fs = \<lparr>af_store = flag_string fs ''store'', af_reference = flag_string fs ''reference'',
     af_operation = flag_string fs ''operation'', af_caseID = flag_string fs ''case-id'', af_reason = flag_string fs ''reason'',
     af_requester = flag_string fs ''requester'', af_approvedBy = flag_string fs ''approved-by'', af_note = flag_string fs ''note'',
     af_deny = flag_bool fs ''deny'', af_ttlSeconds = flag_int fs ''ttl-seconds'', af_clientID = flag_string fs ''client-id'',
     af_artifact = flag_string fs ''artifact'', af_profile = flag_string fs ''profile'', af_flowID = flag_string fs ''flow-id'',
     af_uploadName = flag_string fs ''upload-name'', af_huntID = flag_string fs ''hunt-id'', af_label = flag_string fs ''label'',
     af_targetAll = flag_bool fs ''all'', af_iocKind = flag_string fs ''ioc-kind'', af_iocValue = flag_string fs ''ioc-value'',
     af_param = flag_params fs ''param'', af_huntClientID = flag_slice fs ''hunt-client-id''\<rparr>"

subsection \<open>The commands\<close>

definition exit_code :: "parse_error \<Rightarrow> int" where
  "exit_code err = (case err of ErrHelp \<Rightarrow> 0 | Failf _ \<Rightarrow> 2)"

definition server_command :: "startup_env \<Rightarrow> string list \<Rightarrow> store_state \<Rightarrow> store_state \<times> run_outcome" where
  "server_command su args s =
     (case Parse (server_FlagSet args) of
        Inl err \<Rightarrow> (s, Exit (exit_code err))
      | Inr fs \<Rightarrow> runServer su (server_flags_of fs) s)"

definition approve_command :: "store_env \<Rightarrow> string list \<Rightarrow> store_state \<Rightarrow> store_state \<times> int" where
  "approve_command env args s =
     (case Parse (approve_FlagSet args) of
        Inl err \<Rightarrow> (s, exit_code err)
      | Inr fs \<Rightarrow> runApprove env (approve_flags_of fs) s)"

definition run :: "startup_env \<Rightarrow> string list \<Rightarrow> store_state \<Rightarrow> store_state \<times> run_outcome" where
  "run su args s =
     (if 0 < length args \<and> args ! 0 = ''approve'' then map_prod id Exit (approve_command (su_store su) (drop 1 args) s)
      else server_command su args s)"

text \<open>The end of \<^verbatim>\<open>runServer\<close>: the registered server is run on the transport, which is \<open>serve\<close>.\<close>

definition serve_exit :: "(mcp_Server \<Rightarrow> gerror option) \<Rightarrow> env \<Rightarrow> Deps \<Rightarrow> string \<Rightarrow> int" where
  "serve_exit serve env deps name =
     (case Server_Run serve (New env name version deps) of None \<Rightarrow> 0 | Some err \<Rightarrow> 1)"

subsection \<open>Writing the flags down\<close>

definition FormatBool :: "bool \<Rightarrow> string" where
  "FormatBool b = (if b then ''true'' else ''false'')"

definition approve_scalars :: "approve_flags \<Rightarrow> (string \<times> string) list" where
  "approve_scalars f =
     [(''store'', af_store f), (''reference'', af_reference f), (''operation'', af_operation f), (''case-id'', af_caseID f),
      (''reason'', af_reason f), (''requester'', af_requester f), (''approved-by'', af_approvedBy f), (''note'', af_note f),
      (''deny'', FormatBool (af_deny f)), (''ttl-seconds'', FormatInt (af_ttlSeconds f)),
      (''client-id'', af_clientID f), (''artifact'', af_artifact f), (''profile'', af_profile f), (''flow-id'', af_flowID f),
      (''upload-name'', af_uploadName f), (''hunt-id'', af_huntID f), (''label'', af_label f), (''all'', FormatBool (af_targetAll f)),
      (''ioc-kind'', af_iocKind f), (''ioc-value'', af_iocValue f)]"

definition approve_settings :: "approve_flags \<Rightarrow> (string \<times> string) list" where
  "approve_settings f = approve_scalars f @ map (\<lambda>(k, v). (''param'', k @ ''='' @ v)) (af_param f)
     @ map (Pair ''hunt-client-id'') (af_huntClientID f)"

lemma map_of_set_flag [simp]: "map_of (fs_formal (set_flag name v fs)) = (map_of (fs_formal fs))(name \<mapsto> v)"
  by (simp add: set_flag_def map_of_gomap_put)

lemma apply_params:
  assumes "map_of (fs_formal fs) ''param'' = Some (ParamMap m)" and "wf_gomap (m @ ps)"
    and "\<forall>k \<in> fst ` set ps. CHR ''='' \<notin> set k"
  shows "\<exists>fs'. apply_settings (map (\<lambda>(k, v). (''param'', k @ ''='' @ v)) ps) fs = Inr fs'
    \<and> map_of (fs_formal fs') = (map_of (fs_formal fs))(''param'' \<mapsto> ParamMap (m @ ps))"
  using assms
proof (induction ps arbitrary: m fs)
  case (Cons p ps)
  obtain k v where p: "p = (k, v)" by (cases p)
  have set: "Value_Set (ParamMap m) (k @ ''='' @ v) = Inr (ParamMap (m @ [p]))"
    using Cons.prems by (auto simp: p paramMapFlag_Set_def Cut_eq_append gomap_put_new wf_gomap_def)
  let ?fs = "set_flag ''param'' (ParamMap (m @ [p])) fs"
  have "\<exists>fs'. apply_settings (map (\<lambda>(k, v). (''param'', k @ ''='' @ v)) ps) ?fs = Inr fs'
    \<and> map_of (fs_formal fs') = (map_of (fs_formal ?fs))(''param'' \<mapsto> ParamMap ((m @ [p]) @ ps))"
    by (rule Cons.IH) (use Cons.prems in simp_all)
  moreover have "apply_settings (map (\<lambda>(k, v). (''param'', k @ ''='' @ v)) (p # ps)) fs
      = apply_settings (map (\<lambda>(k, v). (''param'', k @ ''='' @ v)) ps) ?fs"
    using Cons.prems(1) set by (simp add: p)
  ultimately show ?case by (simp only: map_of_set_flag fun_upd_upd append_assoc append_Cons append_Nil)
qed (simp add: fun_upd_idem)

lemma apply_slices:
  assumes "map_of (fs_formal fs) name = Some (StringSlice vs)"
  shows "\<exists>fs'. apply_settings (map (Pair name) ws) fs = Inr fs'
    \<and> map_of (fs_formal fs') = (map_of (fs_formal fs))(name \<mapsto> StringSlice (vs @ ws))"
  using assms
proof (induction ws arbitrary: vs fs)
  case (Cons w ws)
  have "apply_settings (map (Pair name) (w # ws)) fs = apply_settings (map (Pair name) ws) (set_flag name (StringSlice (vs @ [w])) fs)"
    using Cons.prems by (simp add: stringSliceFlag_Set_def)
  then show ?case using Cons.IH [of "set_flag name (StringSlice (vs @ [w])) fs" "vs @ [w]"]
    unfolding map_of_set_flag fun_upd_upd by simp
qed (simp add: fun_upd_idem)

lemmas flag_accessors = flag_string_def flag_bool_def flag_int_def flag_params_def flag_slice_def

text \<open>Settings of different flags do not interfere: each is read against the declared flag.\<close>

definition set_value :: "string \<Rightarrow> flag_value \<Rightarrow> flag_value" where
  "set_value x v = (case Value_Set v x of Inl err \<Rightarrow> v | Inr v' \<Rightarrow> v')"

lemma apply_distinct:
  assumes "distinct (map fst nvs)"
    and "list_all (\<lambda>(name, x). \<exists>v v'. map_of (fs_formal fs) name = Some v \<and> Value_Set v x = Inr v') nvs"
  shows "\<exists>fs'. apply_settings nvs fs = Inr fs' \<and> (\<forall>name. map_of (fs_formal fs') name =
    (case map_of nvs name of None \<Rightarrow> map_of (fs_formal fs) name | Some x \<Rightarrow> map_option (set_value x) (map_of (fs_formal fs) name)))"
  using assms
proof (induction nvs arbitrary: fs)
  case (Cons nv nvs)
  obtain n x where nv: "nv = (n, x)" by (cases nv)
  obtain v v' where v: "map_of (fs_formal fs) n = Some v" "Value_Set v x = Inr v'" using Cons.prems(2) by (auto simp: nv)
  have new: "n \<notin> fst ` set nvs" using Cons.prems(1) by (simp add: nv)
  have other: "map_of (fs_formal (set_flag n v' fs)) (fst z) = map_of (fs_formal fs) (fst z)" if "z \<in> set nvs" for z
    using that new by auto
  have "list_all (\<lambda>(name, x). \<exists>w w'. map_of (fs_formal (set_flag n v' fs)) name = Some w \<and> Value_Set w x = Inr w') nvs"
    unfolding list_all_iff
  proof
    fix z assume z: "z \<in> set nvs"
    then show "case z of (name, x) \<Rightarrow> \<exists>w w'. map_of (fs_formal (set_flag n v' fs)) name = Some w \<and> Value_Set w x = Inr w'"
      using Cons.prems(2) unfolding case_prod_beta other [OF z] by (simp add: list_all_iff case_prod_beta)
  qed
  with Cons.IH [of "set_flag n v' fs"] Cons.prems(1) obtain fs' where fs': "apply_settings nvs (set_flag n v' fs) = Inr fs'"
    "\<forall>name. map_of (fs_formal fs') name = (case map_of nvs name of None \<Rightarrow> map_of (fs_formal (set_flag n v' fs)) name
       | Some x \<Rightarrow> map_option (set_value x) (map_of (fs_formal (set_flag n v' fs)) name))" by auto
  have "map_of nvs n = None" using new by (simp add: map_of_eq_None_iff)
  then show ?case using fs' v by (auto simp: nv set_value_def split: option.split)
qed simp

lemma apply_scalars:
  assumes "minInt64 \<le> af_ttlSeconds f" and "af_ttlSeconds f \<le> maxInt64"
  obtains fs' where "apply_settings (approve_scalars f) (approve_FlagSet args) = Inr fs'"
    "approve_flags_of fs' = f\<lparr>af_param := [], af_huntClientID := []\<rparr>"
    "map_of (fs_formal fs') ''param'' = Some (ParamMap [])" "map_of (fs_formal fs') ''hunt-client-id'' = Some (StringSlice [])"
proof -
  have "list_all (\<lambda>(name, x). \<exists>v v'. map_of (fs_formal (approve_FlagSet args)) name = Some v \<and> Value_Set v x = Inr v') (approve_scalars f)"
    by (simp add: approve_scalars_def approve_FlagSet_def FormatBool_def ParseBool_print ParseInt_FormatInt [OF assms])
  moreover have "distinct (map fst (approve_scalars f))" by (simp add: approve_scalars_def)
  ultimately obtain fs' where fs': "apply_settings (approve_scalars f) (approve_FlagSet args) = Inr fs'"
    and m: "\<And>name. map_of (fs_formal fs') name = (case map_of (approve_scalars f) name of
        None \<Rightarrow> map_of (fs_formal (approve_FlagSet args)) name
      | Some x \<Rightarrow> map_option (set_value x) (map_of (fs_formal (approve_FlagSet args)) name))"
    using apply_distinct by blast
  have "approve_flags_of fs' = f\<lparr>af_param := [], af_huntClientID := []\<rparr>"
    by (simp add: approve_flags_of_def flag_accessors m approve_scalars_def approve_FlagSet_def set_value_def
        FormatBool_def ParseBool_print ParseInt_FormatInt [OF assms])
  moreover have "map_of (fs_formal fs') ''param'' = Some (ParamMap [])" "map_of (fs_formal fs') ''hunt-client-id'' = Some (StringSlice [])"
    by (simp_all add: m approve_scalars_def approve_FlagSet_def)
  ultimately show ?thesis using that fs' by blast
qed

lemma approve_settings_applied:
  assumes "minInt64 \<le> af_ttlSeconds f" and "af_ttlSeconds f \<le> maxInt64" and "wf_gomap (af_param f)"
    and "\<forall>k \<in> fst ` set (af_param f). CHR ''='' \<notin> set k"
  obtains fs' where "apply_settings (approve_settings f) (approve_FlagSet args) = Inr fs'" "approve_flags_of fs' = f"
proof -
  obtain fs1 where 1: "apply_settings (approve_scalars f) (approve_FlagSet args) = Inr fs1"
    "approve_flags_of fs1 = f\<lparr>af_param := [], af_huntClientID := []\<rparr>"
    "map_of (fs_formal fs1) ''param'' = Some (ParamMap [])" "map_of (fs_formal fs1) ''hunt-client-id'' = Some (StringSlice [])"
    using apply_scalars [OF assms(1,2)] by blast
  obtain fs2 where 2: "apply_settings (map (\<lambda>(k, v). (''param'', k @ ''='' @ v)) (af_param f)) fs1 = Inr fs2"
    "map_of (fs_formal fs2) = (map_of (fs_formal fs1))(''param'' \<mapsto> ParamMap (af_param f))"
    using apply_params [OF 1(3), of "af_param f"] assms(3,4) by auto
  obtain fs3 where 3: "apply_settings (map (Pair ''hunt-client-id'') (af_huntClientID f)) fs2 = Inr fs3"
    "map_of (fs_formal fs3) = (map_of (fs_formal fs2))(''hunt-client-id'' \<mapsto> StringSlice (af_huntClientID f))"
    using apply_slices [of fs2 "''hunt-client-id''" "[]" "af_huntClientID f"] 1(4) by (auto simp: 2(2))
  have "apply_settings (approve_settings f) (approve_FlagSet args) = Inr fs3"
    by (simp only: approve_settings_def apply_settings_append 1(1) 2(1) 3(1) sum.case)
  moreover have "approve_flags_of fs3 = (approve_flags_of fs1)\<lparr>af_param := af_param f, af_huntClientID := af_huntClientID f\<rparr>"
    by (simp add: approve_flags_of_def flag_accessors 3(2) 2(2))
  then have "approve_flags_of fs3 = f" by (simp add: 1(2))
  ultimately show ?thesis by (rule that)
qed

subsection \<open>Whole command lines\<close>

lemma approve_FlagSet_args: "approve_FlagSet args = (approve_FlagSet [])\<lparr>fs_args := args\<rparr>"
  by (simp add: approve_FlagSet_def)

lemma approve_flags_of_args [simp]: "approve_flags_of (fs\<lparr>fs_args := args\<rparr>) = approve_flags_of fs"
  by (simp add: approve_flags_of_def flag_accessors)

text \<open>What the approve command makes of settings followed by nothing more that is a flag.\<close>

lemma approve_command_settings:
  assumes "list_all (\<lambda>nv. flag_name_ok (fst nv)) nvs" and "rest = [] \<or> positional (hd rest)"
  shows "approve_command env (map setting nvs @ rest) s =
    (case apply_settings nvs (approve_FlagSet []) of
       Inl err \<Rightarrow> (s, exit_code err) | Inr fs \<Rightarrow> runApprove env (approve_flags_of fs) s)"
proof -
  have "Parse (fs\<lparr>fs_args := rest\<rparr>) = Inr (fs\<lparr>fs_args := rest\<rparr>)" for fs
    using assms(2) Parse_no_args Parse_positional by (cases rest) auto
  then show ?thesis
    unfolding approve_command_def approve_FlagSet_args [of "map setting nvs @ rest"] Parse_settings [OF assms(1)]
    by (simp split: sum.split)
qed

lemma approve_settings_named: "list_all (\<lambda>nv. flag_name_ok (fst nv)) (approve_settings f)"
proof -
  have "list_all (\<lambda>nv. flag_name_ok (fst nv)) (approve_scalars f)" by (simp add: approve_scalars_def flag_name_ok_def)
  then show ?thesis by (auto simp: approve_settings_def list_all_iff flag_name_ok_def)
qed

lemma approve_command_flags:
  assumes "minInt64 \<le> af_ttlSeconds f" and "af_ttlSeconds f \<le> maxInt64" and "wf_gomap (af_param f)"
    and "\<forall>k \<in> fst ` set (af_param f). CHR ''='' \<notin> set k"
  shows "approve_command env (map setting (approve_settings f)) s = runApprove env f s"
proof -
  obtain fs where "apply_settings (approve_settings f) (approve_FlagSet []) = Inr fs" "approve_flags_of fs = f"
    using approve_settings_applied [OF assms] by blast
  then show ?thesis using approve_command_settings [OF approve_settings_named, of "[]" env f s] by simp
qed

text \<open>
  Property C23 (roundtrip). Whatever values the flags of the approve command are to have - any text, a text that
  looks like a flag or holds an equals sign included, any parameters whose names hold none, any list of clients, any time to
  live an int can hold - there is a command line that gives them exactly these values.
\<close>

theorem approve_line_roundtrip:
  assumes "minInt64 \<le> af_ttlSeconds f" and "af_ttlSeconds f \<le> maxInt64" and "wf_gomap (af_param f)"
    and "\<forall>k \<in> fst ` set (af_param f). CHR ''='' \<notin> set k"
  shows "run su (''approve'' # map setting (approve_settings f)) s = map_prod id Exit (runApprove (su_store su) f s)"
  by (simp add: run_def approve_command_flags [OF assms])

lemma sample_flags_writable:
  "minInt64 \<le> af_ttlSeconds sample_flags" "af_ttlSeconds sample_flags \<le> maxInt64" "wf_gomap (af_param sample_flags)"
  "\<forall>k \<in> fst ` set (af_param sample_flags). CHR ''='' \<notin> set k"
  by (simp_all add: sample_flags_def minInt64_def maxInt64_def wf_gomap_def)

lemma sample_flags_approve:
  "\<exists>s' d. runApprove calm_env sample_flags sample_store = (s', 0) \<and> dc_Approved d
    \<and> map_option rc_Decision (records_at s' ''REF-2'') = Some (Some d)"
proof -
  have "quiet calm_env" "holds [''REF-1'' \<mapsto> sample_record] sample_store" "complete_flags sample_flags"
    by (simp_all add: quiet_def calm_env_def holds_def sample_store_def perm_too_open_def complete_flags_def approve_ttl_def
        sample_flags_def wrap64_def)
  from approve_quiet [OF this(1,2) sample_approve_request _ this(3)]
  show ?thesis by (fastforce simp: sample_flags_def holds_def records_at_def)
qed

theorem approve_line_roundtrip_witness:
  "\<exists>s'. run sample_startup (''approve'' # map setting (approve_settings sample_flags)) sample_store = (s', Exit 0)"
  using approve_line_roundtrip [OF sample_flags_writable, of sample_startup sample_store] sample_flags_approve
  by (auto simp: sample_startup_def)

text \<open>
  Property C40 (error). The first argument that is not a flag ends the flags, and the approve command does not look
  at what is left: a command line with a stray word does exactly what it would do without the word and everything after it,
  so that a denial written after the stray word becomes an approval.
\<close>

theorem stray_word_hides_flags:
  assumes "list_all (\<lambda>nv. flag_name_ok (fst nv)) nvs" and "positional w"
  shows "run su (''approve'' # map setting nvs @ w # rest) s = run su (''approve'' # map setting nvs) s"
  using approve_command_settings [OF assms(1), of "w # rest"] approve_command_settings [OF assms(1), of "[]"] assms(2)
  by (simp add: run_def)

theorem stray_word_hides_flags_witness:
  "\<exists>s' d. run sample_startup (''approve'' # map setting (approve_settings sample_flags) @ [''ticket'', ''--deny'']) sample_store
      = (s', Exit 0) \<and> dc_Approved d \<and> map_option rc_Decision (records_at s' ''REF-2'') = Some (Some d)"
proof -
  have "positional ''ticket''" by (simp add: positional_def)
  from stray_word_hides_flags [OF approve_settings_named this, of sample_startup sample_flags "[''--deny'']" sample_store]
  show ?thesis
    using approve_command_flags [OF sample_flags_writable, of calm_env sample_store] sample_flags_approve
    by (auto simp: run_def sample_startup_def)
qed

lemma runServer_records:
  assumes "runServer su f s = (s', out)" shows "records_at s' = records_at s \<and> (out = Exit 2 \<longrightarrow> s' = s)"
  using assms by (auto simp: runServer_def buildDeps_def split: if_splits prod.splits sum.splits option.splits dest!: open_approvals_records)

text \<open>The record a parsed approve command leaves: decided as the flags say when it exits with 0, undecided when with 1.\<close>

definition approve_leaves :: "FlagSet \<Rightarrow> int \<Rightarrow> Request \<Rightarrow> approval_record \<Rightarrow> bool" where
  "approve_leaves fs code q rec \<longleftrightarrow> approve_request (approve_flags_of fs) = Inr q
     \<and> (code = 0 \<and> af_approvedBy (approve_flags_of fs) \<noteq> [] \<and> (\<exists>t t'. rec = cli_decided (approve_flags_of fs) q t t')
        \<or> code = 1 \<and> (\<exists>t. rec = cli_created q t))"

lemma approve_command_records:
  assumes "approve_command env args s = (s', code)"
  shows "(code = 2 \<longrightarrow> s' = s) \<and> (records_at s' = records_at s
    \<or> (\<exists>fs q rec. Parse (approve_FlagSet args) = Inr fs \<and> approve_leaves fs code q rec
        \<and> records_at s (rq_ID q) = None \<and> records_at s' = (records_at s)(rq_ID q \<mapsto> rec)))"
proof (cases "Parse (approve_FlagSet args)")
  case (Inr fs)
  let ?f = "approve_flags_of fs"
  have run: "runApprove env ?f s = (s', code)" using assms by (simp add: approve_command_def Inr)
  show ?thesis
  proof (cases "\<exists>q. approve_request ?f = Inr q \<and> af_store ?f \<noteq> []")
    case True
    then obtain q where q: "approve_request ?f = Inr q" and "approve_store env ?f q s = (s', code)"
      using run by (auto simp: runApprove_eq)
    from this(2) show ?thesis
    proof (cases rule: approve_store_cases)
      case (created t)
      then have "approve_leaves fs code q (cli_created q t)" using q by (auto simp: approve_leaves_def)
      with Inr created show ?thesis by auto
    next
      case (decided t t')
      then have "approve_leaves fs code q (cli_decided ?f q t t')" using q by (auto simp: approve_leaves_def)
      with Inr decided show ?thesis by auto
    qed simp
  next
    case False
    then show ?thesis using run by (auto simp: runApprove_eq split: sum.splits if_splits)
  qed
qed (use assms in \<open>simp add: approve_command_def\<close>)


lemma sample_usage_error: "\<exists>e. Parse (approve_FlagSet [''--deny'', ''--force'']) = Inl (Failf e)"
  by (simp add: Parse.simps parseOne_def parse_value_def approve_FlagSet_def set_flag_def ParseBool_def Let_def)


subsection \<open>What parsing guarantees\<close>

text \<open>The values flags can take: a parsed integer fits its 64 bits, a parsed parameter map has each key once. So the
  hypotheses that the theorems on \<open>runApprove\<close> make about its flags hold for every command line.\<close>

fun value_ok :: "flag_value \<Rightarrow> bool" where
  "value_ok (IntValue i) \<longleftrightarrow> minInt64 \<le> i \<and> i \<le> maxInt64"
| "value_ok (ParamMap m) \<longleftrightarrow> wf_gomap m"
| "value_ok _ \<longleftrightarrow> True"

definition flags_ok :: "FlagSet \<Rightarrow> bool" where
  "flags_ok fs \<longleftrightarrow> list_all (\<lambda>nv. value_ok (snd nv)) (fs_formal fs)"

lemma flags_ok_lookup: "flags_ok fs \<Longrightarrow> map_of (fs_formal fs) name = Some v \<Longrightarrow> value_ok v"
  by (force simp: flags_ok_def list_all_iff dest: map_of_SomeD)

lemma ParseInt_range: "ParseInt s = Inr i \<Longrightarrow> minInt64 \<le> i \<and> i \<le> maxInt64"
  by (auto simp: ParseInt_def Let_def minInt64_def maxInt64_def split: if_splits sum.splits)

lemma Value_Set_ok: "Value_Set v s = Inr v' \<Longrightarrow> value_ok v \<Longrightarrow> value_ok v'"
  by (cases v) (auto split: option.splits sum.splits num_error.splits simp: map_sum_def ParseInt_range
      dest: ParseInt_range paramMapFlag_Set_wf)

lemma set_flag_ok: "flags_ok fs \<Longrightarrow> value_ok v \<Longrightarrow> flags_ok (set_flag name v fs)"
  by (simp add: flags_ok_def set_flag_def gomap_put_all)

lemma flags_ok_args [simp]: "flags_ok (fs\<lparr>fs_args := as\<rparr>) = flags_ok fs"
  by (simp add: flags_ok_def)

lemma parse_value_ok: "parse_value fs name v given rest = Inr fs' \<Longrightarrow> flags_ok fs \<Longrightarrow> value_ok v \<Longrightarrow> flags_ok fs'"
  by (auto simp: parse_value_def split: if_splits sum.splits option.splits list.splits prod.splits
      intro!: set_flag_ok dest: Value_Set_ok)

lemma parseOne_ok: "parseOne fs = Inr (seen, fs') \<Longrightarrow> flags_ok fs \<Longrightarrow> flags_ok fs'"
  by (auto simp: parseOne_def Let_def map_sum_def split: list.splits if_splits prod.splits option.splits sum.splits
      dest: flags_ok_lookup intro: parse_value_ok)

lemma Parse_ok: "Parse fs = Inr fs' \<Longrightarrow> flags_ok fs \<Longrightarrow> flags_ok fs'"
proof (induction fs rule: Parse.induct)
  case (1 fs)
  then show ?case unfolding Parse.simps [of fs] using parseOne_ok [of fs] by (auto split: sum.splits if_splits)
qed

lemma parsed_flags_ok:
  assumes "Parse (approve_FlagSet args) = Inr fs"
  shows "wf_gomap (af_param (approve_flags_of fs)) \<and> minInt64 \<le> af_ttlSeconds (approve_flags_of fs)
    \<and> af_ttlSeconds (approve_flags_of fs) \<le> maxInt64"
proof -
  have "flags_ok (approve_FlagSet args)"
    by (simp add: flags_ok_def approve_FlagSet_def defaultApprovalTTLSeconds_def minInt64_def maxInt64_def)
  note ok = flags_ok_lookup [OF Parse_ok [OF assms this]]
  show ?thesis using ok [of "''param''"] ok [of "''ttl-seconds''"]
    by (auto simp: approve_flags_of_def flag_params_def flag_int_def minInt64_def maxInt64_def split: option.split flag_value.split)
qed

end
