(* ===== verification/Json.thy ===== *)
theory Json
  imports Time_Text
begin

text \<open>
  The text that Go's \<^verbatim>\<open>encoding/json\<close> writes, as far as the program uses it: strings with the escaping of
  \<^verbatim>\<open>appendString\<close> (HTML characters escaped, the default), booleans, integers, arrays and objects, compact as
  \<^verbatim>\<open>json.Encoder\<close> writes them and indented as \<^verbatim>\<open>json.MarshalIndent(v, "", "  ")\<close> does. A string
  is a list of bytes; bytes that are not UTF-8 are written as the escape of \<^verbatim>\<open>U+FFFD\<close>.

  \<open>read_value\<close> is a reader for this text, used to show that the text determines the value:
  \<open>read_render\<close>, for both layouts, which are interpretations of the locale \<open>layout\<close>. \<open>quote_printable\<close>: no text of a
  string holds a control character, so a value in compact form is always one line.
\<close>

subsection \<open>UTF-8\<close>

text \<open>The ranges of the bytes that may follow a first byte, as in \<^verbatim>\<open>unicode/utf8\<close>.\<close>

definition rune_ranges :: "nat \<Rightarrow> (nat \<times> nat) list option" where
  "rune_ranges b =
     (if b < 128 then Some []
      else if 194 \<le> b \<and> b \<le> 223 then Some [(128, 191)]
      else if b = 224 then Some [(160, 191), (128, 191)]
      else if b = 237 then Some [(128, 159), (128, 191)]
      else if 225 \<le> b \<and> b \<le> 239 then Some [(128, 191), (128, 191)]
      else if b = 240 then Some [(144, 191), (128, 191), (128, 191)]
      else if 241 \<le> b \<and> b \<le> 243 then Some [(128, 191), (128, 191), (128, 191)]
      else if b = 244 then Some [(128, 143), (128, 191), (128, 191)]
      else None)"

fun matches :: "string \<Rightarrow> (nat \<times> nat) list \<Rightarrow> bool" where
  "matches bs [] \<longleftrightarrow> True"
| "matches [] (r # rs) \<longleftrightarrow> False"
| "matches (b # bs) ((lo, hi) # rs) \<longleftrightarrow> lo \<le> of_char b \<and> of_char b \<le> hi \<and> matches bs rs"

text \<open>The length of the rune at the head of a string; 0 for a byte that is not UTF-8.\<close>

fun rune_len :: "string \<Rightarrow> nat" where
  "rune_len [] = 0"
| "rune_len (b # bs) =
     (case rune_ranges (of_char b) of
        None \<Rightarrow> 0
      | Some rs \<Rightarrow> if matches bs rs then Suc (length rs) else 0)"

definition replacement :: string where
  "replacement = [CHR 0xEF, CHR 0xBF, CHR 0xBD]"

function to_valid :: "string \<Rightarrow> string" where
  "to_valid s =
     (case s of
        [] \<Rightarrow> []
      | b # bs \<Rightarrow> if rune_len s = 0 then replacement @ to_valid bs else take (rune_len s) s @ to_valid (drop (rune_len s) s))"
  by pat_completeness auto
termination
  by (relation "measure length") auto

definition valid_utf8 :: "string \<Rightarrow> bool" where
  "valid_utf8 s \<longleftrightarrow> to_valid s = s"

subsection \<open>Strings\<close>

definition hex_char :: "nat \<Rightarrow> char" where
  "hex_char n = (if n < 10 then digit_char n else char_of (87 + n))"

definition escape_byte :: "char \<Rightarrow> string" where
  "escape_byte b =
     (if b = CHR 0x22 \<or> b = backslash then [backslash, b]
      else if b = CHR 0x08 then [backslash, CHR ''b'']
      else if b = CHR 0x0C then [backslash, CHR ''f'']
      else if b = CHR 0x0A then [backslash, CHR ''n'']
      else if b = CHR 0x0D then [backslash, CHR ''r'']
      else if b = CHR 0x09 then [backslash, CHR ''t'']
      else if of_char b < (32 :: nat) \<or> b \<in> {CHR ''<'', CHR ''>'', CHR ''&''}
      then [backslash, CHR ''u'', CHR ''0'', CHR ''0'', hex_char (of_char b div 16), hex_char (of_char b mod 16)]
      else [b])"

definition line_separator :: string where
  "line_separator = [CHR 0xE2, CHR 0x80, CHR 0xA8]"

definition paragraph_separator :: string where
  "paragraph_separator = [CHR 0xE2, CHR 0x80, CHR 0xA9]"

definition escape_rune :: "string \<Rightarrow> string" where
  "escape_rune r =
     (if length r = 1 then escape_byte (hd r)
      else if r = line_separator then backslash # ''u2028''
      else if r = paragraph_separator then backslash # ''u2029''
      else r)"

function escape :: "string \<Rightarrow> string" where
  "escape s =
     (case s of
        [] \<Rightarrow> []
      | b # bs \<Rightarrow> if rune_len s = 0 then backslash # ''ufffd'' @ escape bs
                 else escape_rune (take (rune_len s) s) @ escape (drop (rune_len s) s))"
  by pat_completeness auto
termination
  by (relation "measure length") auto

declare to_valid.simps [simp del] escape.simps [simp del]

definition quote :: "string \<Rightarrow> string" where
  "quote s = CHR 0x22 # escape s @ [CHR 0x22]"

subsection \<open>Values\<close>

datatype json = JStr string | JBool bool | JInt int | JArr "json list" | JObj "(string \<times> json) list"

fun join :: "string \<Rightarrow> string list \<Rightarrow> string" where
  "join sep [] = []"
| "join sep [x] = x"
| "join sep (x # y # ys) = x @ sep @ join sep (y # ys)"

text \<open>\<open>ws d\<close> is what separates items at depth \<open>d\<close>, \<open>col\<close> what separates a key from its value.\<close>

definition bracket :: "(nat \<Rightarrow> string) \<Rightarrow> nat \<Rightarrow> char \<Rightarrow> char \<Rightarrow> string list \<Rightarrow> string" where
  "bracket ws d l r items =
     (if items = [] then [l, r] else l # ws (Suc d) @ join (CHR '','' # ws (Suc d)) items @ ws d @ [r])"

fun render :: "(nat \<Rightarrow> string) \<Rightarrow> string \<Rightarrow> nat \<Rightarrow> json \<Rightarrow> string" where
  "render ws col d (JStr s) = quote s"
| "render ws col d (JBool b) = (if b then ''true'' else ''false'')"
| "render ws col d (JInt i) = FormatInt i"
| "render ws col d (JArr vs) = bracket ws d (CHR ''['') (CHR '']'') (map (render ws col (Suc d)) vs)"
| "render ws col d (JObj fs) =
     bracket ws d (CHR ''{'') (CHR ''}'') (map (\<lambda>(k, v). quote k @ col @ render ws col (Suc d) v) fs)"

definition Marshal :: "json \<Rightarrow> string" where
  "Marshal v = render (\<lambda>d. []) '':'' 0 v"

definition MarshalIndent :: "json \<Rightarrow> string" where
  "MarshalIndent v = render (\<lambda>d. CHR 0x0A # replicate (2 * d) (CHR '' '')) '': '' 0 v"

subsection \<open>Reading\<close>

definition hex_value :: "char \<Rightarrow> nat option" where
  "hex_value c =
     (let n = of_char c in
      if 48 \<le> n \<and> n \<le> 57 then Some (n - 48)
      else if 97 \<le> n \<and> n \<le> 102 then Some (n - 87)
      else if 65 \<le> n \<and> n \<le> 70 then Some (n - 55)
      else None)"

fun hex_number :: "nat \<Rightarrow> string \<Rightarrow> nat option" where
  "hex_number acc [] = Some acc"
| "hex_number acc (c # cs) = (case hex_value c of None \<Rightarrow> None | Some d \<Rightarrow> hex_number (16 * acc + d) cs)"

definition utf8_of :: "nat \<Rightarrow> string" where
  "utf8_of n =
     (if n < 128 then [char_of n]
      else if n < 2048 then [char_of (192 + n div 64), char_of (128 + n mod 64)]
      else [char_of (224 + n div 4096), char_of (128 + n div 64 mod 64), char_of (128 + n mod 64)])"

definition unescape_char :: "char \<Rightarrow> char option" where
  "unescape_char e =
     (if e \<in> {CHR 0x22, backslash, CHR ''/''} then Some e
      else if e = CHR ''b'' then Some (CHR 0x08)
      else if e = CHR ''f'' then Some (CHR 0x0C)
      else if e = CHR ''n'' then Some (CHR 0x0A)
      else if e = CHR ''r'' then Some (CHR 0x0D)
      else if e = CHR ''t'' then Some (CHR 0x09)
      else None)"

definition prepend :: "'a list \<Rightarrow> ('a list \<times> string) option \<Rightarrow> ('a list \<times> string) option" where
  "prepend xs = map_option (apfst ((@) xs))"

text \<open>A string from behind its opening quote: its bytes and what follows the closing one.\<close>

fun unescape :: "string \<Rightarrow> (string \<times> string) option" where
  "unescape [] = None"
| "unescape (c # cs) =
     (if c = CHR 0x22 then Some ([], cs)
      else if c = backslash then
        (case cs of
           [] \<Rightarrow> None
         | e # cs' \<Rightarrow>
             if e = CHR ''u'' then
               (case cs' of
                  h1 # h2 # h3 # h4 # cs'' \<Rightarrow>
                    (case hex_number 0 [h1, h2, h3, h4] of
                       None \<Rightarrow> None
                     | Some n \<Rightarrow> prepend (utf8_of n) (unescape cs''))
                | _ \<Rightarrow> None)
             else (case unescape_char e of
                     None \<Rightarrow> None
                   | Some x \<Rightarrow> prepend [x] (unescape cs')))
      else prepend [c] (unescape cs))"

definition is_blank :: "char \<Rightarrow> bool" where
  "is_blank c \<longleftrightarrow> c = CHR '' '' \<or> c = CHR 0x09 \<or> c = CHR 0x0A \<or> c = CHR 0x0D"

definition skip :: "string \<Rightarrow> string" where
  "skip s = dropWhile is_blank s"

definition in_numeral :: "char \<Rightarrow> bool" where
  "in_numeral c \<longleftrightarrow> is_digit c \<or> c = CHR ''-''"

definition read_scalar :: "char \<Rightarrow> string \<Rightarrow> (json \<times> string) option" where
  "read_scalar c r =
     (if c = CHR 0x22 then map_option (apfst JStr) (unescape r)
      else if c = CHR ''t'' \<and> take 3 r = ''rue'' then Some (JBool True, drop 3 r)
      else if c = CHR ''f'' \<and> take 4 r = ''alse'' then Some (JBool False, drop 4 r)
      else map_option (\<lambda>i. (JInt i, dropWhile in_numeral (c # r))) (Atoi (takeWhile in_numeral (c # r))))"

text \<open>The number is fuel; the length of the text is enough.\<close>

fun read_value :: "nat \<Rightarrow> string \<Rightarrow> (json \<times> string) option"
  and read_items :: "nat \<Rightarrow> string \<Rightarrow> (json list \<times> string) option"
  and read_fields :: "nat \<Rightarrow> string \<Rightarrow> ((string \<times> json) list \<times> string) option" where
  "read_value 0 s = None"
| "read_value (Suc n) s =
     (case skip s of
        [] \<Rightarrow> None
      | c # r \<Rightarrow>
          if c = CHR ''['' then
            (if skip r \<noteq> [] \<and> hd (skip r) = CHR '']'' then Some (JArr [], tl (skip r)) else map_option (apfst JArr) (read_items n r))
          else if c = CHR ''{'' then
            (if skip r \<noteq> [] \<and> hd (skip r) = CHR ''}'' then Some (JObj [], tl (skip r)) else map_option (apfst JObj) (read_fields n r))
          else read_scalar c r)"
| "read_items 0 s = None"
| "read_items (Suc n) s =
     (case read_value n s of
        None \<Rightarrow> None
      | Some (v, r) \<Rightarrow>
          (case skip r of
             [] \<Rightarrow> None
           | c # r' \<Rightarrow> if c = CHR '','' then prepend [v] (read_items n r')
                      else if c = CHR '']'' then Some ([v], r') else None))"
| "read_fields 0 s = None"
| "read_fields (Suc n) s =
     (case skip s of
        [] \<Rightarrow> None
      | q # r \<Rightarrow>
          if q \<noteq> CHR 0x22 then None
          else (case unescape r of
             None \<Rightarrow> None
           | Some (k, r1) \<Rightarrow>
               (case skip r1 of
                  [] \<Rightarrow> None
                | c # r2 \<Rightarrow>
                    if c \<noteq> CHR '':'' then None
                    else (case read_value n r2 of
                       None \<Rightarrow> None
                     | Some (v, r3) \<Rightarrow>
                         (case skip r3 of
                            [] \<Rightarrow> None
                          | c # r4 \<Rightarrow> if c = CHR '','' then prepend [(k, v)] (read_fields n r4)
                                     else if c = CHR ''}'' then Some ([(k, v)], r4) else None)))))"

definition read_json :: "string \<Rightarrow> json option" where
  "read_json s =
     (case read_value (length s) s of
        Some (v, r) \<Rightarrow> if skip r = [] then Some v else None
      | None \<Rightarrow> None)"

subsection \<open>Strings are read back\<close>

lemma hex_value_char: "k < 16 \<Longrightarrow> hex_value (hex_char k) = Some k"
  by (cases "k < 10") (auto simp: hex_value_def hex_char_def of_char_digit_char)

lemma unescape_byte:
  assumes "of_char b < (128 :: nat)"
  shows "unescape (escape_byte b @ ys) = prepend [b] (unescape ys)"
proof -
  have "(of_char b :: nat) div 16 < 16" using assms by simp
  moreover have "16 * ((of_char b :: nat) div 16) + of_char b mod 16 = of_char b" by simp
  moreover have "utf8_of (of_char b) = [b]" using assms by (simp add: utf8_of_def)
  moreover have "hex_value (CHR ''0'') = Some 0" by (simp add: hex_value_def)
  ultimately have "hex_number 0 [CHR ''0'', CHR ''0'', hex_char (of_char b div 16), hex_char (of_char b mod 16)] = Some (of_char b)"
    by (simp add: hex_value_char)
  with \<open>utf8_of (of_char b) = [b]\<close> show ?thesis
    by (auto simp: escape_byte_def unescape_char_def simp del: hex_number.simps)
qed

lemma prepend_simps [simp]:
  "prepend xs None = None" "prepend xs (Some (ys, r)) = Some (xs @ ys, r)" "prepend xs (prepend ys o') = prepend (xs @ ys) o'"
  "prepend [] o' = o'"
  by (cases o'; auto simp: prepend_def)+

lemma unescape_high:
  "list_all (\<lambda>c. 128 \<le> (of_char c :: nat)) xs \<Longrightarrow> unescape (xs @ ys) = prepend xs (unescape ys)"
proof (induction xs)
  case (Cons x xs)
  then have "x \<noteq> CHR 0x22" "x \<noteq> backslash" by auto
  with Cons show ?case by simp
qed simp

lemma unescape_u:
  "hex_number 0 [a, b, c, d] = Some n \<Longrightarrow> unescape (backslash # CHR ''u'' # a # b # c # d # ys) = prepend (utf8_of n) (unescape ys)"
  by (simp del: hex_number.simps)

lemma unescape_special:
  "unescape (backslash # CHR ''u'' # CHR ''f'' # CHR ''f'' # CHR ''f'' # CHR ''d'' # ys) = prepend replacement (unescape ys)"
  "unescape (backslash # CHR ''u'' # CHR ''2'' # CHR ''0'' # CHR ''2'' # CHR ''8'' # ys) = prepend line_separator (unescape ys)"
  "unescape (backslash # CHR ''u'' # CHR ''2'' # CHR ''0'' # CHR ''2'' # CHR ''9'' # ys) = prepend paragraph_separator (unescape ys)"
proof -
  have "hex_number 0 ''fffd'' = Some 65533" "hex_number 0 ''2028'' = Some 8232" "hex_number 0 ''2029'' = Some 8233"
    "utf8_of 65533 = replacement" "utf8_of 8232 = line_separator" "utf8_of 8233 = paragraph_separator"
    by (simp_all add: hex_value_def utf8_of_def replacement_def line_separator_def paragraph_separator_def) (code_simp; fail)+
  then show
    "unescape (backslash # CHR ''u'' # CHR ''f'' # CHR ''f'' # CHR ''f'' # CHR ''d'' # ys) = prepend replacement (unescape ys)"
    "unescape (backslash # CHR ''u'' # CHR ''2'' # CHR ''0'' # CHR ''2'' # CHR ''8'' # ys) = prepend line_separator (unescape ys)"
    "unescape (backslash # CHR ''u'' # CHR ''2'' # CHR ''0'' # CHR ''2'' # CHR ''9'' # ys) = prepend paragraph_separator (unescape ys)"
    using unescape_u by metis+
qed

lemma rune_ranges_high: "rune_ranges b = Some rs \<Longrightarrow> list_all (\<lambda>r. 128 \<le> fst r) rs \<and> (128 \<le> b \<or> rs = [])"
  by (auto simp: rune_ranges_def split: if_splits)

lemma matches_high:
  "matches bs rs \<Longrightarrow> list_all (\<lambda>r. 128 \<le> fst r) rs
    \<Longrightarrow> length rs \<le> length bs \<and> list_all (\<lambda>c. 128 \<le> (of_char c :: nat)) (take (length rs) bs)"
  by (induction bs rs rule: matches.induct) auto

lemma rune_len_cases:
  assumes "rune_len (b # bs) \<noteq> 0"
  obtains (byte) "rune_len (b # bs) = 1" "of_char b < (128 :: nat)"
  | (bytes) "1 < rune_len (b # bs)" "rune_len (b # bs) \<le> length (b # bs)"
      "list_all (\<lambda>c. 128 \<le> (of_char c :: nat)) (take (rune_len (b # bs)) (b # bs))"
proof -
  obtain rs where rs: "rune_ranges (of_char b) = Some rs" "matches bs rs" "rune_len (b # bs) = Suc (length rs)"
    using assms by (auto split: option.splits if_splits)
  show ?thesis
  proof (cases rs)
    case Nil
    then have "of_char b < (128 :: nat)" using rs(1) by (auto simp: rune_ranges_def split: if_splits)
    then show ?thesis using byte rs(3) Nil by simp
  next
    case (Cons r rs')
    then show ?thesis
      using bytes rs(3) rune_ranges_high [OF rs(1)] matches_high [OF rs(2)] by simp
  qed
qed

lemma unescape_rune:
  assumes "rune_len (b # bs) \<noteq> 0"
  shows "unescape (escape_rune (take (rune_len (b # bs)) (b # bs)) @ ys) = prepend (take (rune_len (b # bs)) (b # bs)) (unescape ys)"
  using assms
proof (cases rule: rune_len_cases)
  case byte
  then show ?thesis by (simp add: escape_rune_def unescape_byte del: rune_len.simps)
next
  case bytes
  then have "length (take (rune_len (b # bs)) (b # bs)) \<noteq> 1" by simp
  with unescape_high [OF bytes(3)] show ?thesis
    by (auto simp: escape_rune_def unescape_special simp del: rune_len.simps unescape.simps)
qed

lemma escape_Cons:
  "escape [] = []" "to_valid [] = []"
  "rune_len (b # bs) = 0 \<Longrightarrow> escape (b # bs) = backslash # ''ufffd'' @ escape bs"
  "rune_len (b # bs) = 0 \<Longrightarrow> to_valid (b # bs) = replacement @ to_valid bs"
  "rune_len (b # bs) \<noteq> 0 \<Longrightarrow> escape (b # bs) = escape_rune (take (rune_len (b # bs)) (b # bs)) @ escape (drop (rune_len (b # bs)) (b # bs))"
  "rune_len (b # bs) \<noteq> 0 \<Longrightarrow> to_valid (b # bs) = take (rune_len (b # bs)) (b # bs) @ to_valid (drop (rune_len (b # bs)) (b # bs))"
  by (simp_all add: escape.simps [of "[]"] to_valid.simps [of "[]"] escape.simps [of "b # bs"] to_valid.simps [of "b # bs"]
      del: rune_len.simps)

lemma escape_induct [case_names Nil bad rune]:
  assumes "P []" and "\<And>b bs. rune_len (b # bs) = 0 \<Longrightarrow> P bs \<Longrightarrow> P (b # bs)"
    and "\<And>b bs. rune_len (b # bs) \<noteq> 0 \<Longrightarrow> P (drop (rune_len (b # bs)) (b # bs)) \<Longrightarrow> P (b # bs)"
  shows "P s"
proof (induction s rule: escape.induct)
  case (1 s)
  then show ?case using assms by (cases s) (auto simp del: rune_len.simps)
qed

lemma unescape_escape: "unescape (escape s @ CHR 0x22 # rest) = Some (to_valid s, rest)"
proof (induction s rule: escape_induct)
  case (bad b bs)
  then show ?case by (simp add: escape_Cons unescape_special del: rune_len.simps unescape.simps)
next
  case (rune b bs)
  then show ?case unfolding escape_Cons(5,6) [OF rune(1)] append_assoc unescape_rune [OF rune(1)] by simp
qed (simp add: escape_Cons)

text \<open>No text of a string holds a control character.\<close>

lemma escape_byte_printable: "list_all (\<lambda>c. 32 \<le> (of_char c :: nat)) (escape_byte b)"
proof -
  have "32 \<le> (of_char (hex_char k) :: nat)" if "k < 16" for k
    using that by (auto simp: hex_char_def of_char_digit_char)
  then show ?thesis by (auto simp: escape_byte_def)
qed

lemma escape_rune_printable:
  assumes "rune_len (b # bs) \<noteq> 0"
  shows "list_all (\<lambda>c. 32 \<le> (of_char c :: nat)) (escape_rune (take (rune_len (b # bs)) (b # bs)))"
  using assms
proof (cases rule: rune_len_cases)
  case bytes
  then have "list_all (\<lambda>c. 32 \<le> (of_char c :: nat)) (take (rune_len (b # bs)) (b # bs))"
    by (auto simp: list_all_iff simp del: rune_len.simps)
  moreover have "length (take (rune_len (b # bs)) (b # bs)) \<noteq> 1" using bytes by simp
  ultimately show ?thesis by (simp add: escape_rune_def del: rune_len.simps)
qed (simp add: escape_rune_def escape_byte_printable del: rune_len.simps)

lemma escape_printable: "list_all (\<lambda>c. 32 \<le> (of_char c :: nat)) (escape s)"
proof (induction s rule: escape_induct)
  case (rune b bs)
  then show ?case unfolding escape_Cons(5) [OF rune(1)] using escape_rune_printable [OF rune(1)] by simp
qed (simp_all add: escape_Cons del: rune_len.simps)

lemma quote_printable: "list_all (\<lambda>c. 32 \<le> (of_char c :: nat)) (quote s)"
  using escape_printable by (simp add: quote_def)

lemma unescape_quote: "valid_utf8 s \<Longrightarrow> unescape (tl (quote s) @ rest) = Some (s, rest)"
  using unescape_escape [of s rest] by (simp add: quote_def valid_utf8_def)

subsection \<open>Values are read back\<close>

text \<open>Values whose strings are UTF-8 and whose integers fit 64 bits.\<close>

fun json_ok :: "json \<Rightarrow> bool" where
  "json_ok (JStr s) \<longleftrightarrow> valid_utf8 s"
| "json_ok (JBool b) \<longleftrightarrow> True"
| "json_ok (JInt i) \<longleftrightarrow> minInt64 \<le> i \<and> i \<le> maxInt64"
| "json_ok (JArr vs) \<longleftrightarrow> list_all json_ok vs"
| "json_ok (JObj fs) \<longleftrightarrow> list_all (\<lambda>(k, v). valid_utf8 k \<and> json_ok v) fs"

fun need :: "json \<Rightarrow> nat" where
  "need (JArr vs) = Suc (sum_list (map (\<lambda>v. Suc (need v)) vs))"
| "need (JObj fs) = Suc (sum_list (map (\<lambda>(k, v). Suc (need v)) fs))"
| "need _ = 1"

definition ends_value :: "string \<Rightarrow> bool" where
  "ends_value rest \<longleftrightarrow> rest = [] \<or> \<not> in_numeral (hd rest)"

lemma skip_blank: "list_all is_blank w \<Longrightarrow> skip (w @ s) = skip s"
  by (induction w) (simp_all add: skip_def)

lemma skip_no_blank [simp]: "\<not> is_blank c \<Longrightarrow> skip (c # s) = c # s"
  by (simp add: skip_def)

lemma read_value_skip: "read_value n (skip s) = read_value n s"
proof (cases n)
  case (Suc m)
  have "skip (skip s) = skip s" by (induction s) (simp_all add: skip_def)
  then show ?thesis by (simp add: Suc)
qed simp

lemma read_value_blank: "list_all is_blank w \<Longrightarrow> read_value n (w @ s) = read_value n s"
  using skip_blank read_value_skip by metis

lemma FormatInt_numeral: "list_all in_numeral (FormatInt i)"
  by (auto simp: FormatInt_def list_all_iff in_numeral_def dest: Itoa_digits)

lemma takeWhile_numeral:
  "list_all in_numeral ds \<Longrightarrow> ends_value rest \<Longrightarrow> takeWhile in_numeral (ds @ rest) = ds \<and> dropWhile in_numeral (ds @ rest) = rest"
  by (induction ds) (auto simp: ends_value_def, (cases rest; simp)+)

lemma read_int:
  assumes "minInt64 \<le> i" "i \<le> maxInt64" "ends_value rest"
  shows "read_value (Suc n) (FormatInt i @ rest) = Some (JInt i, rest)"
proof -
  obtain c cs where c: "FormatInt i = c # cs" by (cases "FormatInt i") (auto simp: FormatInt_def split: if_splits)
  then have "in_numeral c" using FormatInt_numeral [of i] by simp
  then have "\<not> is_blank c" "c \<notin> {CHR 0x22, CHR ''t'', CHR ''f'', CHR ''['', CHR ''{''}"
    by (auto simp: in_numeral_def is_blank_def is_digit_def)
  then show ?thesis
    using takeWhile_numeral [OF FormatInt_numeral assms(3), of i] Atoi_FormatInt [OF assms(1,2)]
    by (simp add: c read_scalar_def del: takeWhile.simps dropWhile.simps)
qed

locale layout =
  fixes ws :: "nat \<Rightarrow> string" and col :: string
  assumes ws_blank: "list_all is_blank (ws d)"
    and col_blank: "col \<noteq> [] \<and> hd col = CHR '':'' \<and> list_all is_blank (tl col)"
begin

lemma ends_ws: "\<not> in_numeral c \<Longrightarrow> ends_value (ws d @ c # rest)"
proof (cases "ws d")
  case (Cons w ws')
  then have "is_blank w" using ws_blank [of d] by simp
  then show ?thesis by (auto simp: Cons ends_value_def in_numeral_def is_blank_def is_digit_def)
qed (simp add: ends_value_def)

lemma skip_ws: "\<not> is_blank c \<Longrightarrow> skip (ws d @ c # rest) = c # rest"
  by (simp add: skip_blank [OF ws_blank])

lemma read_items_render:
  assumes "\<And>v n rest. v \<in> set vs \<Longrightarrow> need v \<le> n \<Longrightarrow> ends_value rest \<Longrightarrow> read_value n (f v @ rest) = Some (v, rest)"
    and "vs \<noteq> []" and "sum_list (map (\<lambda>v. Suc (need v)) vs) \<le> n"
  shows "read_items n (ws e @ join (CHR '','' # ws e) (map f vs) @ ws d @ CHR '']'' # rest) = Some (vs, rest)"
  using assms
proof (induction vs arbitrary: n)
  case (Cons v vs)
  obtain m where n: "n = Suc m" "need v \<le> m" "sum_list (map (\<lambda>v. Suc (need v)) vs) \<le> m" using Cons.prems(3) by (cases n) auto
  have v: "read_value m (ws e @ f v @ r) = Some (v, r)" if "ends_value r" for r
    using Cons.prems(1) [of v] n(2) that by (simp add: read_value_blank [OF ws_blank])
  show ?case
  proof (cases vs)
    case Nil
    then show ?thesis
      using v [OF ends_ws, of "CHR '']''" d rest] by (simp add: n(1) skip_ws in_numeral_def is_blank_def is_digit_def)
  next
    case (Cons v' vs')
    then have "read_items m (ws e @ join (CHR '','' # ws e) (map f vs) @ ws d @ CHR '']'' # rest) = Some (vs, rest)"
      using Cons.IH [of m] Cons.prems(1) n(3) by simp
    moreover have "ends_value (CHR '','' # r)" for r by (simp add: ends_value_def in_numeral_def is_digit_def)
    ultimately show ?thesis using v by (simp add: n(1) Cons is_blank_def)
  qed
qed simp

lemma read_fields_render:
  assumes "\<And>k v n rest. (k, v) \<in> set fs \<Longrightarrow> need v \<le> n \<Longrightarrow> ends_value rest \<Longrightarrow> read_value n (f v @ rest) = Some (v, rest)"
    and "\<And>k v. (k, v) \<in> set fs \<Longrightarrow> valid_utf8 k"
    and "fs \<noteq> []" and "sum_list (map (\<lambda>(k, v). Suc (need v)) fs) \<le> n"
  shows "read_fields n (ws e @ join (CHR '','' # ws e) (map (\<lambda>(k, v). quote k @ col @ f v) fs) @ ws d @ CHR ''}'' # rest) = Some (fs, rest)"
  using assms
proof (induction fs arbitrary: n)
  case (Cons kv fs)
  obtain k v where kv: "kv = (k, v)" by (cases kv)
  obtain m where n: "n = Suc m" "need v \<le> m" "sum_list (map (\<lambda>(k, v). Suc (need v)) fs) \<le> m"
    using Cons.prems(4) by (cases n) (auto simp: kv)
  obtain b where b: "col = CHR '':'' # b" "list_all is_blank b" using col_blank by (cases col) auto
  have q: "skip (ws e @ quote k @ r) = CHR 0x22 # tl (quote k) @ r" for r
    by (simp add: quote_def skip_ws is_blank_def)
  have k: "unescape (tl (quote k) @ r) = Some (k, r)" for r using unescape_quote Cons.prems(2) [of k v] by (simp add: kv)
  have v: "read_value m (b @ f v @ r) = Some (v, r)" if "ends_value r" for r
    using Cons.prems(1) [of k v] n(2) that by (simp add: kv read_value_blank [OF b(2)])
  have rec: "read_fields m (ws e @ join (CHR '','' # ws e) (map (\<lambda>(k, v). quote k @ col @ f v) fs) @ ws d @ CHR ''}'' # rest) = Some (fs, rest)"
    if "fs \<noteq> []"
  proof (rule Cons.IH)
    show "valid_utf8 k'" if "(k', v') \<in> set fs" for k' v' by (rule Cons.prems(2) [of k' v']) (simp add: that)
  qed (use Cons.prems(1) n(3) that in auto)
  show ?case
  proof (cases fs)
    case Nil
    then show ?thesis
      using v [OF ends_ws, of "CHR ''}''" d rest]
      by (simp add: n(1) kv q k b(1) skip_ws in_numeral_def is_blank_def is_digit_def)
  next
    case (Cons kv' fs')
    have "ends_value (CHR '','' # r)" for r by (simp add: ends_value_def in_numeral_def is_digit_def)
    with rec Cons show ?thesis using v by (simp add: n(1) kv q k b(1) is_blank_def)
  qed
qed simp

lemma join_hd: "xs \<noteq> [] \<Longrightarrow> hd xs \<noteq> [] \<Longrightarrow> join sep xs \<noteq> [] \<and> hd (join sep xs) = hd (hd xs)"
  by (cases "(sep, xs)" rule: join.cases) auto

text \<open>The first character of a value opens no closing bracket.\<close>

lemma render_hd: "render ws col d v \<noteq> [] \<and> hd (render ws col d v) \<notin> {CHR '']'', CHR ''}''} \<and> \<not> is_blank (hd (render ws col d v))"
proof (cases v)
  case (JInt i)
  obtain c cs where c: "FormatInt i = c # cs" by (cases "FormatInt i") (auto simp: FormatInt_def split: if_splits)
  then have "in_numeral c" using FormatInt_numeral [of i] by simp
  then show ?thesis by (auto simp: JInt c in_numeral_def is_blank_def is_digit_def)
qed (auto simp: quote_def bracket_def is_blank_def)

lemma read_render:
  "json_ok v \<Longrightarrow> need v \<le> n \<Longrightarrow> ends_value rest \<Longrightarrow> read_value n (render ws col d v @ rest) = Some (v, rest)"
proof (induction v arbitrary: d n rest)
  case (JStr s)
  then show ?case using unescape_quote [of s rest] by (cases n) (auto simp: quote_def is_blank_def read_scalar_def)
next
  case (JBool b)
  then show ?case by (cases n) (auto simp: is_blank_def read_scalar_def)
next
  case (JInt i)
  then show ?case using read_int by (cases n) auto
next
  case (JArr vs)
  obtain m where n: "n = Suc m" "sum_list (map (\<lambda>v. Suc (need v)) vs) \<le> m" using JArr.prems(2) by (cases n) auto
  have all: "json_ok v" if "v \<in> set vs" for v using JArr.prems(1) that by (auto simp: list_all_iff)
  show ?case
  proof (cases "vs = []")
    case False
    let ?items = "ws (Suc d) @ join (CHR '','' # ws (Suc d)) (map (render ws col (Suc d)) vs) @ ws d @ CHR '']'' # rest"
    have "read_items m ?items = Some (vs, rest)" by (rule read_items_render) (use JArr.IH all False n(2) in auto)
    moreover have "hd (skip ?items) \<noteq> CHR '']''"
      using join_hd [of "map (render ws col (Suc d)) vs" "CHR '','' # ws (Suc d)"] render_hd [of "Suc d" "hd vs"] False
      by (cases "join (CHR '','' # ws (Suc d)) (map (render ws col (Suc d)) vs)") (auto simp: skip_ws hd_map)
    ultimately show ?thesis using False by (simp add: n(1) bracket_def is_blank_def)
  qed (simp add: n(1) bracket_def is_blank_def)
next
  case (JObj fs)
  obtain m where n: "n = Suc m" "sum_list (map (\<lambda>(k, v). Suc (need v)) fs) \<le> m" using JObj.prems(2) by (cases n) auto
  have all: "valid_utf8 k" "json_ok v" if "(k, v) \<in> set fs" for k v using JObj.prems(1) that by (auto simp: list_all_iff)
  show ?case
  proof (cases "fs = []")
    case False
    let ?fields = "map (\<lambda>(k, v). quote k @ col @ render ws col (Suc d) v) fs"
    let ?items = "ws (Suc d) @ join (CHR '','' # ws (Suc d)) ?fields @ ws d @ CHR ''}'' # rest"
    have "read_fields m ?items = Some (fs, rest)" by (rule read_fields_render) (use JObj.IH all False n(2) in auto)
    moreover have "hd (skip ?items) \<noteq> CHR ''}''"
      using join_hd [of ?fields "CHR '','' # ws (Suc d)"] False
      by (cases "join (CHR '','' # ws (Suc d)) ?fields") (auto simp: skip_ws hd_map quote_def is_blank_def split: prod.splits)
    ultimately show ?thesis using False by (simp add: n(1) bracket_def is_blank_def)
  qed (simp add: n(1) bracket_def is_blank_def)
qed

lemma length_bracket: "Suc (sum_list (map (\<lambda>x. Suc (length x)) xs)) \<le> length (bracket ws d l r xs)"
proof -
  have "xs \<noteq> [] \<Longrightarrow> sum_list (map (\<lambda>x. Suc (length x)) xs) \<le> Suc (length (join (c # w) xs))" for c w
    by (induction "c # w" xs rule: join.induct) auto
  from this [of "CHR '',''" "ws (Suc d)"] show ?thesis by (cases "xs = []") (simp_all add: bracket_def)
qed

lemma need_render: "need v \<le> length (render ws col d v)"
proof (induction v arbitrary: d)
  case (JArr vs)
  then have "sum_list (map (\<lambda>v. Suc (need v)) vs) \<le> sum_list (map (\<lambda>v. Suc (length (render ws col (Suc d) v))) vs)"
    by (intro sum_list_mono) simp
  then show ?case using length_bracket [of "map (render ws col (Suc d)) vs" d "CHR ''[''" "CHR '']''"] by (simp add: comp_def)
next
  case (JObj fs)
  let ?item = "\<lambda>(k, v). quote k @ col @ render ws col (Suc d) v"
  have "Suc (need v) \<le> Suc (length (?item (k, v)))" if "(k, v) \<in> set fs" for k v
    using JObj.IH [of "(k, v)" v "Suc d"] that by auto
  then have "sum_list (map (\<lambda>(k, v). Suc (need v)) fs) \<le> sum_list (map (\<lambda>kv. Suc (length (?item kv))) fs)"
    by (intro sum_list_mono) auto
  then show ?case using length_bracket [of "map ?item fs" d "CHR ''{''" "CHR ''}''"] by (simp add: comp_def)
qed (auto simp: quote_def FormatInt_def Suc_le_eq)

lemma read_json_render: "json_ok v \<Longrightarrow> list_all is_blank w \<Longrightarrow> read_json (render ws col d v @ w) = Some v"
proof -
  assume "json_ok v" and w: "list_all is_blank w"
  moreover have "ends_value w" using w by (cases w) (auto simp: ends_value_def is_blank_def in_numeral_def is_digit_def)
  moreover have "need v \<le> length (render ws col d v @ w)" using need_render [of v d] by simp
  ultimately have "read_value (length (render ws col d v @ w)) (render ws col d v @ w) = Some (v, w)" using read_render by blast
  moreover have "skip w = []" using skip_blank [OF w, of "[]"] by (simp add: skip_def)
  ultimately show ?thesis by (simp add: read_json_def)
qed

end

interpretation compact: layout "\<lambda>d. []" "'':''"
  by unfold_locales simp_all

interpretation indented: layout "\<lambda>d. CHR 0x0A # replicate (2 * d) (CHR '' '')" "'': ''"
  by unfold_locales (auto simp: is_blank_def list_all_iff)

lemma read_Marshal: "json_ok v \<Longrightarrow> list_all is_blank w \<Longrightarrow> read_json (Marshal v @ w) = Some v"
  unfolding Marshal_def by (rule compact.read_json_render)

lemma read_MarshalIndent: "json_ok v \<Longrightarrow> read_json (MarshalIndent v) = Some v"
  using indented.read_json_render [of v "[]" 0] by (simp add: MarshalIndent_def)

text \<open>Bytes that are not UTF-8 come back as the replacement character.\<close>

lemma read_string: "read_json (Marshal (JStr s)) = Some (JStr (to_valid s))"
  using unescape_escape [of s "[]"]
  by (simp add: Marshal_def quote_def read_json_def is_blank_def read_scalar_def skip_def del: unescape.simps)

text \<open>A compact value is one line.\<close>

lemma join_printable: "list_all P sep \<Longrightarrow> list_all (list_all P) xs \<Longrightarrow> list_all P (join sep xs)"
  by (induction sep xs rule: join.induct) auto

lemma compact_printable: "list_all (\<lambda>c. 32 \<le> (of_char c :: nat)) (render (\<lambda>d. []) '':'' d v)"
proof (induction v arbitrary: d)
  case (JInt i)
  show ?case using FormatInt_numeral [of i] by (auto simp: list_all_iff in_numeral_def is_digit_def)
next
  case (JArr vs)
  have "list_all (\<lambda>c. 32 \<le> (of_char c :: nat)) (join '','' (map (render (\<lambda>d. []) '':'' (Suc d)) vs))"
    by (rule join_printable) (use JArr.IH in \<open>auto simp: list_all_iff\<close>)
  then show ?case by (simp add: bracket_def)
next
  case (JObj fs)
  have "list_all (\<lambda>c. 32 \<le> (of_char c :: nat)) (join '','' (map (\<lambda>(k, v). quote k @ '':'' @ render (\<lambda>d. []) '':'' (Suc d) v) fs))"
    by (rule join_printable) (use JObj.IH quote_printable in \<open>auto simp: list_all_iff\<close>)
  then show ?case by (simp add: bracket_def)
qed (use quote_printable in auto)

lemma Marshal_one_line: "CHR 0x0A \<notin> set (Marshal v)"
  using compact_printable [of 0 v] by (auto simp: Marshal_def list_all_iff)

subsection \<open>Fields of objects\<close>

text \<open>Optional fields (\<^verbatim>\<open>omitempty\<close>) when written, and fields when read: a missing one is the zero value.\<close>

definition str_field :: "string \<Rightarrow> string \<Rightarrow> (string \<times> json) list" where
  "str_field k s = (if s = [] then [] else [(k, JStr s)])"

definition int_field :: "string \<Rightarrow> int \<Rightarrow> (string \<times> json) list" where
  "int_field k i = (if i = 0 then [] else [(k, JInt i)])"

definition bool_field :: "string \<Rightarrow> bool \<Rightarrow> (string \<times> json) list" where
  "bool_field k b = (if b then [(k, JBool True)] else [])"

definition get_str :: "(string \<times> json) list \<Rightarrow> string \<Rightarrow> string" where
  "get_str fs k = (case map_of fs k of Some (JStr s) \<Rightarrow> s | _ \<Rightarrow> [])"

definition get_int :: "(string \<times> json) list \<Rightarrow> string \<Rightarrow> int" where
  "get_int fs k = (case map_of fs k of Some (JInt i) \<Rightarrow> i | _ \<Rightarrow> 0)"

definition get_bool :: "(string \<times> json) list \<Rightarrow> string \<Rightarrow> bool" where
  "get_bool fs k = (case map_of fs k of Some (JBool b) \<Rightarrow> b | _ \<Rightarrow> False)"

definition get_obj :: "(string \<times> json) list \<Rightarrow> string \<Rightarrow> (string \<times> json) list option" where
  "get_obj fs k = (case map_of fs k of Some (JObj gs) \<Rightarrow> Some gs | _ \<Rightarrow> None)"

definition get_strs :: "(string \<times> json) list \<Rightarrow> string \<Rightarrow> string list" where
  "get_strs fs k = (case map_of fs k of Some (JArr vs) \<Rightarrow> map (\<lambda>v. case v of JStr s \<Rightarrow> s | _ \<Rightarrow> []) vs | _ \<Rightarrow> [])"

lemmas json_getters = get_str_def get_int_def get_bool_def get_obj_def get_strs_def

lemma map_of_fields [simp]:
  "map_of (str_field k s @ fs) n = (if n = k \<and> s \<noteq> [] then Some (JStr s) else map_of fs n)"
  "map_of (int_field k i @ fs) n = (if n = k \<and> i \<noteq> 0 then Some (JInt i) else map_of fs n)"
  "map_of (bool_field k b @ fs) n = (if n = k \<and> b then Some (JBool True) else map_of fs n)"
  "map_of (str_field k s) n = (if n = k \<and> s \<noteq> [] then Some (JStr s) else None)"
  "map_of (int_field k i) n = (if n = k \<and> i \<noteq> 0 then Some (JInt i) else None)"
  by (auto simp: str_field_def int_field_def bool_field_def)

lemma fields_ok [simp]:
  "list_all (\<lambda>(k, v). valid_utf8 k \<and> json_ok v) (str_field k s) \<longleftrightarrow> s = [] \<or> valid_utf8 k \<and> valid_utf8 s"
  "list_all (\<lambda>(k, v). valid_utf8 k \<and> json_ok v) (int_field k i) \<longleftrightarrow> i = 0 \<or> valid_utf8 k \<and> minInt64 \<le> i \<and> i \<le> maxInt64"
  "list_all (\<lambda>(k, v). valid_utf8 k \<and> json_ok v) (bool_field k b) \<longleftrightarrow> \<not> b \<or> valid_utf8 k"
  by (auto simp: str_field_def int_field_def bool_field_def)

text \<open>ASCII is UTF-8.\<close>

definition ascii :: "string \<Rightarrow> bool" where
  "ascii s \<longleftrightarrow> list_all (\<lambda>c. (of_char c :: nat) < 128) s"

lemma ascii_valid: "ascii s \<Longrightarrow> valid_utf8 s"
proof (induction s)
  case (Cons b bs)
  then have "rune_len (b # bs) = 1" by (simp add: ascii_def rune_ranges_def)
  with Cons show ?case by (simp add: ascii_def valid_utf8_def escape_Cons(6) del: rune_len.simps)
qed (simp add: valid_utf8_def escape_Cons)

text \<open>\<^verbatim>\<open>time.Time\<close> is written as the string of its RFC 3339 text, for the years 0 to 9999.\<close>

lemma time_valid: "json_time t \<Longrightarrow> valid_utf8 (RFC3339Nano t)"
  by (rule ascii_valid) (use RFC3339Nano_chars in \<open>fastforce simp: ascii_def list_all_iff is_digit_def\<close>)

end
