(* ===== verification/Store_Text.thy ===== *)
theory Store_Text
  imports Json
begin

text \<open>
  The text of the approval store (\<^verbatim>\<open>internal/approval/filestore.go\<close>): \<^verbatim>\<open>save\<close> writes the map of records with
  \<^verbatim>\<open>json.MarshalIndent\<close>, keys sorted, and \<^verbatim>\<open>load\<close> reads it back. \<open>Approval_Store\<close> treats the file as the map
  itself; \<open>store_text_roundtrip\<close> is what justifies that.
\<close>

subsection \<open>Records as JSON\<close>

definition sorted_map :: "'v gomap \<Rightarrow> 'v gomap" where
  "sorted_map m = sort_key fst m"

definition params_json :: "string gomap \<Rightarrow> (string \<times> json) list" where
  "params_json m = (if m = [] then [] else [(''parameters'', JObj (map (\<lambda>(k, v). (k, JStr v)) (sorted_map m)))])"

definition ids_json :: "string list \<Rightarrow> (string \<times> json) list" where
  "ids_json ids = (if ids = [] then [] else [(''client_ids'', JArr (map JStr ids))])"

definition request_json :: "Request \<Rightarrow> json" where
  "request_json r = JObj (
     [(''id'', JStr (rq_ID r)), (''operation'', JStr (rq_Operation r)), (''case_id'', JStr (rq_CaseID r)),
      (''reason'', JStr (rq_Reason r)), (''requester'', JStr (rq_Requester r))]
     @ str_field ''client_id'' (rq_ClientID r) @ str_field ''artifact'' (rq_Artifact r) @ params_json (rq_Parameters r)
     @ str_field ''profile'' (rq_Profile r) @ str_field ''hunt_id'' (rq_HuntID r) @ str_field ''flow_id'' (rq_FlowID r)
     @ str_field ''upload_name'' (rq_UploadName r) @ ids_json (rq_ClientIDs r) @ str_field ''label'' (rq_Label r)
     @ bool_field ''target_all'' (rq_TargetAll r) @ [(''created_at'', JStr (RFC3339Nano (rq_CreatedAt r)))])"

definition decision_json :: "Decision \<Rightarrow> json" where
  "decision_json d = JObj (
     [(''request_id'', JStr (dc_RequestID d)), (''approved'', JBool (dc_Approved d)), (''approved_by'', JStr (dc_ApprovedBy d)),
      (''decided_at'', JStr (RFC3339Nano (dc_DecidedAt d)))]
     @ str_field ''note'' (dc_Note d))"

definition record_json :: "approval_record \<Rightarrow> json" where
  "record_json rec = JObj (
     [(''request'', request_json (rc_Request rec))]
     @ (case rc_Decision rec of None \<Rightarrow> [] | Some d \<Rightarrow> [(''decision'', decision_json d)])
     @ [(''consumed'', JBool (rc_Consumed rec))])"

definition store_text :: "approval_record gomap \<Rightarrow> string" where
  "store_text m = MarshalIndent (JObj (map (\<lambda>(k, rec). (k, record_json rec)) (sorted_map m)))"

subsection \<open>Reading records\<close>

definition params_of :: "(string \<times> json) list \<Rightarrow> string gomap" where
  "params_of fs = (case get_obj fs ''parameters'' of None \<Rightarrow> [] | Some gs \<Rightarrow> map (\<lambda>(k, v). (k, case v of JStr s \<Rightarrow> s | _ \<Rightarrow> [])) gs)"

definition request_of :: "(string \<times> json) list \<Rightarrow> Request" where
  "request_of fs = \<lparr>rq_ID = get_str fs ''id'', rq_Operation = get_str fs ''operation'', rq_CaseID = get_str fs ''case_id'',
     rq_Reason = get_str fs ''reason'', rq_Requester = get_str fs ''requester'', rq_ClientID = get_str fs ''client_id'',
     rq_Artifact = get_str fs ''artifact'', rq_Parameters = params_of fs, rq_Profile = get_str fs ''profile'',
     rq_HuntID = get_str fs ''hunt_id'', rq_FlowID = get_str fs ''flow_id'', rq_UploadName = get_str fs ''upload_name'',
     rq_ClientIDs = get_strs fs ''client_ids'', rq_Label = get_str fs ''label'', rq_TargetAll = get_bool fs ''target_all'',
     rq_CreatedAt = ParseTime (get_str fs ''created_at'')\<rparr>"

definition decision_of :: "(string \<times> json) list \<Rightarrow> Decision" where
  "decision_of fs = \<lparr>dc_RequestID = get_str fs ''request_id'', dc_Approved = get_bool fs ''approved'',
     dc_ApprovedBy = get_str fs ''approved_by'', dc_DecidedAt = ParseTime (get_str fs ''decided_at''), dc_Note = get_str fs ''note''\<rparr>"

definition record_of :: "json \<Rightarrow> approval_record option" where
  "record_of v =
     (case v of
        JObj fs \<Rightarrow> map_option (\<lambda>gs. \<lparr>rc_Request = request_of gs, rc_Decision = map_option decision_of (get_obj fs ''decision''),
                               rc_Consumed = get_bool fs ''consumed''\<rparr>) (get_obj fs ''request'')
      | _ \<Rightarrow> None)"

definition read_store :: "string \<Rightarrow> approval_record gomap option" where
  "read_store s =
     (case read_json s of
        Some (JObj fs) \<Rightarrow> those (map (\<lambda>(k, v). map_option (Pair k) (record_of v)) fs)
      | _ \<Rightarrow> None)"

text \<open>A record as it comes back: the same, with its parameters sorted.\<close>

definition canonical :: "approval_record \<Rightarrow> approval_record" where
  "canonical rec = rec\<lparr>rc_Request := (rc_Request rec)\<lparr>rq_Parameters := sorted_map (rq_Parameters (rc_Request rec))\<rparr>\<rparr>"

definition request_ok :: "Request \<Rightarrow> bool" where
  "request_ok r \<longleftrightarrow> json_time (rq_CreatedAt r) \<and> list_all valid_utf8 (rq_ClientIDs r)
     \<and> list_all (\<lambda>(k, v). valid_utf8 k \<and> valid_utf8 v) (rq_Parameters r)
     \<and> list_all valid_utf8 [rq_ID r, rq_Operation r, rq_CaseID r, rq_Reason r, rq_Requester r, rq_ClientID r, rq_Artifact r, rq_Profile r,
         rq_HuntID r, rq_FlowID r, rq_UploadName r, rq_Label r]"

definition decision_ok :: "Decision \<Rightarrow> bool" where
  "decision_ok d \<longleftrightarrow> json_time (dc_DecidedAt d) \<and> list_all valid_utf8 [dc_RequestID d, dc_ApprovedBy d, dc_Note d]"

definition record_ok :: "approval_record \<Rightarrow> bool" where
  "record_ok rec \<longleftrightarrow> request_ok (rc_Request rec) \<and> (case rc_Decision rec of None \<Rightarrow> True | Some d \<Rightarrow> decision_ok d)"

subsection \<open>The round trip\<close>

lemma sorted_map_simps [simp]: "set (sorted_map m) = set m" "sorted_map m = [] \<longleftrightarrow> m = []"
  unfolding sorted_map_def by simp (metis length_0_conv length_sort)

lemma sorted_map_wf: "wf_gomap m \<Longrightarrow> wf_gomap (sorted_map m)"
  unfolding wf_gomap_def sorted_map_def by (metis distinct_map distinct_sort set_sort)

lemma map_of_sorted_map: "wf_gomap m \<Longrightarrow> map_of (sorted_map m) = map_of m"
  using sorted_map_wf [of m] by (intro map_of_eqI) (auto simp: wf_gomap_def map_of_eq_Some_iff)

lemma map_of_lists [simp]:
  "map_of (params_json m @ fs) n = (if n = ''parameters'' \<and> m \<noteq> [] then Some (JObj (map (\<lambda>(k, v). (k, JStr v)) (sorted_map m))) else map_of fs n)"
  "map_of (ids_json ids @ fs) n = (if n = ''client_ids'' \<and> ids \<noteq> [] then Some (JArr (map JStr ids)) else map_of fs n)"
  by (auto simp: params_json_def ids_json_def)

lemma sorted_map_Nil [simp]: "sorted_map [] = []"
  by (simp add: sorted_map_def)

lemma request_back:
  assumes "json_time (rq_CreatedAt r)" and "request_json r = JObj fs"
  shows "request_of fs = r\<lparr>rq_Parameters := sorted_map (rq_Parameters r)\<rparr>"
proof -
  have fs: "fs = (case request_json r of JObj fs \<Rightarrow> fs | _ \<Rightarrow> [])" using assms(2) by simp
  show ?thesis unfolding fs
    by (simp add: request_of_def request_json_def json_getters params_of_def ParseTime_Format [OF assms(1)] comp_def case_prod_unfold del: map_of_append)
qed

lemma decision_back:
  assumes "json_time (dc_DecidedAt d)" and "decision_json d = JObj fs"
  shows "decision_of fs = d"
proof -
  have fs: "fs = (case decision_json d of JObj fs \<Rightarrow> fs | _ \<Rightarrow> [])" using assms(2) by simp
  show ?thesis unfolding fs by (simp add: decision_of_def decision_json_def json_getters ParseTime_Format [OF assms(1)] del: map_of_append)
qed

lemma request_json_ok: "request_ok r \<Longrightarrow> json_ok (request_json r)"
  by (auto simp: time_valid request_json_def request_ok_def params_json_def ids_json_def ascii_valid ascii_def list_all_iff case_prod_unfold
      str_field_def bool_field_def)

lemma decision_json_ok: "decision_ok d \<Longrightarrow> json_ok (decision_json d)"
  by (simp add: time_valid decision_json_def decision_ok_def ascii_valid ascii_def)

lemma record_json_ok: "record_ok rec \<Longrightarrow> json_ok (record_json rec)"
  by (simp add: record_json_def record_ok_def request_json_ok decision_json_ok ascii_valid ascii_def split: option.splits)

lemma record_back:
  assumes "record_ok rec" shows "record_of (record_json rec) = Some (canonical rec)"
proof -
  obtain fs where fs: "request_json (rc_Request rec) = JObj fs" by (simp add: request_json_def)
  have "request_of fs = (rc_Request rec)\<lparr>rq_Parameters := sorted_map (rq_Parameters (rc_Request rec))\<rparr>"
    by (rule request_back [OF _ fs]) (use assms in \<open>simp add: record_ok_def request_ok_def\<close>)
  moreover have "decision_of gs = d" if "rc_Decision rec = Some d" "decision_json d = JObj gs" for d gs
    by (rule decision_back [OF _ that(2)]) (use assms that in \<open>simp add: record_ok_def decision_ok_def\<close>)
  moreover have "\<exists>gs. decision_json d = JObj gs" for d by (simp add: decision_json_def)
  ultimately show ?thesis
    by (cases "rc_Decision rec") (fastforce simp: record_of_def record_json_def canonical_def get_obj_def get_bool_def fs)+
qed

lemma those_Some: "list_all (\<lambda>x. f x = Some (g x)) xs \<Longrightarrow> those (map f xs) = Some (map g xs)"
  by (induction xs) simp_all

lemma canonical_fingerprint:
  assumes "wf_gomap (rq_Parameters (rc_Request rec))"
  shows "RequestFingerprint (rc_Request (canonical rec)) = RequestFingerprint (rc_Request rec)"
proof -
  have "same_target (rc_Request (canonical rec)) (rc_Request rec)"
    using map_of_sorted_map [OF assms] by (simp add: same_target_def canonical_def)
  then have "fingerprint_preimage (rc_Request (canonical rec)) = fingerprint_preimage (rc_Request rec)"
    using preimage_eq_iff sorted_map_wf [OF assms] assms by (simp add: canonical_def)
  then show ?thesis by (simp add: RequestFingerprint_def)
qed

lemma read_store_text:
  assumes "list_all (\<lambda>(k, rec). valid_utf8 k \<and> record_ok rec) m"
  shows "read_store (store_text m) = Some (map (\<lambda>(k, rec). (k, canonical rec)) (sorted_map m))"
proof -
  let ?fs = "map (\<lambda>(k, rec). (k, record_json rec)) (sorted_map m)"
  have "json_ok (JObj ?fs)" using assms record_json_ok by (auto simp: list_all_iff)
  then have "read_json (store_text m) = Some (JObj ?fs)" unfolding store_text_def by (rule read_MarshalIndent)
  moreover have "those (map (\<lambda>(k, rec). map_option (Pair k) (record_of (record_json rec))) (sorted_map m))
      = Some (map (\<lambda>(k, rec). (k, canonical rec)) (sorted_map m))"
    by (rule those_Some) (use assms record_back in \<open>auto simp: list_all_iff\<close>)
  ultimately show ?thesis by (simp add: read_store_def comp_def case_prod_unfold)
qed

lemma map_of_canonical: "map_of (map (\<lambda>(k, rec). (k, f rec)) m) k = map_option f (map_of m k)"
  by (induction m) auto


lemma sample_record_ok: "record_ok sample_record" "wf_gomap (rq_Parameters (rc_Request sample_record))"
  by (simp_all add: record_ok_def request_ok_def decision_ok_def sample_record_def sample_request_def sample_decision_def zeroRequest_def
      OperationCollectArtifact_def json_time_def second_def ascii_valid ascii_def)


subsection \<open>A store stays readable\<close>

text \<open>The hypotheses of the round trip are kept by every operation, succeeding or not, whose texts are UTF-8, while the
  clock shows a year that has a text.\<close>

definition readable :: "records \<Rightarrow> bool" where
  "readable m \<longleftrightarrow> (\<forall>k rec. m k = Some rec \<longrightarrow> valid_utf8 k \<and> record_ok rec \<and> wf_gomap (rq_Parameters (rc_Request rec)))"

fun op_ok :: "store_op \<Rightarrow> bool" where
  "op_ok (OpCreate q) \<longleftrightarrow> request_ok q \<and> wf_gomap (rq_Parameters q)"
| "op_ok (OpDecide d) \<longleftrightarrow> decision_ok d"
| "op_ok (OpConsume i) \<longleftrightarrow> True"

lemma Create_request_ok:
  assumes "FileStore_Create env fs q s = (s', Inr q')" and "\<And>n. json_time (se_now env n)" and "request_ok q"
  shows "request_ok q' \<and> rq_ID q' = rq_ID q \<and> rq_Parameters q' = rq_Parameters q"
proof -
  have "withLock env fs (create_section env q) s = (s', Inr q')" using assms(1) by (auto simp: FileStore_Create_def split: if_splits)
  then show ?thesis
    using assms(2,3) by (cases rule: withLock_cases)
      (auto simp: create_section_def Let_def request_ok_def split: if_splits prod.splits option.splits)
qed

lemma Decide_decision_ok:
  assumes "FileStore_Decide env fs d s = (s', Inr ())" and "\<And>n. json_time (se_now env n)" and "decision_ok d"
  shows "\<exists>rec d'. records_at s (dc_RequestID d) = Some rec \<and> decision_ok d'
    \<and> records_at s' = (records_at s)(dc_RequestID d \<mapsto> rec\<lparr>rc_Decision := Some d'\<rparr>)"
proof -
  have "withLock env fs (decide_section env d) s = (s', Inr ())" using assms(1) by (auto simp: FileStore_Decide_def split: if_splits)
  then show ?thesis
  proof (cases rule: withLock_cases)
    case (ran s3)
    define d1 where "d1 = (if dc_DecidedAt d = zero_time then d\<lparr>dc_DecidedAt := se_now env (ss_tick s3)\<rparr> else d)"
    have "decision_ok d1" using assms(2,3) by (simp add: d1_def decision_ok_def)
    then show ?thesis
      using ran(2) [unfolded decide_section_def Let_def, folded d1_def]
      by (auto split: if_splits prod.splits option.splits dest!: save_ok_records)
  qed simp
qed

lemma readable_update:
  "readable m \<Longrightarrow> valid_utf8 k \<Longrightarrow> record_ok rec \<Longrightarrow> wf_gomap (rq_Parameters (rc_Request rec)) \<Longrightarrow> readable (m(k \<mapsto> rec))"
  by (simp add: readable_def)

lemma readable_lookup:
  "readable m \<Longrightarrow> m k = Some rec \<Longrightarrow> valid_utf8 k \<and> record_ok rec \<and> wf_gomap (rq_Parameters (rc_Request rec))"
  by (simp add: readable_def)

lemma Create_readable:
  assumes "FileStore_Create env fs q s = (s', Inr q')" and "\<And>n. json_time (se_now env n)" and "op_ok (OpCreate q)" and "readable (records_at s)"
  shows "readable (records_at s')"
proof -
  have "request_ok q' \<and> rq_ID q' = rq_ID q \<and> rq_Parameters q' = rq_Parameters q"
    using Create_request_ok [OF assms(1,2)] assms(3) by simp
  moreover have "valid_utf8 (rq_ID q)" using assms(3) by (simp add: request_ok_def)
  ultimately show ?thesis
    using fstore.create_ok [OF assms(1)] assms(3,4) by (auto simp: record_ok_def intro: readable_update)
qed

lemma Decide_readable:
  assumes "FileStore_Decide env fs d s = (s', Inr ())" and "\<And>n. json_time (se_now env n)" and "decision_ok d" and "readable (records_at s)"
  shows "readable (records_at s')"
  using Decide_decision_ok [OF assms(1,2,3)] readable_lookup [OF assms(4)] assms(4)
  by (auto simp: record_ok_def intro!: readable_update)

lemma Consume_readable:
  assumes "FileStore_Consume env fs i s = (s', Inr ())" and "readable (records_at s)"
  shows "readable (records_at s')"
  using FileStore_Consume_ok [OF assms(1)] readable_lookup [OF assms(2)] assms(2)
  by (auto simp: record_ok_def intro!: readable_update)

lemma step_readable:
  assumes "\<And>n. json_time (se_now env n)" and "op_ok op" and "readable (records_at s)"
  shows "readable (records_at (fst (FileStore_step env fs op s)))"
proof (cases op)
  case (OpCreate q)
  show ?thesis using assms Create_readable [of env fs q s] fstore.create_fail [of env fs q s]
    by (cases "FileStore_Create env fs q s") (auto simp: OpCreate FileStore_step_def store_step_def split: sum.split)
next
  case (OpDecide d)
  show ?thesis using assms Decide_readable [of env fs d s] fstore.decide_fail [of env fs d s]
    by (cases "FileStore_Decide env fs d s") (auto simp: OpDecide FileStore_step_def store_step_def split: sum.split)
next
  case (OpConsume i)
  show ?thesis using assms(3) Consume_readable [of env fs i s] fstore.consume_fail [of env fs i s]
    by (cases "FileStore_Consume env fs i s") (auto simp: OpConsume FileStore_step_def store_step_def split: sum.split)
qed

lemma history_readable:
  assumes "\<And>n. json_time (se_now env n)"
  shows "list_all op_ok ops \<Longrightarrow> readable (records_at s) \<Longrightarrow> readable (records_at (fst (run_ops (FileStore_step env fs) ops s)))"
proof (induction ops arbitrary: s)
  case (Cons op ops)
  then show ?case using step_readable [OF assms, of op s fs]
    by (cases "FileStore_step env fs op s") (auto split: prod.splits dest: Cons.IH)
qed simp

end
