(* ===== verification/Store_Spec.thy ===== *)
theory Store_Spec
  imports Approval_Store
begin

text \<open>
  What an approval store promises, without files, locks, clocks or failures: each reference runs
  through the life cycle absent, pending, approved or denied, used. \<open>spec_step\<close> is the step
  relation over outcomes of operations and \<open>spec_run\<close> its closure over a history.

  \<open>lifecycle_store\<close> derives from the \<^verbatim>\<open>Store\<close> contract that a store's histories are histories of
  the specification; \<open>store_refines_lifecycle\<close> states it for \<^verbatim>\<open>FileStore\<close>.
  \<open>approved_means_decided\<close> reads off what an approval proves about the past.
\<close>

subsection \<open>The life cycle\<close>

datatype phase = Absent | Pending Request | Decided Request bool | Used Request

text \<open>The creation time is set by the store, so the specification compares requests without it.\<close>

definition untimed :: "Request \<Rightarrow> Request" where
  "untimed q = q\<lparr>rq_CreatedAt := zero_time\<rparr>"

definition stated :: "Request \<Rightarrow> bool" where
  "stated q \<longleftrightarrow> rq_ID q \<noteq> [] \<and> rq_CaseID q \<noteq> [] \<and> rq_Reason q \<noteq> [] \<and> rq_Requester q \<noteq> []"

type_synonym lifecycle = "string \<Rightarrow> phase"

inductive spec_step :: "lifecycle \<Rightarrow> store_op \<times> bool \<Rightarrow> lifecycle \<Rightarrow> bool" where
  refused: "spec_step a (op, False) a"
| created: "a (rq_ID q) = Absent \<Longrightarrow> stated q \<Longrightarrow> spec_step a (OpCreate q, True) (a(rq_ID q := Pending (untimed q)))"
| decided: "a (dc_RequestID d) = Pending r \<Longrightarrow> dc_ApprovedBy d \<noteq> [] \<Longrightarrow>
    spec_step a (OpDecide d, True) (a(dc_RequestID d := Decided r (dc_Approved d)))"
| decided_late: "a (dc_RequestID d) = Used r \<Longrightarrow> dc_ApprovedBy d \<noteq> [] \<Longrightarrow> spec_step a (OpDecide d, True) a"
| used_pending: "a i = Pending r \<Longrightarrow> spec_step a (OpConsume i, True) (a(i := Used r))"
| used_decided: "a i = Decided r b \<Longrightarrow> spec_step a (OpConsume i, True) (a(i := Used r))"

inductive spec_run :: "lifecycle \<Rightarrow> (store_op \<times> bool) list \<Rightarrow> lifecycle \<Rightarrow> bool" where
  run_nil: "spec_run a [] a"
| run_cons: "spec_step a l b \<Longrightarrow> spec_run b log c \<Longrightarrow> spec_run a (l # log) c"

inductive_cases spec_run_NilE: "spec_run a [] c"
inductive_cases spec_run_ConsE: "spec_run a (l # log) c"
inductive_cases spec_step_createE: "spec_step a (OpCreate q, True) b"
inductive_cases spec_step_consumeE: "spec_step a (OpConsume i, True) b"

inductive_simps spec_run_Nil [simp]: "spec_run a [] c"
inductive_simps spec_run_Cons: "spec_run a (l # log) c"

lemma spec_run_snoc: "spec_run a log b \<Longrightarrow> spec_step b l c \<Longrightarrow> spec_run a (log @ [l]) c"
  by (induction rule: spec_run.induct) (auto intro: spec_run.intros)

subsection \<open>Abstraction\<close>

text \<open>The phase a record stands for.\<close>

definition phase_of :: "approval_record option \<Rightarrow> phase" where
  "phase_of r = (case r of
     None \<Rightarrow> Absent
   | Some rec \<Rightarrow>
       if rc_Consumed rec then Used (untimed (rc_Request rec))
       else case rc_Decision rec of
         None \<Rightarrow> Pending (untimed (rc_Request rec))
       | Some d \<Rightarrow> Decided (untimed (rc_Request rec)) (dc_Approved d))"

definition lifecycle_of :: "records \<Rightarrow> lifecycle" where
  "lifecycle_of m = (\<lambda>i. phase_of (m i))"

lemma lifecycle_of_upd: "lifecycle_of (m(i \<mapsto> rec)) = (lifecycle_of m)(i := phase_of (Some rec))"
  by (auto simp: lifecycle_of_def)

lemma lifecycle_of_apply: "lifecycle_of m i = phase_of (m i)"
  by (simp add: lifecycle_of_def)

text \<open>A store whose decision is the one it was given, up to the time it sets.\<close>

locale lifecycle_store = approval_store +
  assumes create_keeps: "create q s = (s', Inr q') \<Longrightarrow> untimed q' = untimed q \<and> stated q"
    and decide_as_asked: "decide d s = (s', Inr u) \<Longrightarrow> \<exists>rec dec. recs s (dc_RequestID d) = Some rec
      \<and> rc_Decision rec = None \<and> recs s' = (recs s)(dc_RequestID d \<mapsto> rec\<lparr>rc_Decision := Some dec\<rparr>)
      \<and> dc_Approved dec = dc_Approved d \<and> dc_ApprovedBy d \<noteq> []"
begin

lemma create_refines:
  assumes "create q s = (s', Inr q')"
  shows "spec_step (lifecycle_of (recs s)) (OpCreate q, True) (lifecycle_of (recs s'))"
proof -
  have "lifecycle_of (recs s') = (lifecycle_of (recs s))(rq_ID q := Pending (untimed q))"
    using create_ok [OF assms] create_keeps [OF assms] by (simp add: lifecycle_of_upd phase_of_def)
  moreover have "lifecycle_of (recs s) (rq_ID q) = Absent"
    using create_ok [OF assms] by (simp add: lifecycle_of_apply phase_of_def)
  ultimately show ?thesis using spec_step.created create_keeps [OF assms] by simp
qed

lemma decide_refines:
  assumes "decide d s = (s', Inr u)"
  shows "spec_step (lifecycle_of (recs s)) (OpDecide d, True) (lifecycle_of (recs s'))"
proof -
  obtain rec dec where r: "recs s (dc_RequestID d) = Some rec" "rc_Decision rec = None" "dc_Approved dec = dc_Approved d"
    "dc_ApprovedBy d \<noteq> []" and s': "recs s' = (recs s)(dc_RequestID d \<mapsto> rec\<lparr>rc_Decision := Some dec\<rparr>)"
    using decide_as_asked [OF assms] by blast
  have upd: "lifecycle_of (recs s') = (lifecycle_of (recs s))(dc_RequestID d := phase_of (Some (rec\<lparr>rc_Decision := Some dec\<rparr>)))"
    by (simp only: s' lifecycle_of_upd)
  show ?thesis
  proof (cases "rc_Consumed rec")
    case True
    then have u: "lifecycle_of (recs s) (dc_RequestID d) = Used (untimed (rc_Request rec))"
      using r by (simp add: lifecycle_of_apply phase_of_def)
    then have "lifecycle_of (recs s') = lifecycle_of (recs s)"
      unfolding upd using True by (simp add: phase_of_def fun_upd_idem)
    then show ?thesis using spec_step.decided_late [of "lifecycle_of (recs s)" d] u r(4) by simp
  next
    case False
    then have "lifecycle_of (recs s) (dc_RequestID d) = Pending (untimed (rc_Request rec))"
      using r by (simp add: lifecycle_of_apply phase_of_def)
    from spec_step.decided [of "lifecycle_of (recs s)" d, OF this r(4)] show ?thesis
      unfolding upd using False r(3) by (simp add: phase_of_def)
  qed
qed

lemma consume_refines:
  assumes "consume i s = (s', Inr u)"
  shows "spec_step (lifecycle_of (recs s)) (OpConsume i, True) (lifecycle_of (recs s'))"
proof -
  obtain rec where r: "recs s i = Some rec" "\<not> rc_Consumed rec" and s': "recs s' = (recs s)(i \<mapsto> rec\<lparr>rc_Consumed := True\<rparr>)"
    using consume_ok [OF assms] by blast
  have upd: "lifecycle_of (recs s') = (lifecycle_of (recs s))(i := Used (untimed (rc_Request rec)))"
    by (simp only: s' lifecycle_of_upd) (simp add: phase_of_def)
  have "lifecycle_of (recs s) i = (case rc_Decision rec of None \<Rightarrow> Pending (untimed (rc_Request rec))
      | Some d \<Rightarrow> Decided (untimed (rc_Request rec)) (dc_Approved d))"
    using r by (simp add: lifecycle_of_apply phase_of_def)
  then show ?thesis unfolding upd
    by (cases "rc_Decision rec") (simp_all add: spec_step.used_pending spec_step.used_decided)
qed

lemma step_refines:
  assumes "store_step create decide consume op s = (s', ok)"
  shows "spec_step (lifecycle_of (recs s)) (op, ok) (lifecycle_of (recs s'))"
proof (cases ok)
  case True
  with assms show ?thesis
    by (cases op) (auto simp: store_step_def split: prod.splits sum.splits
        intro: create_refines decide_refines consume_refines)
next
  case False
  then have "recs s' = recs s"
    using assms by (auto simp: store_step_def split: store_op.splits prod.splits sum.splits
        dest: create_fail decide_fail consume_fail)
  with False show ?thesis by (simp add: spec_step.refused)
qed

lemma run_refines:
  "run_ops (store_step create decide consume) ops s = (s', log) \<Longrightarrow>
   spec_run (lifecycle_of (recs s)) log (lifecycle_of (recs s'))"
proof (induction ops arbitrary: s log)
  case (Cons op ops)
  then obtain s1 ok log1 where 1: "store_step create decide consume op s = (s1, ok)"
    and 2: "run_ops (store_step create decide consume) ops s1 = (s', log1)" and log: "log = (op, ok) # log1"
    by (auto split: prod.splits)
  show ?case unfolding log by (rule spec_run.run_cons [OF step_refines [OF 1] Cons.IH [OF 2]])
qed simp

end

interpretation fstore_lifecycle: lifecycle_store records_at "FileStore_Create env fs" "FileStore_Decide env fs"
  "FileStore_Consume env fs" for env fs
proof unfold_locales
  fix q s s' q' assume "FileStore_Create env fs q s = (s', Inr q')"
  from FileStore_Create_ok [OF this] show "untimed q' = untimed q \<and> stated q" by (auto simp: untimed_def stated_def)
next
  fix d s s' and u :: unit assume "FileStore_Decide env fs d s = (s', Inr u)"
  then have "FileStore_Decide env fs d s = (s', Inr ())" by simp
  then obtain rec t where "records_at s (dc_RequestID d) = Some rec" "rc_Decision rec = None" "dc_ApprovedBy d \<noteq> []"
    "records_at s' = (records_at s)(dc_RequestID d \<mapsto> rec\<lparr>rc_Decision := Some (d\<lparr>dc_DecidedAt := t\<rparr>)\<rparr>)"
    using FileStore_Decide_ok by blast
  then show "\<exists>rec dec. records_at s (dc_RequestID d) = Some rec
      \<and> rc_Decision rec = None \<and> records_at s' = (records_at s)(dc_RequestID d \<mapsto> rec\<lparr>rc_Decision := Some dec\<rparr>)
      \<and> dc_Approved dec = dc_Approved d \<and> dc_ApprovedBy d \<noteq> []"
    by (intro exI [of _ rec] exI [of _ "d\<lparr>dc_DecidedAt := t\<rparr>"]) simp
qed


subsection \<open>What an approval says about the past\<close>

lemma step_to_pending:
  "spec_step a l b \<Longrightarrow> b i = Pending r \<Longrightarrow> a i = Pending r
   \<or> (\<exists>q. l = (OpCreate q, True) \<and> rq_ID q = i \<and> untimed q = r \<and> stated q)"
  by (induction rule: spec_step.induct) (simp_all split: if_splits)

lemma step_to_decided:
  "spec_step a l b \<Longrightarrow> b i = Decided r v \<Longrightarrow> a i = Decided r v
   \<or> (\<exists>d. l = (OpDecide d, True) \<and> a i = Pending r \<and> dc_RequestID d = i \<and> dc_Approved d = v \<and> dc_ApprovedBy d \<noteq> [])"
  by (induction rule: spec_step.induct) (simp_all split: if_splits)

lemma pending_created:
  "spec_run a log c \<Longrightarrow> c i = Pending r \<Longrightarrow> a i = Pending r \<or>
   (\<exists>q l1 l2. log = l1 @ (OpCreate q, True) # l2 \<and> rq_ID q = i \<and> untimed q = r \<and> stated q)"
proof (induction rule: spec_run.induct)
  case (run_cons a l b log c)
  from run_cons.IH [OF run_cons.prems] show ?case
  proof (elim disjE exE conjE)
    fix q l1 l2 assume "log = l1 @ (OpCreate q, True) # l2" and q: "rq_ID q = i" "untimed q = r" "stated q"
    then have "l # log = (l # l1) @ (OpCreate q, True) # l2" by simp
    with q show ?thesis by blast
  next
    assume p: "b i = Pending r"
    show ?thesis
    proof (cases "a i = Pending r")
      case False
      then obtain q where "l = (OpCreate q, True)" "rq_ID q = i" "untimed q = r" "stated q"
        using step_to_pending [OF run_cons.hyps(1) p] by blast
      then have "l # log = [] @ (OpCreate q, True) # log \<and> rq_ID q = i \<and> untimed q = r \<and> stated q" by simp
      then show ?thesis by blast
    qed simp
  qed
qed simp

lemma decided_by:
  "spec_run a log c \<Longrightarrow> c i = Decided r b \<Longrightarrow> a i = Decided r b \<or>
   (\<exists>l1 d l2 mid. log = l1 @ (OpDecide d, True) # l2 \<and> spec_run a l1 mid \<and> mid i = Pending r
      \<and> dc_RequestID d = i \<and> dc_Approved d = b \<and> dc_ApprovedBy d \<noteq> [])"
proof (induction rule: spec_run.induct)
  case (run_cons a l a' log c)
  from run_cons.IH [OF run_cons.prems] show ?case
  proof (elim disjE exE conjE)
    fix l1 d l2 mid assume "log = l1 @ (OpDecide d, True) # l2" "spec_run a' l1 mid" "mid i = Pending r"
      and d: "dc_RequestID d = i" "dc_Approved d = b" "dc_ApprovedBy d \<noteq> []"
    then have "l # log = (l # l1) @ (OpDecide d, True) # l2" "spec_run a (l # l1) mid"
      using spec_run.run_cons [OF run_cons.hyps(1)] by simp_all
    with d \<open>mid i = Pending r\<close> show ?thesis by blast
  next
    assume d: "a' i = Decided r b"
    show ?thesis
    proof (cases "a i = Decided r b")
      case False
      then obtain d where "l = (OpDecide d, True)" "a i = Pending r" "dc_RequestID d = i"
        "dc_Approved d = b" "dc_ApprovedBy d \<noteq> []"
        using step_to_decided [OF run_cons.hyps(1) d] by blast
      then have "l # log = [] @ (OpDecide d, True) # log \<and> spec_run a [] a \<and> a i = Pending r
          \<and> dc_RequestID d = i \<and> dc_Approved d = b \<and> dc_ApprovedBy d \<noteq> []" by simp
      then show ?thesis by blast
    qed simp
  qed
qed simp

lemma used_stays: "spec_step a l b \<Longrightarrow> a i = Used r \<Longrightarrow> b i = Used r"
  by (induction rule: spec_step.induct) auto

lemma used_after_consume:
  "spec_run a log c \<Longrightarrow> (OpConsume i, True) \<in> set log \<or> (\<exists>r. a i = Used r) \<Longrightarrow> \<exists>r. c i = Used r"
proof (induction rule: spec_run.induct)
  case (run_cons a l b log c)
  have "(OpConsume i, True) \<in> set log \<or> (\<exists>r. b i = Used r)"
    using run_cons.prems run_cons.hyps(1) used_stays [OF run_cons.hyps(1)] by (auto elim: spec_step_consumeE)
  then show ?case by (rule run_cons.IH)
qed simp

lemma IsApproved_phase:
  assumes "FileStore_IsApproved env fs i s = (s', Inr True)"
  shows "\<exists>r. lifecycle_of (records_at s) i = Decided r True"
proof -
  obtain st s1 where "FileStore_Get env fs i s = (s1, Inr st)" "\<not> st_Consumed st" "case st_Decision st of None \<Rightarrow> False | Some d \<Rightarrow> dc_Approved d"
    using assms by (auto simp: FileStore_IsApproved_def split: prod.splits sum.splits if_splits option.splits)
  with FileStore_Get_ok [of env fs i s s1 st] show ?thesis
    by (auto simp: lifecycle_of_def phase_of_def split: option.splits)
qed


definition empty_store :: store_state where
  "empty_store = \<lparr>ss_tick = 0, ss_file = Some \<lparr>sf_perm = mode0600, sf_content = Recs Map.empty\<rparr>\<rparr>"

definition sample_FileStore :: FileStore where
  "sample_FileStore = \<lparr>fst_path = ''p'', fst_ttl = 900\<rparr>"

lemma sample_history_approved:
  "\<exists>s'. FileStore_IsApproved calm_env sample_FileStore ''REF-1'' (fst (run_ops (FileStore_step calm_env sample_FileStore)
     [OpCreate sample_request, OpDecide sample_decision] empty_store)) = (s', Inr True)"
proof -
  have quiet: "quiet calm_env" by (simp add: quiet_def calm_env_def)
  have "holds Map.empty empty_store" by (simp add: holds_def empty_store_def perm_too_open_def)
  then obtain s1 q' where 1: "FileStore_Create calm_env sample_FileStore sample_request empty_store = (s1, Inr q')" "rq_CreatedAt q' = 1000"
    and h1: "holds [''REF-1'' \<mapsto> \<lparr>rc_Request = q', rc_Decision = None, rc_Consumed = False\<rparr>] s1"
    using Create_quiet [OF quiet, of Map.empty empty_store sample_request sample_FileStore]
    by (auto simp: sample_request_def zeroRequest_def calm_env_def)
  obtain s2 d' where 2: "FileStore_Decide calm_env sample_FileStore sample_decision s1 = (s2, Inr ())" "dc_Approved d'"
    and h2: "holds [''REF-1'' \<mapsto> \<lparr>rc_Request = q', rc_Decision = Some d', rc_Consumed = False\<rparr>] s2"
    using Decide_quiet [OF quiet h1, of sample_decision _ sample_FileStore] by (force simp: sample_decision_def)
  have "fst (run_ops (FileStore_step calm_env sample_FileStore) [OpCreate sample_request, OpDecide sample_decision] empty_store) = s2"
    using 1 2 by (simp add: FileStore_step_def store_step_def)
  then show ?thesis using IsApproved_quiet [OF quiet h2, of "''REF-1''" _ sample_FileStore] 1(2) 2(2)
    by (auto simp: calm_env_def Since_def minInt64_def maxInt64_def sample_FileStore_def)
qed


end
