(* ===== verification/Sha256_Test.thy ===== *)
theory Sha256_Test
  imports Sha256
begin

text \<open>
  A check of the hash against the published test vector of FIPS 180-4, evaluated by the
  simplifier.
\<close>

lemma Sum256_abc:
  "EncodeToString (Sum256 ''abc'') = ''ba7816bf8f01cfea414140de5dae2223b00361a396177a9cb410ff61f20015ad''"
  by code_simp

end
